(* ===== verification/Prelude.thy ===== *)
theory Prelude
  imports Main "HOL-Library.Word"
begin

unbundle bit_operations_syntax

text \<open>
  Shared vocabulary of the development: the machine integers of the crate, the outcome of a
  Rust function (a value, an error, or a panic: the crate is built with overflow checks on, so
  every unguarded arithmetic operation may panic), the state-passing version of it, checked and
  panicking arithmetic, bounds-checked slices, little-endian coding and rounding to a multiple.
  Nothing here models a file of its own; the component theories are written in these terms.
\<close>

section \<open>Types\<close>

type_synonym u8 = "8 word"
type_synonym u16 = "16 word"
type_synonym u32 = "32 word"
type_synonym u64 = "64 word"
type_synonym bytes = "u8 list"

text \<open>The outcome of a Rust function: \<open>Panic\<close> stands for an abort of the unikernel.\<close>

datatype ('a, 'e) result = Ok 'a | Err 'e | Panic

type_synonym ('s, 'a, 'e) action = "'s \<Rightarrow> ('a, 'e) result \<times> 's"

named_theorems outcome_simps "inversion of the result and action combinators"
named_theorems wp "weakest preconditions of the action combinators"
named_theorems arith_outcome "arithmetic with an outcome, read on natural numbers"

text \<open>
  The crate asks for heap memory with \<open>try_reserve\<close> where the request depends on its input and
  turns a refusal into an error. Whether a request is granted is up to the allocator: a
  parameter \<open>heap\<close> of the definitions that ask, one constructor per call site, with the number
  of elements requested.
\<close>

datatype alloc_site =
    AllocPhdrs | AllocInterp | AllocSegments | AllocCopyBuf | AllocEnvp | AllocArgv
  | AllocCandidate | AllocCString | AllocAppArgv

type_synonym heap = "alloc_site \<Rightarrow> nat \<Rightarrow> bool"

section \<open>Outcomes\<close>

primrec rbind :: "('a, 'e) result \<Rightarrow> ('a \<Rightarrow> ('b, 'e) result) \<Rightarrow> ('b, 'e) result" where
  "rbind (Ok x) f = f x"
| "rbind (Err e) f = Err e"
| "rbind Panic f = Panic"

primrec map_err :: "('e \<Rightarrow> 'f) \<Rightarrow> ('a, 'e) result \<Rightarrow> ('a, 'f) result" where
  "map_err g (Ok x) = Ok x"
| "map_err g (Err e) = Err (g e)"
| "map_err g Panic = Panic"

primrec ok_or :: "'a option \<Rightarrow> 'e \<Rightarrow> ('a, 'e) result" where
  "ok_or None e = Err e"
| "ok_or (Some x) e = Ok x"

definition guard :: "bool \<Rightarrow> 'e \<Rightarrow> (unit, 'e) result" where
  "guard b e = (if b then Err e else Ok ())"

text \<open>An index and a slice of a Rust slice panic when they run out of range.\<close>

definition index_at :: "'a list \<Rightarrow> nat \<Rightarrow> ('a, 'e) result" where
  "index_at xs i = (if i < length xs then Ok (xs ! i) else Panic)"

definition slice :: "'a list \<Rightarrow> nat \<Rightarrow> nat \<Rightarrow> ('a list, 'e) result" where
  "slice xs off n = (if off + n \<le> length xs then Ok (take n (drop off xs)) else Panic)"

lemma rbind_Ok [outcome_simps]: "rbind m f = Ok y \<longleftrightarrow> (\<exists>x. m = Ok x \<and> f x = Ok y)"
  by (cases m) auto

lemma rbind_Err [outcome_simps]:
  "rbind m f = Err e \<longleftrightarrow> m = Err e \<or> (\<exists>x. m = Ok x \<and> f x = Err e)"
  by (cases m) auto

lemma rbind_Panic [outcome_simps]:
  "rbind m f = Panic \<longleftrightarrow> m = Panic \<or> (\<exists>x. m = Ok x \<and> f x = Panic)"
  by (cases m) auto

lemma rbind_assoc: "rbind (rbind m f) g = rbind m (\<lambda>x. rbind (f x) g)"
  by (cases m) auto

lemma rbind_cong [fundef_cong]:
  "m = m' \<Longrightarrow> (\<And>x. m' = Ok x \<Longrightarrow> f x = f' x) \<Longrightarrow> rbind m f = rbind m' f'"
  by (cases m') simp_all

lemma map_err_outcome [outcome_simps]:
  "map_err g m = Ok x \<longleftrightarrow> m = Ok x"
  "map_err g m = Err f \<longleftrightarrow> (\<exists>e. m = Err e \<and> f = g e)"
  "map_err g m = Panic \<longleftrightarrow> m = Panic"
  by (cases m; auto)+

lemma ok_or_outcome [outcome_simps]:
  "ok_or v e = Ok x \<longleftrightarrow> v = Some x"
  "ok_or v e = Err f \<longleftrightarrow> v = None \<and> f = e"
  "ok_or v e \<noteq> Panic"
  by (cases v; auto)+

lemma guard_outcome [outcome_simps]:
  "guard b e = Ok u \<longleftrightarrow> \<not> b"
  "guard b e = Err f \<longleftrightarrow> b \<and> f = e"
  "guard b e \<noteq> Panic"
  by (auto simp: guard_def)

lemma index_at_outcome [outcome_simps]:
  "index_at xs i = Ok x \<longleftrightarrow> i < length xs \<and> x = xs ! i"
  "index_at xs i \<noteq> Err f"
  "index_at xs i = Panic \<longleftrightarrow> length xs \<le> i"
  by (auto simp: index_at_def)

lemma slice_outcome [outcome_simps]:
  "slice xs off n = Ok ys \<longleftrightarrow> off + n \<le> length xs \<and> ys = take n (drop off xs)"
  "slice xs off n \<noteq> Err f"
  "slice xs off n = Panic \<longleftrightarrow> length xs < off + n"
  by (auto simp: slice_def)

lemma guard_cong_simps [simp]:
  "guard False e = Ok ()" "guard True e = Err e"
  by (simp_all add: guard_def)

lemma index_at_in_range [simp]: "i < length xs \<Longrightarrow> index_at xs i = Ok (xs ! i)"
  by (simp add: index_at_def)

lemma slice_in_range [simp]: "off + n \<le> length xs \<Longrightarrow> slice xs off n = Ok (take n (drop off xs))"
  by (simp add: slice_def)

section \<open>Actions: outcomes with a state\<close>

definition sret :: "'a \<Rightarrow> ('s, 'a, 'e) action" where
  "sret x = (\<lambda>s. (Ok x, s))"

definition slift :: "('a, 'e) result \<Rightarrow> ('s, 'a, 'e) action" where
  "slift r = (\<lambda>s. (r, s))"

definition sbind :: "('s, 'a, 'e) action \<Rightarrow> ('a \<Rightarrow> ('s, 'b, 'e) action) \<Rightarrow> ('s, 'b, 'e) action"
  where "sbind m f = (\<lambda>s. case m s of
     (Ok x, s') \<Rightarrow> f x s'
   | (Err e, s') \<Rightarrow> (Err e, s')
   | (Panic, s') \<Rightarrow> (Panic, s'))"

text \<open>A \<open>for\<close> loop whose body may leave early.\<close>

primrec sfor :: "('a \<Rightarrow> ('s, unit, 'e) action) \<Rightarrow> 'a list \<Rightarrow> ('s, unit, 'e) action" where
  "sfor f [] = sret ()"
| "sfor f (x # xs) = sbind (f x) (\<lambda>_. sfor f xs)"

text \<open>
  A call whose error is dropped (\<open>let _ = f()\<close>, or an \<open>if let Err(e)\<close> that only logs), and a call
  whose error is passed on after some clean-up.
\<close>

definition sdiscard :: "('s, 'a, 'e) action \<Rightarrow> ('s, unit, 'f) action" where
  "sdiscard m = (\<lambda>s. case m s of (Panic, s') \<Rightarrow> (Panic, s') | (_, s') \<Rightarrow> (Ok (), s'))"

definition son_err :: "('s, 'a, 'e) action \<Rightarrow> ('s, unit, 'e) action \<Rightarrow> ('s, 'a, 'e) action" where
  "son_err m cleanup = (\<lambda>s. case m s of
     (Err e, s') \<Rightarrow> sbind (sdiscard cleanup) (\<lambda>_. slift (Err e)) s'
   | r \<Rightarrow> r)"

text \<open>A scope that ends in a destructor: it runs whether the body returned or failed.\<close>

definition sfinally :: "('s, 'a, 'e) action \<Rightarrow> ('s, unit, 'e) action \<Rightarrow> ('s, 'a, 'e) action" where
  "sfinally m cleanup = (\<lambda>s. case m s of
     (Panic, s') \<Rightarrow> (Panic, s')
   | (r, s') \<Rightarrow> (case cleanup s' of (Panic, s'') \<Rightarrow> (Panic, s'') | (_, s'') \<Rightarrow> (r, s'')))"

lemma sret_apply [simp]: "sret x s = (Ok x, s)"
  by (simp add: sret_def)

lemma slift_apply [simp]: "slift r s = (r, s)"
  by (simp add: slift_def)

lemma sbind_Ok [outcome_simps]:
  "sbind m f s = (Ok y, s') \<longleftrightarrow> (\<exists>x s1. m s = (Ok x, s1) \<and> f x s1 = (Ok y, s'))"
  by (auto simp: sbind_def split: prod.splits result.splits)

lemma sbind_Err [outcome_simps]:
  "sbind m f s = (Err e, s') \<longleftrightarrow>
     m s = (Err e, s') \<or> (\<exists>x s1. m s = (Ok x, s1) \<and> f x s1 = (Err e, s'))"
  by (auto simp: sbind_def split: prod.splits result.splits)

lemma sbind_Panic [outcome_simps]:
  "sbind m f s = (Panic, s') \<longleftrightarrow>
     m s = (Panic, s') \<or> (\<exists>x s1. m s = (Ok x, s1) \<and> f x s1 = (Panic, s'))"
  by (auto simp: sbind_def split: prod.splits result.splits)

lemma sdiscard_outcome [outcome_simps]:
  "sdiscard m s = (Ok u, s') \<longleftrightarrow> (\<exists>x. m s = (Ok x, s')) \<or> (\<exists>e. m s = (Err e, s'))"
  "sdiscard m s \<noteq> (Err f, s')"
  "sdiscard m s = (Panic, s') \<longleftrightarrow> m s = (Panic, s')"
  by (auto simp: sdiscard_def split: prod.splits result.splits)

lemma son_err_outcome [outcome_simps]:
  "son_err m c s = (Ok x, s') \<longleftrightarrow> m s = (Ok x, s')"
  "son_err m c s = (Err e, s') \<longleftrightarrow>
     (\<exists>s1. m s = (Err e, s1) \<and> ((\<exists>u. c s1 = (Ok u, s')) \<or> (\<exists>f. c s1 = (Err f, s'))))"
  "son_err m c s = (Panic, s') \<longleftrightarrow>
     m s = (Panic, s') \<or> (\<exists>e s1. m s = (Err e, s1) \<and> c s1 = (Panic, s'))"
  by (auto simp: son_err_def sbind_def sdiscard_def split: prod.splits result.splits)

lemma sfinally_outcome [outcome_simps]:
  "sfinally m c s = (Ok x, s') \<longleftrightarrow>
     (\<exists>s1. m s = (Ok x, s1) \<and> ((\<exists>u. c s1 = (Ok u, s')) \<or> (\<exists>f. c s1 = (Err f, s'))))"
  "sfinally m c s = (Err e, s') \<longleftrightarrow>
     (\<exists>s1. m s = (Err e, s1) \<and> ((\<exists>u. c s1 = (Ok u, s')) \<or> (\<exists>f. c s1 = (Err f, s'))))"
  by (auto simp: sfinally_def split: prod.splits result.splits)

lemma sbind_slift_Ok [simp]: "sbind (slift (Ok x)) f = f x"
  by (rule ext) (simp add: sbind_def)

lemma sbind_slift_Err [simp]: "sbind (slift (Err e)) f s = (Err e, s)"
  by (simp add: sbind_def)

text \<open>The monad laws, and a loop over a list in two parts.\<close>

lemma sbind_assoc: "sbind (sbind m f) g = sbind m (\<lambda>x. sbind (f x) g)"
  by (rule ext) (auto simp: sbind_def split: prod.splits result.splits)

lemma sbind_sret_right: "sbind m sret = m"
  by (rule ext) (auto simp: sbind_def split: prod.splits result.splits)

lemma sbind_sret_left: "sbind (sret x) f = f x" "sbind (Pair (Ok x)) f = f x"
  by (rule ext, simp add: sbind_def)+

lemma sfor_append: "sfor f (xs @ ys) = sbind (sfor f xs) (\<lambda>_. sfor f ys)"
  by (induction xs) (simp_all add: sbind_assoc sbind_sret_left)

text \<open>
  Weakest preconditions: \<open>ends m s Q E\<close> says that if \<open>m\<close> run from \<open>s\<close> returns, \<open>Q\<close> holds of the result
  and the new state, and if it fails, \<open>E\<close> holds of the new state.
\<close>

definition ends :: "('s, 'a, 'e) action \<Rightarrow> 's \<Rightarrow> ('a \<Rightarrow> 's \<Rightarrow> bool) \<Rightarrow> ('s \<Rightarrow> bool) \<Rightarrow> bool" where
  "ends m s Q E \<longleftrightarrow> (case m s of (Ok x, s') \<Rightarrow> Q x s' | (Err e, s') \<Rightarrow> E s' | (Panic, s') \<Rightarrow> True)"

lemma ends_iff:
  "ends m s Q E \<longleftrightarrow> (\<forall>x s'. m s = (Ok x, s') \<longrightarrow> Q x s') \<and> (\<forall>e s'. m s = (Err e, s') \<longrightarrow> E s')"
  by (auto simp: ends_def split: prod.splits result.splits)

lemmas endsI = ends_iff [THEN iffD2, rule_format, OF conjI]

lemma ends_Ok: "ends m s Q E \<Longrightarrow> m s = (Ok x, s') \<Longrightarrow> Q x s'"
  by (simp add: ends_def)

lemma ends_Err: "ends m s Q E \<Longrightarrow> m s = (Err e, s') \<Longrightarrow> E s'"
  by (simp add: ends_def)

lemma ends_weaken:
  "ends m s Q E \<Longrightarrow> (\<And>x s'. Q x s' \<Longrightarrow> Q' x s') \<Longrightarrow> (\<And>s'. E s' \<Longrightarrow> E' s') \<Longrightarrow> ends m s Q' E'"
  by (auto simp: ends_iff)

lemma ends_bind [wp]: "ends (sbind m f) s Q E \<longleftrightarrow> ends m s (\<lambda>x s'. ends (f x) s' Q E) E"
  by (auto simp: ends_def sbind_def split: prod.splits result.splits)

lemma ends_ret [wp]: "ends (sret x) s Q E \<longleftrightarrow> Q x s"
  by (simp add: ends_def)

lemma ends_lift [wp]:
  "ends (slift r) s Q E \<longleftrightarrow> (\<forall>x. r = Ok x \<longrightarrow> Q x s) \<and> (\<forall>e. r = Err e \<longrightarrow> E s)"
  by (auto simp: ends_iff)

lemma ends_pure [wp]:
  "ends (Pair r) s Q E \<longleftrightarrow> (\<forall>x. r = Ok x \<longrightarrow> Q x s) \<and> (\<forall>e. r = Err e \<longrightarrow> E s)"
  by (auto simp: ends_iff)

lemma ends_discard [wp]:
  "ends (sdiscard m) s Q E \<longleftrightarrow> ends m s (\<lambda>_ s'. Q () s') (Q ())"
  by (auto simp: ends_iff outcome_simps)

lemma ends_on_err [wp]:
  "ends (son_err m c) s Q E \<longleftrightarrow> ends m s Q (\<lambda>s'. ends c s' (\<lambda>_. E) E)"
  by (auto simp: ends_def son_err_def sbind_def sdiscard_def split: prod.splits result.splits)

lemma ends_finally [wp]:
  "ends (sfinally m c) s Q E \<longleftrightarrow>
     ends m s (\<lambda>x s'. ends c s' (\<lambda>_. Q x) (Q x)) (\<lambda>s'. ends c s' (\<lambda>_. E) E)"
  by (auto simp: ends_def sfinally_def split: prod.splits result.splits)

text \<open>A loop over a list with an invariant indexed by what is still to be done.\<close>

lemma ends_for:
  assumes "I xs s"
    and "\<And>x ys s. I (x # ys) s \<Longrightarrow> ends (f x) s (\<lambda>_ s'. I ys s') E"
    and "\<And>s. I [] s \<Longrightarrow> Q () s"
  shows "ends (sfor f xs) s Q E"
  using assms(1)
proof (induction xs arbitrary: s)
  case Nil
  with assms(3) show ?case by (simp add: wp)
next
  case (Cons x xs)
  from assms(2) [OF Cons.prems] show ?case
    by (simp add: wp) (erule ends_weaken, erule Cons.IH, assumption)
qed

text \<open>
  The total version: \<open>yields m s Q E\<close> says in addition that \<open>m\<close> does not panic, and \<open>E\<close> also sees the
  error.
\<close>

definition yields :: "('s, 'a, 'e) action \<Rightarrow> 's \<Rightarrow> ('a \<Rightarrow> 's \<Rightarrow> bool) \<Rightarrow> ('e \<Rightarrow> 's \<Rightarrow> bool) \<Rightarrow> bool" where
  "yields m s Q E \<longleftrightarrow>
     (case m s of (Ok x, s') \<Rightarrow> Q x s' | (Err e, s') \<Rightarrow> E e s' | (Panic, s') \<Rightarrow> False)"

lemma yields_Ok: "yields m s Q E \<Longrightarrow> m s = (Ok x, s') \<Longrightarrow> Q x s'"
  by (simp add: yields_def)

lemma yields_Err: "yields m s Q E \<Longrightarrow> m s = (Err e, s') \<Longrightarrow> E e s'"
  by (simp add: yields_def)

lemma yields_no_panic: "yields m s Q E \<Longrightarrow> m s \<noteq> (Panic, s')"
  by (auto simp: yields_def)

lemma yieldsE:
  assumes "yields m s Q E"
  obtains x s' where "m s = (Ok x, s')" "Q x s'" | e s' where "m s = (Err e, s')" "E e s'"
  using assms by (cases "m s"; cases "fst (m s)") (auto simp: yields_def)

lemma yields_weaken:
  "yields m s Q E \<Longrightarrow> (\<And>x s'. Q x s' \<Longrightarrow> Q' x s') \<Longrightarrow> (\<And>e s'. E e s' \<Longrightarrow> E' e s') \<Longrightarrow> yields m s Q' E'"
  by (auto simp: yields_def split: prod.splits result.splits)

lemma yields_bind [wp]: "yields (sbind m f) s Q E \<longleftrightarrow> yields m s (\<lambda>x s'. yields (f x) s' Q E) E"
  by (auto simp: yields_def sbind_def split: prod.splits result.splits)

lemma yields_ret [wp]: "yields (sret x) s Q E \<longleftrightarrow> Q x s"
  by (simp add: yields_def)

lemma yields_pure [wp]:
  "yields (Pair r) s Q E \<longleftrightarrow> r \<noteq> Panic \<and> (\<forall>x. r = Ok x \<longrightarrow> Q x s) \<and> (\<forall>e. r = Err e \<longrightarrow> E e s)"
  by (cases r) (simp_all add: yields_def)

lemma yields_lift [wp]:
  "yields (slift r) s Q E \<longleftrightarrow> r \<noteq> Panic \<and> (\<forall>x. r = Ok x \<longrightarrow> Q x s) \<and> (\<forall>e. r = Err e \<longrightarrow> E e s)"
  by (cases r) (simp_all add: yields_def)

lemma yields_guard [wp]:
  "yields (slift (guard b e)) s Q E \<longleftrightarrow> (if b then E e s else Q () s)"
  by (simp add: yields_def)

lemma yields_guardI:
  "(b \<Longrightarrow> E e s) \<Longrightarrow> (\<not> b \<Longrightarrow> Q () s) \<Longrightarrow> yields (slift (guard b e)) s Q E"
  by (simp add: yields_guard)

text \<open>A property of the state that every iteration keeps is kept by the loop.\<close>

lemma sfor_invariant:
  assumes "sfor f xs s = (r, s')" and "I s"
    and "\<And>x s r s'. x \<in> set xs \<Longrightarrow> I s \<Longrightarrow> f x s = (r, s') \<Longrightarrow> I s'"
  shows "I s'"
  using assms
proof (induction xs arbitrary: s)
  case Nil
  then show ?case by simp
next
  case (Cons x xs)
  obtain r1 s1 where step: "f x s = (r1, s1)" by (cases "f x s")
  with Cons.prems have "I s1" by (meson list.set_intros(1))
  with step Cons.prems Cons.IH [of s1] show ?case
    by (cases r1) (auto simp: sbind_def intro: Cons.prems(3) [OF list.set_intros(2)])
qed

section \<open>Arithmetic\<close>

text \<open>\<open>checked_add\<close>, \<open>checked_sub\<close> and \<open>checked_mul\<close> of the standard library.\<close>

definition checked_add :: "'l::len word \<Rightarrow> 'l word \<Rightarrow> 'l word option" where
  "checked_add a b = (if unat a + unat b < 2 ^ LENGTH('l) then Some (a + b) else None)"

definition checked_sub :: "'l::len word \<Rightarrow> 'l word \<Rightarrow> 'l word option" where
  "checked_sub a b = (if b \<le> a then Some (a - b) else None)"

definition checked_mul :: "'l::len word \<Rightarrow> 'l word \<Rightarrow> 'l word option" where
  "checked_mul a b = (if unat a * unat b < 2 ^ LENGTH('l) then Some (a * b) else None)"

text \<open>The plain operators, which panic on overflow.\<close>

definition padd :: "'l::len word \<Rightarrow> 'l word \<Rightarrow> ('l word, 'e) result" where
  "padd a b = (case checked_add a b of None \<Rightarrow> Panic | Some c \<Rightarrow> Ok c)"

definition psub :: "'l::len word \<Rightarrow> 'l word \<Rightarrow> ('l word, 'e) result" where
  "psub a b = (case checked_sub a b of None \<Rightarrow> Panic | Some c \<Rightarrow> Ok c)"

definition pmul :: "'l::len word \<Rightarrow> 'l word \<Rightarrow> ('l word, 'e) result" where
  "pmul a b = (case checked_mul a b of None \<Rightarrow> Panic | Some c \<Rightarrow> Ok c)"

text \<open>\<open>u64::saturating_add\<close>.\<close>

definition saturating_add :: "u64 \<Rightarrow> u64 \<Rightarrow> u64" where
  "saturating_add a b = (case checked_add a b of None \<Rightarrow> - 1 | Some c \<Rightarrow> c)"

text \<open>\<open>u64::is_power_of_two\<close>: exactly one bit is set.\<close>

definition is_power_of_two :: "u64 \<Rightarrow> bool" where
  "is_power_of_two a \<longleftrightarrow> length (filter (bit a) [0..<64]) = 1"

lemma unat_eqI: "unat (a :: 'l::len word) = unat b \<Longrightarrow> a = b"
  by (simp add: word_unat_eq_iff)

lemma unat_lt_64 [simp]: "unat (a :: u64) < 18446744073709551616"
  using unsigned_less [of a] by simp

lemma le_unat_lt: "n \<le> unat (a :: u64) \<Longrightarrow> n < 2 ^ 64"
  using le_less_trans [OF _ unat_lt_64] by simp

lemma checked_add_Some [arith_outcome]:
  "checked_add a b = Some c \<longleftrightarrow>
     unat a + unat b < 2 ^ LENGTH('l) \<and> unat c = unat a + unat (b :: 'l::len word)"
  by (auto simp: checked_add_def unat_word_ariths intro: unat_eqI)

lemma checked_add_None [arith_outcome]:
  "checked_add a (b :: 'l::len word) = None \<longleftrightarrow> 2 ^ LENGTH('l) \<le> unat a + unat b"
  by (auto simp: checked_add_def)

lemma checked_sub_Some [arith_outcome]:
  "checked_sub a b = Some c \<longleftrightarrow> unat b \<le> unat a \<and> unat c = unat a - unat (b :: 'l::len word)"
  by (auto simp: checked_sub_def word_le_nat_alt unat_sub intro: unat_eqI)

lemma checked_sub_None [arith_outcome]: "checked_sub a b = None \<longleftrightarrow> unat a < unat b"
  by (auto simp: checked_sub_def word_le_nat_alt)

lemma checked_mul_Some [arith_outcome]:
  "checked_mul a b = Some c \<longleftrightarrow>
     unat a * unat b < 2 ^ LENGTH('l) \<and> unat c = unat a * unat (b :: 'l::len word)"
  by (auto simp: checked_mul_def unat_word_ariths intro: unat_eqI)

lemma checked_mul_None [arith_outcome]:
  "checked_mul a (b :: 'l::len word) = None \<longleftrightarrow> 2 ^ LENGTH('l) \<le> unat a * unat b"
  by (auto simp: checked_mul_def)

lemma padd_outcome [arith_outcome]:
  "padd a b = Ok c \<longleftrightarrow>
     unat a + unat b < 2 ^ LENGTH('l) \<and> unat c = unat a + unat (b :: 'l::len word)"
  "padd a b \<noteq> Err e"
  "padd a b = Panic \<longleftrightarrow> 2 ^ LENGTH('l) \<le> unat a + unat b"
  by (auto simp: padd_def checked_add_Some checked_add_None split: option.splits intro: unat_eqI)

lemma psub_outcome [arith_outcome]:
  "psub a b = Ok c \<longleftrightarrow> unat b \<le> unat a \<and> unat c = unat a - unat (b :: 'l::len word)"
  "psub a b \<noteq> Err e"
  "psub a b = Panic \<longleftrightarrow> unat a < unat b"
  by (auto simp: psub_def checked_sub_Some checked_sub_None split: option.splits intro: unat_eqI)

lemma pmul_outcome [arith_outcome]:
  "pmul a b = Ok c \<longleftrightarrow>
     unat a * unat b < 2 ^ LENGTH('l) \<and> unat c = unat a * unat (b :: 'l::len word)"
  "pmul a b \<noteq> Err e"
  "pmul a b = Panic \<longleftrightarrow> 2 ^ LENGTH('l) \<le> unat a * unat b"
  by (auto simp: pmul_def checked_mul_Some checked_mul_None split: option.splits intro: unat_eqI)

text \<open>Where the operation is known to stay in range it is the plain word operation.\<close>

lemma checked_add_ok:
  "unat a + unat b < 2 ^ LENGTH('l) \<Longrightarrow> checked_add a (b :: 'l::len word) = Some (a + b)"
  by (simp add: checked_add_def)

lemma padd_ok: "unat a + unat b < 2 ^ LENGTH('l) \<Longrightarrow> padd a (b :: 'l::len word) = Ok (a + b)"
  by (simp add: padd_def checked_add_def)

lemma psub_ok: "unat b \<le> unat a \<Longrightarrow> psub a (b :: 'l::len word) = Ok (a - b)"
  by (simp add: psub_def checked_sub_def word_le_nat_alt)

lemma pmul_ok: "unat a * unat b < 2 ^ LENGTH('l) \<Longrightarrow> pmul a (b :: 'l::len word) = Ok (a * b)"
  by (simp add: pmul_def checked_mul_def)

lemma unat_add_ok: "unat a + unat b < 2 ^ LENGTH('l) \<Longrightarrow> unat (a + b) = unat a + unat (b :: 'l::len word)"
  by (simp add: unat_word_ariths)

lemma unat_sub_ok: "unat b \<le> unat a \<Longrightarrow> unat (a - b) = unat a - unat (b :: 'l::len word)"
  by (simp add: unat_sub word_le_nat_alt)

section \<open>Rounding to a multiple\<close>

definition floor_to :: "nat \<Rightarrow> nat \<Rightarrow> nat" where
  "floor_to v a = v div a * a"

definition ceil_to :: "nat \<Rightarrow> nat \<Rightarrow> nat" where
  "ceil_to v a = (v + (a - 1)) div a * a"

lemma floor_to_le [simp]: "floor_to v a \<le> v"
  by (simp add: floor_to_def)

lemma floor_to_dvd [simp]: "a dvd floor_to v a"
  by (simp add: floor_to_def)

lemma ceil_to_dvd [simp]: "a dvd ceil_to v a"
  by (simp add: ceil_to_def)

lemma floor_to_eq: "floor_to v a = v - v mod a"
  by (simp add: floor_to_def minus_mod_eq_div_mult)

lemma floor_to_gt: "0 < a \<Longrightarrow> v < floor_to v a + a"
  by (simp add: floor_to_eq) (metis less_diff_conv mod_less_divisor mod_less_eq_dividend
      add.commute le_add_diff_inverse nat_add_left_cancel_less)

lemma ceil_to_ge: "0 < a \<Longrightarrow> v \<le> ceil_to v a"
proof -
  assume "0 < a"
  then have "v + (a - 1) < ceil_to v a + a"
    using floor_to_gt [of a "v + (a - 1)"] by (simp add: ceil_to_def floor_to_def)
  with \<open>0 < a\<close> show ?thesis by simp
qed

lemma ceil_to_lt: "0 < a \<Longrightarrow> ceil_to v a < v + a"
proof -
  assume "0 < a"
  have "ceil_to v a \<le> v + (a - 1)"
    using floor_to_le [of "v + (a - 1)" a] by (simp only: ceil_to_def floor_to_def)
  with \<open>0 < a\<close> show ?thesis by simp
qed

lemma floor_to_greatest: "a dvd x \<Longrightarrow> x \<le> v \<Longrightarrow> x \<le> floor_to v a"
proof -
  assume "a dvd x" "x \<le> v"
  then have "x div a * a \<le> v div a * a" by (intro mult_le_mono1 div_le_mono)
  with \<open>a dvd x\<close> show ?thesis by (simp add: floor_to_def)
qed

lemma ceil_to_least: "0 < a \<Longrightarrow> a dvd x \<Longrightarrow> v \<le> x \<Longrightarrow> ceil_to v a \<le> x"
proof -
  assume a: "0 < a" "a dvd x" "v \<le> x"
  have "(v + (a - 1)) div a \<le> (x + (a - 1)) div a"
    using a by (intro div_le_mono) simp
  also have "\<dots> = x div a"
    using a div_plus_div_distrib_dvd_left [of a x "a - 1"] by simp
  finally have "(v + (a - 1)) div a * a \<le> x div a * a" by (rule mult_le_mono1)
  with a show ?thesis by (simp add: ceil_to_def)
qed

lemma floor_to_fixed [simp]: "a dvd v \<Longrightarrow> floor_to v a = v"
  by (simp add: floor_to_def)

lemma ceil_to_fixed: "0 < a \<Longrightarrow> a dvd v \<Longrightarrow> ceil_to v a = v"
  by (meson ceil_to_ge ceil_to_least dual_order.refl le_antisym)

lemma ceil_to_mono: "v \<le> w \<Longrightarrow> ceil_to v a \<le> ceil_to w a"
  by (simp add: ceil_to_def div_le_mono)

lemma floor_to_mono: "v \<le> w \<Longrightarrow> floor_to v a \<le> floor_to w a"
  by (simp add: floor_to_def div_le_mono)

lemma floor_to_add: "a dvd b \<Longrightarrow> floor_to (v + b) a = floor_to v a + b"
  by (cases "a = 0") (auto simp: floor_to_def elim!: dvdE simp: algebra_simps)

lemma ceil_to_add: "a dvd b \<Longrightarrow> ceil_to (v + b) a = ceil_to v a + b"
proof -
  assume "a dvd b"
  then have "floor_to (v + (a - 1) + b) a = floor_to (v + (a - 1)) a + b" by (rule floor_to_add)
  then show ?thesis by (simp add: ceil_to_def floor_to_def ac_simps)
qed

text \<open>Rounding a multiple of \<open>p\<close> up to a coarser multiple skips at most \<open>a - p\<close>.\<close>

lemma ceil_to_slack:
  assumes "0 < p" "p dvd a" "p dvd v" "0 < a"
  shows "ceil_to v a \<le> v + (a - p)"
proof -
  have "p dvd ceil_to v a" using \<open>p dvd a\<close> ceil_to_dvd dvd_trans by blast
  then have "p dvd ceil_to v a - v" using \<open>p dvd v\<close> by (rule dvd_diff_nat)
  moreover have "ceil_to v a - v < a" using ceil_to_lt [OF \<open>0 < a\<close>, of v] ceil_to_ge [OF \<open>0 < a\<close>, of v]
    by simp
  ultimately have "ceil_to v a - v + p \<le> a" using \<open>p dvd a\<close>
    by (auto elim!: dvdE) (metis \<open>0 < p\<close> Suc_leI mult_Suc_right mult_le_mono2 nat_mult_less_cancel1 add.commute)
  then show ?thesis by simp
qed

section \<open>Masks by a power of two\<close>

lemma single_bit_filter: "length (filter P [0..<n]) = 1 \<longleftrightarrow> (\<exists>k<n. \<forall>i<n. P i \<longleftrightarrow> i = k)"
proof -
  have "length (filter P [0..<n]) = card (set (filter P [0..<n]))"
    by (rule distinct_card [symmetric]) simp
  also have "\<dots> = card {i. i < n \<and> P i}" by (rule arg_cong [where f = card]) auto
  finally have "length (filter P [0..<n]) = 1 \<longleftrightarrow> (\<exists>k. {i. i < n \<and> P i} = {k})"
    by (simp add: card_1_singleton_iff)
  then show ?thesis by blast
qed

lemma is_power_of_two_iff: "is_power_of_two a \<longleftrightarrow> (\<exists>k<64. a = 2 ^ k)"
proof -
  have "(\<forall>i<64. bit a i \<longleftrightarrow> i = k) \<longleftrightarrow> a = 2 ^ k" if "k < 64" for k
    using that by (auto simp: bit_eq_iff bit_exp_iff bit_imp_le_length dest: bit_imp_le_length)
  then show ?thesis
    unfolding is_power_of_two_def single_bit_filter by blast
qed

lemma is_power_of_twoE:
  assumes "is_power_of_two a"
  obtains k where "k < 64" "a = 2 ^ k" "unat a = 2 ^ k"
proof -
  from assms obtain k where "k < 64" "a = 2 ^ k" by (auto simp: is_power_of_two_iff)
  moreover have "unat (of_nat (2 ^ k) :: u64) = 2 ^ k"
  proof -
    have "(2::nat) ^ k < 2 ^ LENGTH(64)" using \<open>k < 64\<close> by (intro power_strict_increasing) simp_all
    then show ?thesis by (simp only: unat_of_nat mod_less)
  qed
  ultimately show thesis using that by simp
qed

lemma power_of_two_pos: "is_power_of_two a \<Longrightarrow> 0 < unat a"
  by (auto elim: is_power_of_twoE)

lemma power_of_two_dvd:
  "is_power_of_two a \<Longrightarrow> is_power_of_two b \<Longrightarrow> unat a \<le> unat b \<Longrightarrow> unat a dvd unat b"
  by (elim is_power_of_twoE) (simp add: le_imp_power_dvd)

lemma power_of_two_dvd_word: "is_power_of_two a \<Longrightarrow> unat a dvd 2 ^ 64"
  by (elim is_power_of_twoE) (simp only: le_imp_power_dvd)

lemma unat_and_low: "is_power_of_two a \<Longrightarrow> unat (v AND (a - 1)) = unat v mod unat a"
proof (elim is_power_of_twoE)
  fix k assume k: "k < 64" "a = 2 ^ k" "unat a = 2 ^ k"
  then have "v AND (a - 1) = take_bit k v"
    by (simp only: take_bit_eq_mask mask_eq_exp_minus_1)
  then have "unat (v AND (a - 1)) = take_bit k (unat v)"
    by (simp only: unsigned_take_bit_eq)
  with k show ?thesis by (simp only: take_bit_eq_mod)
qed

lemma unat_and_high: "is_power_of_two a \<Longrightarrow> unat (v AND NOT (a - 1)) = floor_to (unat v) (unat a)"
proof -
  assume a: "is_power_of_two a"
  have "(v AND NOT (a - 1)) + (v AND (a - 1)) = v"
    by (subst disjunctive_add_eq_or) (auto simp: bit_eq_iff bit_simps)
  then have "v AND NOT (a - 1) = v - (v AND (a - 1))"
    by (simp add: eq_diff_eq)
  moreover have "unat (v AND (a - 1)) \<le> unat v"
    by (simp add: unat_and_low [OF a])
  ultimately show ?thesis
    by (simp add: unat_sub_ok unat_and_low [OF a] floor_to_eq)
qed

section \<open>Little-endian coding\<close>

primrec le_val :: "bytes \<Rightarrow> nat" where
  "le_val [] = 0"
| "le_val (b # bs) = unat b + 256 * le_val bs"

primrec le_enc :: "nat \<Rightarrow> nat \<Rightarrow> bytes" where
  "le_enc 0 v = []"
| "le_enc (Suc n) v = of_nat (v mod 256) # le_enc n (v div 256)"

definition from_le_bytes :: "bytes \<Rightarrow> 'l::len word" where
  "from_le_bytes bs = of_nat (le_val bs)"

definition to_le_bytes :: "u64 \<Rightarrow> bytes" where
  "to_le_bytes v = le_enc 8 (unat v)"

lemma length_le_enc [simp]: "length (le_enc n v) = n"
  by (induction n arbitrary: v) auto

lemma length_to_le_bytes [simp]: "length (to_le_bytes v) = 8"
  by (simp add: to_le_bytes_def)

lemma le_val_bound: "le_val bs < 256 ^ length bs"
proof (induction bs)
  case (Cons b bs)
  have "unat b < 256" using unsigned_less [of b] by simp
  then have "le_val (b # bs) < 256 * (le_val bs + 1)" by simp
  also have "\<dots> \<le> 256 * 256 ^ length bs" using Cons.IH by simp
  finally show ?case by simp
qed simp

lemma le_val_enc: "le_val (le_enc n v) = v mod 256 ^ n"
proof (induction n arbitrary: v)
  case (Suc n)
  have "unat (of_nat (v mod 256) :: u8) = v mod 256"
    by (simp add: unat_of_nat)
  with Suc show ?case by (simp add: mod_mult2_eq)
qed simp

lemma le_enc_val: "le_enc (length bs) (le_val bs) = bs"
proof (induction bs)
  case (Cons b bs)
  have b: "unat b < 256" using unsigned_less [of b] by simp
  then have "(unat b + 256 * le_val bs) mod 256 = unat b" "(unat b + 256 * le_val bs) div 256 = le_val bs"
    by auto
  with Cons show ?case by simp
qed simp

lemma from_to_le_bytes [simp]: "from_le_bytes (to_le_bytes v) = v"
proof -
  have "unat v mod 256 ^ 8 = unat v" by (simp add: unsigned_less)
  then show ?thesis by (simp add: from_le_bytes_def to_le_bytes_def le_val_enc)
qed

lemma to_from_le_bytes: "length bs = 8 \<Longrightarrow> to_le_bytes (from_le_bytes bs) = bs"
proof -
  assume len: "length bs = 8"
  with le_val_bound [of bs] have "le_val bs < 2 ^ 64" by simp
  then have "unat (from_le_bytes bs :: u64) = le_val bs"
    by (simp add: from_le_bytes_def unat_of_nat)
  with len le_enc_val [of bs] show ?thesis by (simp add: to_le_bytes_def)
qed

section \<open>Lists\<close>

lemma nth_take_drop: "i < n \<Longrightarrow> off + n \<le> length xs \<Longrightarrow> take n (drop off xs) ! i = xs ! (off + i)"
  by simp

lemma sorted_key_nth_mono:
  "sorted (map f xs) \<Longrightarrow> i \<le> j \<Longrightarrow> j < length xs \<Longrightarrow> f (xs ! i) \<le> f (xs ! j)"
  using sorted_nth_mono [of "map f xs" i j] by simp

text \<open>\<open>b[off..off + xs.len()].copy_from_slice(xs)\<close>, and a list of such writes.\<close>

definition copy_into :: "'a list \<Rightarrow> nat \<Rightarrow> 'a list \<Rightarrow> ('a list, 'e) result" where
  "copy_into b off xs =
    (if off + length xs \<le> length b then Ok (take off b @ xs @ drop (off + length xs) b) else Panic)"

lemma copy_into_fits: "off + length xs \<le> length b \<Longrightarrow> copy_into b off xs = Ok (take off b @ xs @ drop (off + length xs) b)"
  by (simp add: copy_into_def)

primrec put_all :: "(nat \<times> 'a list) list \<Rightarrow> 'a list \<Rightarrow> ('a list, 'e) result" where
  "put_all [] b = Ok b"
| "put_all (p # ps) b = rbind (copy_into b (fst p) (snd p)) (put_all ps)"

lemma put_all_append: "put_all (ps @ qs) b = rbind (put_all ps b) (put_all qs)"
  by (induction ps arbitrary: b) (auto simp: rbind_assoc intro!: rbind_cong)

text \<open>Writes that follow each other without a gap amount to one write.\<close>

primrec chained :: "nat \<Rightarrow> (nat \<times> 'a list) list \<Rightarrow> bool" where
  "chained off [] \<longleftrightarrow> True"
| "chained off (p # ps) \<longleftrightarrow> fst p = off \<and> chained (off + length (snd p)) ps"

lemma chained_append:
  "chained off (ps @ qs) \<longleftrightarrow> chained off ps \<and> chained (off + length (concat (map snd ps))) qs"
  by (induction ps arbitrary: off) (auto simp: add.assoc)

lemma put_all_chained:
  "chained off ps \<Longrightarrow> off + length (concat (map snd ps)) \<le> length b \<Longrightarrow>
   (put_all ps b :: ('a list, 'e) result)
     = Ok (take off b @ concat (map snd ps) @ drop (off + length (concat (map snd ps))) b)"
proof (induction ps arbitrary: off b)
  case (Cons p ps)
  let ?b = "take off b @ snd p @ drop (off + length (snd p)) b"
  have "copy_into b (fst p) (snd p) = (Ok ?b :: ('a list, 'e) result)"
    using Cons.prems by (simp add: copy_into_fits)
  moreover have "(put_all ps ?b :: ('a list, 'e) result) = Ok (take (off + length (snd p)) ?b @ concat (map snd ps)
      @ drop (off + length (snd p) + length (concat (map snd ps))) ?b)"
    using Cons.prems by (intro Cons.IH) simp_all
  ultimately show ?case using Cons.prems by (simp add: ac_simps)
qed simp

lemma put_all_fits:
  "\<forall>p\<in>set ps. fst p + length (snd p) \<le> length b \<Longrightarrow> \<exists>b'. put_all ps b = (Ok b' :: ('a list, 'e) result)"
proof (induction ps arbitrary: b)
  case (Cons p ps)
  let ?b = "take (fst p) b @ snd p @ drop (fst p + length (snd p)) b"
  have "length ?b = length b" using Cons.prems by simp
  then have "\<forall>q\<in>set ps. fst q + length (snd q) \<le> length ?b" using Cons.prems by simp
  from Cons.IH [OF this] show ?case using Cons.prems by (simp add: copy_into_fits)
qed simp

text \<open>A write behind a prefix leaves the prefix, and none changes the length.\<close>

lemma put_all_behind:
  assumes "put_all ps b = (Ok b' :: ('a list, 'e) result)" and "\<forall>p\<in>set ps. n \<le> fst p"
  shows "length b' = length b \<and> take n b' = take n b"
  using assms
proof (induction ps arbitrary: b)
  case (Cons p ps)
  let ?b = "take (fst p) b @ snd p @ drop (fst p + length (snd p)) b"
  from Cons.prems(1) have fits: "fst p + length (snd p) \<le> length b" and "put_all ps ?b = (Ok b' :: ('a list, 'e) result)"
    by (auto simp: rbind_Ok copy_into_def split: if_splits)
  with Cons.IH [of ?b] Cons.prems(2) show ?case by simp
qed simp

end
