(* ===== verification/Elf.thy ===== *)
theory Elf
  imports Errno
begin

text \<open>
  The ELF64 reader of \<open>rust/src/elf.rs\<close>: the headers as records, the field readers, the image
  source (a trait of the crate, here a record of its two operations), the parser with every
  rejection in the order of the source, and the queries on a parsed image. Arithmetic that the
  source leaves unchecked panics in the model, as the release build does with overflow checks
  on; \<open>debug_assert!\<close> is compiled out there and has no counterpart. The lemmas about these
  definitions are in the theory \<open>Elf_Facts\<close>.
\<close>

section \<open>Constants\<close>

definition EI_NIDENT :: nat where "EI_NIDENT = 16"
definition EHDR_SIZE :: nat where "EHDR_SIZE = 64"
definition PHDR_SIZE :: nat where "PHDR_SIZE = 56"

definition ELFMAG :: bytes where "ELFMAG = [0x7f, 0x45, 0x4c, 0x46]"

definition EI_CLASS :: nat where "EI_CLASS = 4"
definition EI_DATA :: nat where "EI_DATA = 5"
definition EI_VERSION :: nat where "EI_VERSION = 6"
definition EI_OSABI :: nat where "EI_OSABI = 7"

definition ELFCLASS64 :: u8 where "ELFCLASS64 = 2"
definition ELFDATA2LSB :: u8 where "ELFDATA2LSB = 1"
definition EV_CURRENT :: u8 where "EV_CURRENT = 1"

definition ELFOSABI_NONE :: u8 where "ELFOSABI_NONE = 0"
definition ELFOSABI_GNU :: u8 where "ELFOSABI_GNU = 3"
definition ELFOSABI_ARM_AEABI :: u8 where "ELFOSABI_ARM_AEABI = 64"

definition ET_EXEC :: u16 where "ET_EXEC = 2"
definition ET_DYN :: u16 where "ET_DYN = 3"

definition EM_X86_64 :: u16 where "EM_X86_64 = 62"
definition EM_AARCH64 :: u16 where "EM_AARCH64 = 183"

definition PN_XNUM :: u16 where "PN_XNUM = 0xffff"

definition PT_LOAD :: u32 where "PT_LOAD = 1"
definition PT_INTERP :: u32 where "PT_INTERP = 3"
definition PT_PHDR :: u32 where "PT_PHDR = 6"
definition PT_TLS :: u32 where "PT_TLS = 7"
definition PT_GNU_STACK :: u32 where "PT_GNU_STACK = 0x6474e551"
definition PT_GNU_RELRO :: u32 where "PT_GNU_RELRO = 0x6474e552"

definition PF_X :: u32 where "PF_X = 1"
definition PF_W :: u32 where "PF_W = 2"
definition PF_R :: u32 where "PF_R = 4"

text \<open>The target architecture is a compile-time choice of the crate.\<close>

datatype target_arch = Aarch64 | OtherArch

definition EM_NATIVE :: "target_arch \<Rightarrow> u16" where
  "EM_NATIVE arch = (if arch = Aarch64 then EM_AARCH64 else EM_X86_64)"

definition INTERP_MAX :: u64 where "INTERP_MAX = 4096"
definition PHNUM_MAX :: u16 where "PHNUM_MAX = 1024"

lemmas elf_const_defs = EI_NIDENT_def EHDR_SIZE_def PHDR_SIZE_def ELFMAG_def EI_CLASS_def
  EI_DATA_def EI_VERSION_def EI_OSABI_def ELFCLASS64_def ELFDATA2LSB_def EV_CURRENT_def
  ELFOSABI_NONE_def ELFOSABI_GNU_def ELFOSABI_ARM_AEABI_def ET_EXEC_def ET_DYN_def
  EM_X86_64_def EM_AARCH64_def PN_XNUM_def PT_LOAD_def PT_INTERP_def PT_PHDR_def PT_TLS_def
  PT_GNU_STACK_def PT_GNU_RELRO_def PF_X_def PF_W_def PF_R_def EM_NATIVE_def INTERP_MAX_def
  PHNUM_MAX_def

section \<open>Headers\<close>

record Ehdr =
  ident :: bytes
  e_type :: u16
  e_machine :: u16
  e_version :: u32
  e_entry :: u64
  e_phoff :: u64
  e_shoff :: u64
  e_flags :: u32
  e_ehsize :: u16
  e_phentsize :: u16
  e_phnum :: u16
  e_shentsize :: u16
  e_shnum :: u16
  e_shstrndx :: u16

record Phdr =
  p_type :: u32
  p_flags :: u32
  p_offset :: u64
  p_vaddr :: u64
  p_paddr :: u64
  p_filesz :: u64
  p_memsz :: u64
  p_align :: u64

definition is_read :: "Phdr \<Rightarrow> bool" where
  "is_read ph \<longleftrightarrow> p_flags ph AND PF_R \<noteq> 0"

definition is_write :: "Phdr \<Rightarrow> bool" where
  "is_write ph \<longleftrightarrow> p_flags ph AND PF_W \<noteq> 0"

definition is_exec :: "Phdr \<Rightarrow> bool" where
  "is_exec ph \<longleftrightarrow> p_flags ph AND PF_X \<noteq> 0"

definition flag_str :: "Phdr \<Rightarrow> string" where
  "flag_str ph =
     [if is_read ph then CHR ''r'' else CHR ''-'',
      if is_write ph then CHR ''w'' else CHR ''-'',
      if is_exec ph then CHR ''x'' else CHR ''-'']"

definition u16le :: "bytes \<Rightarrow> nat \<Rightarrow> (u16, 'e) result" where
  "u16le b off = rbind (slice b off 2) (\<lambda>v. Ok (from_le_bytes v))"

definition u32le :: "bytes \<Rightarrow> nat \<Rightarrow> (u32, 'e) result" where
  "u32le b off = rbind (slice b off 4) (\<lambda>v. Ok (from_le_bytes v))"

definition u64le :: "bytes \<Rightarrow> nat \<Rightarrow> (u64, 'e) result" where
  "u64le b off = rbind (slice b off 8) (\<lambda>v. Ok (from_le_bytes v))"

text \<open>
  \<open>ImageSource\<close>: \<open>read_exact_at off n\<close> is the content a buffer of \<open>n\<close> bytes is filled with;
  \<open>src_size\<close> is the total size, when known.
\<close>

record image_source =
  read_exact_at :: "u64 \<Rightarrow> nat \<Rightarrow> (bytes, error) result"
  src_size :: "u64 option"

text \<open>
  The source for a byte slice. An offset always fits a 64-bit \<open>usize\<close>, so the conversion cannot
  fail; \<open>off + len\<close> is checked against \<open>usize\<close>.
\<close>

definition slice_source :: "bytes \<Rightarrow> image_source" where
  "slice_source data =
    \<lparr> read_exact_at = (\<lambda>off n.
        if 2 ^ 64 \<le> unat off + n then Err ENOEXEC
        else if length data < unat off + n then Err ENOEXEC
        else Ok (take n (drop (unat off) data))),
      src_size = Some (of_nat (length data)) \<rparr>"

definition Ehdr_parse :: "bytes \<Rightarrow> (Ehdr, error) result" where
  "Ehdr_parse raw =
    (if length raw < EHDR_SIZE then Err ENOEXEC else
     rbind (slice raw 0 EI_NIDENT) (\<lambda>idn.
     rbind (u16le raw 16) (\<lambda>ty.
     rbind (u16le raw 18) (\<lambda>machine.
     rbind (u32le raw 20) (\<lambda>version.
     rbind (u64le raw 24) (\<lambda>entry.
     rbind (u64le raw 32) (\<lambda>phoff.
     rbind (u64le raw 40) (\<lambda>shoff.
     rbind (u32le raw 48) (\<lambda>flags.
     rbind (u16le raw 52) (\<lambda>ehsize.
     rbind (u16le raw 54) (\<lambda>phentsize.
     rbind (u16le raw 56) (\<lambda>phnum.
     rbind (u16le raw 58) (\<lambda>shentsize.
     rbind (u16le raw 60) (\<lambda>shnum.
     rbind (u16le raw 62) (\<lambda>shstrndx.
     Ok \<lparr> ident = idn, e_type = ty, e_machine = machine, e_version = version, e_entry = entry,
          e_phoff = phoff, e_shoff = shoff, e_flags = flags, e_ehsize = ehsize,
          e_phentsize = phentsize, e_phnum = phnum, e_shentsize = shentsize, e_shnum = shnum,
          e_shstrndx = shstrndx \<rparr>)))))))))))))))"

definition Phdr_parse :: "bytes \<Rightarrow> (Phdr, error) result" where
  "Phdr_parse raw =
    (if length raw < PHDR_SIZE then Err ENOEXEC else
     rbind (u32le raw 0) (\<lambda>ty.
     rbind (u32le raw 4) (\<lambda>flags.
     rbind (u64le raw 8) (\<lambda>offset.
     rbind (u64le raw 16) (\<lambda>vaddr.
     rbind (u64le raw 24) (\<lambda>paddr.
     rbind (u64le raw 32) (\<lambda>filesz.
     rbind (u64le raw 40) (\<lambda>memsz.
     rbind (u64le raw 48) (\<lambda>align.
     Ok \<lparr> p_type = ty, p_flags = flags, p_offset = offset, p_vaddr = vaddr, p_paddr = paddr,
          p_filesz = filesz, p_memsz = memsz, p_align = align \<rparr>)))))))))"

section \<open>Rejection\<close>

datatype reject = NotElf | Unsupported string | Malformed string

definition error_of_reject :: "reject \<Rightarrow> error" where
  "error_of_reject r =
    (case r of NotElf \<Rightarrow> ENOEXEC | Malformed _ \<Rightarrow> ENOEXEC | Unsupported _ \<Rightarrow> ENOTSUP)"

definition reject_as_str :: "reject \<Rightarrow> string" where
  "reject_as_str r =
    (case r of
       NotElf \<Rightarrow> ''not an ELF64 little-endian image''
     | Unsupported s \<Rightarrow> s
     | Malformed s \<Rightarrow> s)"

section \<open>Alignment\<close>

definition align_down :: "u64 \<Rightarrow> u64 \<Rightarrow> (u64, 'e) result" where
  "align_down v a = rbind (psub a 1) (\<lambda>m. Ok (v AND NOT m))"

definition align_up :: "u64 \<Rightarrow> u64 \<Rightarrow> (u64 option, 'e) result" where
  "align_up v a = rbind (psub a 1) (\<lambda>m. Ok (map_option (\<lambda>x. x AND NOT m) (checked_add v m)))"

text \<open>\<open>align_up(v, a).ok_or(e)?\<close>\<close>

definition align_up_or :: "u64 \<Rightarrow> u64 \<Rightarrow> 'e \<Rightarrow> (u64, 'e) result" where
  "align_up_or v a e = rbind (align_up v a) (\<lambda>w. ok_or w e)"

section \<open>The image\<close>

record Image =
  ehdr :: Ehdr
  phdrs :: "Phdr list"
  loads :: "nat list"
  interp :: "Phdr option"
  phdr_seg :: "Phdr option"
  tls :: "Phdr option"
  relro :: "Phdr option"
  exec_stack :: bool

definition is_pie :: "Image \<Rightarrow> bool" where
  "is_pie img \<longleftrightarrow> e_type (ehdr img) = ET_DYN"

definition needs_interp :: "Image \<Rightarrow> bool" where
  "needs_interp img \<longleftrightarrow> interp img \<noteq> None"

definition validate_load :: "Phdr \<Rightarrow> u64 \<Rightarrow> u64 option \<Rightarrow> (unit, reject) result" where
  "validate_load ph page_size file_size =
    rbind (guard (p_memsz ph < p_filesz ph) (Malformed ''PT_LOAD filesz exceeds memsz'')) (\<lambda>_.
    rbind (guard (p_align ph \<noteq> 0 \<and> \<not> is_power_of_two (p_align ph))
             (Malformed ''PT_LOAD alignment is not a power of two'')) (\<lambda>_.
    rbind (guard (page_size < p_align ph \<and> \<not> is_power_of_two (p_align ph))
             (Malformed ''PT_LOAD alignment is not a power of two'')) (\<lambda>_.
    rbind (ok_or (checked_add (p_vaddr ph) (p_memsz ph))
             (Malformed ''PT_LOAD vaddr+memsz overflows'')) (\<lambda>_.
    rbind (ok_or (checked_add (p_offset ph) (p_filesz ph))
             (Malformed ''PT_LOAD offset+filesz overflows'')) (\<lambda>file_end.
    rbind (case file_size of
             Some sz \<Rightarrow> guard (sz < file_end) (Malformed ''PT_LOAD extends past end of file'')
           | None \<Rightarrow> Ok ()) (\<lambda>_.
    if p_filesz ph = 0 then Ok ()
    else rbind (psub page_size 1) (\<lambda>m.
         guard (p_vaddr ph AND m \<noteq> p_offset ph AND m)
           (Malformed ''PT_LOAD vaddr and offset are not page-congruent''))))))))"

text \<open>The identification checks, up to the program header table.\<close>

definition check_ident :: "target_arch \<Rightarrow> Ehdr \<Rightarrow> (unit, reject) result" where
  "check_ident arch eh =
    rbind (slice (ident eh) 0 4) (\<lambda>mag.
    rbind (index_at (ident eh) EI_CLASS) (\<lambda>cls.
    rbind (index_at (ident eh) EI_DATA) (\<lambda>dat.
    rbind (index_at (ident eh) EI_VERSION) (\<lambda>ver.
    rbind (guard (mag \<noteq> ELFMAG \<or> cls \<noteq> ELFCLASS64 \<or> dat \<noteq> ELFDATA2LSB \<or> ver \<noteq> EV_CURRENT)
             NotElf) (\<lambda>_.
    rbind (index_at (ident eh) EI_OSABI) (\<lambda>abi.
    rbind (guard (abi \<notin> {ELFOSABI_NONE, ELFOSABI_GNU, ELFOSABI_ARM_AEABI})
             (Unsupported ''unsupported ELF OS ABI'')) (\<lambda>_.
    rbind (guard (e_machine eh \<noteq> EM_NATIVE arch)
             (Unsupported ''ELF machine type mismatch'')) (\<lambda>_.
    rbind (guard (e_type eh \<noteq> ET_DYN \<and> e_type eh \<noteq> ET_EXEC)
             (Unsupported ''ELF is neither ET_DYN nor ET_EXEC'')) (\<lambda>_.
    guard (e_version eh \<noteq> 1) (Malformed ''unsupported ELF version''))))))))))"

definition check_phtab :: "Ehdr \<Rightarrow> u64 option \<Rightarrow> (unit, reject) result" where
  "check_phtab eh fsize =
    rbind (guard (e_phnum eh = PN_XNUM) (Unsupported ''PN_XNUM program header count'')) (\<lambda>_.
    rbind (guard (e_phnum eh = 0) (Malformed ''no program headers'')) (\<lambda>_.
    rbind (guard (PHNUM_MAX < e_phnum eh) (Malformed ''implausible program header count'')) (\<lambda>_.
    rbind (guard (unat (e_phentsize eh) < PHDR_SIZE)
             (Malformed ''program header entry too small'')) (\<lambda>_.
    rbind (ok_or (checked_mul (ucast (e_phnum eh)) (ucast (e_phentsize eh)))
             (Malformed ''program header table overflows'')) (\<lambda>phtab_len.
    rbind (ok_or (checked_add (e_phoff eh) phtab_len)
             (Malformed ''program header table overflows'')) (\<lambda>phtab_end.
    case fsize of
      Some sz \<Rightarrow> guard (sz < phtab_end) (Malformed ''program header table past end of file'')
    | None \<Rightarrow> Ok ()))))))"

text \<open>The loop that reads the table: entry \<open>i\<close> of \<open>0..phnum\<close>.\<close>

primrec read_phdrs ::
  "image_source \<Rightarrow> u64 \<Rightarrow> u64 \<Rightarrow> u64 list \<Rightarrow> (Phdr list, reject) result" where
  "read_phdrs src phoff phentsize [] = Ok []"
| "read_phdrs src phoff phentsize (i # is) =
     rbind (pmul i phentsize) (\<lambda>delta.
     rbind (padd phoff delta) (\<lambda>off.
     rbind (map_err (\<lambda>_. Malformed ''truncated program header table'')
              (read_exact_at src off PHDR_SIZE)) (\<lambda>ent.
     rbind (map_err (\<lambda>_. Malformed ''bad program header'') (Phdr_parse ent)) (\<lambda>ph.
     rbind (read_phdrs src phoff phentsize is) (\<lambda>phs.
     Ok (ph # phs))))))"

text \<open>The classification loop: its mutable variables, its body, the loop over \<open>phdrs\<close>.\<close>

record classified =
  cl_loads :: "nat list"
  cl_interp :: "Phdr option"
  cl_phdr_seg :: "Phdr option"
  cl_tls :: "Phdr option"
  cl_relro :: "Phdr option"
  cl_exec_stack :: bool

definition classify_init :: classified where
  "classify_init = \<lparr> cl_loads = [], cl_interp = None, cl_phdr_seg = None, cl_tls = None,
     cl_relro = None, cl_exec_stack = False \<rparr>"

definition check_interp :: "Phdr \<Rightarrow> u64 option \<Rightarrow> (unit, reject) result" where
  "check_interp ph fsize =
    rbind (guard (p_filesz ph = 0 \<or> INTERP_MAX < p_filesz ph)
             (Malformed ''implausible PT_INTERP length'')) (\<lambda>_.
    case fsize of
      None \<Rightarrow> Ok ()
    | Some sz \<Rightarrow>
        rbind (ok_or (checked_add (p_offset ph) (p_filesz ph))
                 (Malformed ''PT_INTERP overflows'')) (\<lambda>end_off.
        guard (sz < end_off) (Malformed ''PT_INTERP past end of file'')))"

definition classify_step ::
  "u64 \<Rightarrow> u64 option \<Rightarrow> nat \<Rightarrow> Phdr \<Rightarrow> classified \<Rightarrow> (classified, reject) result" where
  "classify_step page_size fsize i ph c =
    (if p_type ph = PT_LOAD then
       rbind (validate_load ph page_size fsize) (\<lambda>_.
       Ok (c\<lparr> cl_loads := cl_loads c @ [i] \<rparr>))
     else if p_type ph = PT_INTERP then
       rbind (guard (cl_interp c \<noteq> None) (Unsupported ''multiple PT_INTERP'')) (\<lambda>_.
       rbind (check_interp ph fsize) (\<lambda>_.
       Ok (c\<lparr> cl_interp := Some ph \<rparr>)))
     else if p_type ph = PT_PHDR then Ok (c\<lparr> cl_phdr_seg := Some ph \<rparr>)
     else if p_type ph = PT_TLS then Ok (c\<lparr> cl_tls := Some ph \<rparr>)
     else if p_type ph = PT_GNU_RELRO then Ok (c\<lparr> cl_relro := Some ph \<rparr>)
     else if p_type ph = PT_GNU_STACK then Ok (c\<lparr> cl_exec_stack := is_exec ph \<rparr>)
     else Ok c)"

primrec classify ::
  "u64 \<Rightarrow> u64 option \<Rightarrow> (nat \<times> Phdr) list \<Rightarrow> classified \<Rightarrow> (classified, reject) result" where
  "classify page_size fsize [] c = Ok c"
| "classify page_size fsize (e # es) c =
     rbind (classify_step page_size fsize (fst e) (snd e) c) (classify page_size fsize es)"

text \<open>The overlap check on each \<open>loads.windows(2)\<close>.\<close>

definition check_overlap :: "u64 \<Rightarrow> Phdr \<Rightarrow> Phdr \<Rightarrow> (unit, reject) result" where
  "check_overlap page_size a b =
    rbind (padd (p_vaddr a) (p_memsz a)) (\<lambda>e.
    rbind (align_up_or e page_size (Malformed ''segment end overflows'')) (\<lambda>a_end.
    rbind (align_down (p_vaddr b) page_size) (\<lambda>b_page.
    rbind (align_down a_end page_size) (\<lambda>a_page.
    guard (p_vaddr b < a_end \<and> b_page < a_page) (Malformed ''overlapping PT_LOAD segments'')))))"

fun check_overlaps :: "u64 \<Rightarrow> Phdr list \<Rightarrow> nat list \<Rightarrow> (unit, reject) result" where
  "check_overlaps page_size phs (i # j # is) =
     rbind (index_at phs i) (\<lambda>a.
     rbind (index_at phs j) (\<lambda>b.
     rbind (check_overlap page_size a b) (\<lambda>_.
     check_overlaps page_size phs (j # is))))"
| "check_overlaps page_size phs is = Ok ()"

definition Image_parse ::
  "target_arch \<Rightarrow> heap \<Rightarrow> image_source \<Rightarrow> u64 \<Rightarrow> (Image, reject) result" where
  "Image_parse arch heap src page_size =
    rbind (map_err (\<lambda>_. NotElf) (read_exact_at src 0 EHDR_SIZE)) (\<lambda>raw.
    rbind (map_err (\<lambda>_. NotElf) (Ehdr_parse raw)) (\<lambda>eh.
    rbind (check_ident arch eh) (\<lambda>_.
    rbind (check_phtab eh (src_size src)) (\<lambda>_.
    rbind (guard (\<not> heap AllocPhdrs (unat (e_phnum eh)))
             (Malformed ''out of memory reading program headers'')) (\<lambda>_.
    rbind (read_phdrs src (e_phoff eh) (ucast (e_phentsize eh))
             (map of_nat [0..<unat (e_phnum eh)])) (\<lambda>phs.
    rbind (classify page_size (src_size src) (enumerate 0 phs) classify_init) (\<lambda>c.
    rbind (guard (cl_loads c = []) (Malformed ''no PT_LOAD segments'')) (\<lambda>_.
    let lds = sort_key (\<lambda>i. p_vaddr (phs ! i)) (cl_loads c) in
    rbind (check_overlaps page_size phs lds) (\<lambda>_.
    Ok \<lparr> ehdr = eh, phdrs = phs, loads = lds, interp = cl_interp c, phdr_seg = cl_phdr_seg c,
         tls = cl_tls c, relro = cl_relro c, exec_stack = cl_exec_stack c \<rparr>)))))))))"

section \<open>Queries\<close>

text \<open>The index of the first byte that is zero, as \<open>Iterator::position\<close> finds it.\<close>

primrec position :: "('a \<Rightarrow> bool) \<Rightarrow> 'a list \<Rightarrow> nat option" where
  "position P [] = None"
| "position P (x # xs) = (if P x then Some 0 else map_option Suc (position P xs))"

definition interp_path :: "heap \<Rightarrow> Image \<Rightarrow> image_source \<Rightarrow> (bytes, error) result" where
  "interp_path heap img src =
    rbind (ok_or (interp img) EINVAL) (\<lambda>ph.
    let len = unat (p_filesz ph) in
    rbind (guard (\<not> heap AllocInterp len) ENOMEM) (\<lambda>_.
    rbind (read_exact_at src (p_offset ph) len) (\<lambda>buf.
    case position (\<lambda>b. b = 0) buf of
      Some n \<Rightarrow> if n = 0 then Err ENOEXEC else Ok (take n buf)
    | None \<Rightarrow> Err ENOEXEC)))"

definition va_span :: "Image \<Rightarrow> u64 \<Rightarrow> (u64 \<times> u64, error) result" where
  "va_span img page_size =
    rbind (index_at (loads img) 0) (\<lambda>i.
    rbind (index_at (phdrs img) i) (\<lambda>fst_ph.
    if loads img = [] then Panic else
    rbind (index_at (phdrs img) (last (loads img))) (\<lambda>last_ph.
    rbind (align_down (p_vaddr fst_ph) page_size) (\<lambda>lo.
    rbind (padd (p_vaddr last_ph) (p_memsz last_ph)) (\<lambda>e.
    rbind (align_up_or e page_size ENOEXEC) (\<lambda>hi.
    Ok (lo, hi)))))))"

text \<open>The loop of \<open>load_align\<close>, over the segments still to visit.\<close>

primrec load_align_from :: "Phdr list \<Rightarrow> nat list \<Rightarrow> u64 \<Rightarrow> (u64, error) result" where
  "load_align_from phs [] a = Ok a"
| "load_align_from phs (i # is) a =
     rbind (index_at phs i) (\<lambda>ph.
     load_align_from phs is
       (if a < p_align ph \<and> is_power_of_two (p_align ph) then p_align ph else a))"

definition load_align :: "Image \<Rightarrow> u64 \<Rightarrow> (u64, error) result" where
  "load_align img page_size = load_align_from (phdrs img) (loads img) page_size"

end
