(* ===== verification/Layout.thy ===== *)
theory Layout
  imports Elf
begin

text \<open>
  The planner of \<open>rust/src/layout.rs\<close>: protection bits, the pieces of a segment (file-backed
  pages, the tail to clear, anonymous pages), the size of the reservation, the plan itself, and
  the queries on a plan. Every unchecked \<open>+\<close> and \<open>-\<close> of the source is a panicking operation
  here. The lemmas about these definitions are in the theory \<open>Layout_Facts\<close>.
\<close>

section \<open>Protection bits\<close>

definition PROT_NONE :: u32 where "PROT_NONE = 0"
definition PROT_READ :: u32 where "PROT_READ = 1"
definition PROT_WRITE :: u32 where "PROT_WRITE = 2"
definition PROT_EXEC :: u32 where "PROT_EXEC = 4"

definition MAX_SEG_ALIGN :: u64 where "MAX_SEG_ALIGN = 2 * 1024 * 1024"

lemmas prot_defs = PROT_NONE_def PROT_READ_def PROT_WRITE_def PROT_EXEC_def

definition prot_of :: "Phdr \<Rightarrow> u32" where
  "prot_of ph =
    (let p = PROT_NONE;
         p = (if is_read ph then p OR PROT_READ else p);
         p = (if is_write ph then p OR PROT_WRITE else p);
         p = (if is_exec ph then p OR PROT_EXEC else p)
     in p)"

section \<open>Plans\<close>

record FileMap =
  fm_addr :: u64
  fm_len :: u64
  fm_off :: u64

record AnonMap =
  am_addr :: u64
  am_len :: u64

record SegmentPlan =
  idx :: nat
  file_map :: "FileMap option"
  zero_map :: "AnonMap option"
  anon_map :: "AnonMap option"
  prot :: u32
  needs_write_window :: bool

definition seg_range :: "SegmentPlan \<Rightarrow> (u64 \<times> u64, error) result" where
  "seg_range seg =
    (let start = (case file_map seg of
                    Some f \<Rightarrow> fm_addr f
                  | None \<Rightarrow> (case anon_map seg of Some a \<Rightarrow> am_addr a | None \<Rightarrow> 0))
     in rbind (case anon_map seg of
                 Some a \<Rightarrow> padd (am_addr a) (am_len a)
               | None \<Rightarrow> (case file_map seg of
                           Some f \<Rightarrow> padd (fm_addr f) (fm_len f)
                         | None \<Rightarrow> Ok start)) (\<lambda>end_at.
        Ok (start, end_at)))"

record LoadPlan =
  bias :: u64
  reserve_addr :: u64
  reserve_len :: u64
  base :: u64
  end_addr :: u64
  align :: u64
  segments :: "SegmentPlan list"
  entry :: u64

datatype Placement = Fixed | At u64

definition seg_align :: "Image \<Rightarrow> u64 \<Rightarrow> (u64, error) result" where
  "seg_align img page_size =
    rbind (load_align img page_size) (\<lambda>a. Ok (max (min a MAX_SEG_ALIGN) page_size))"

definition reservation_len :: "Image \<Rightarrow> u64 \<Rightarrow> (u64, error) result" where
  "reservation_len img page_size =
    rbind (va_span img page_size) (\<lambda>(lo, hi).
    rbind (seg_align img page_size) (\<lambda>al.
    case checked_sub hi lo of
      None \<Rightarrow> Err ENOEXEC
    | Some span \<Rightarrow>
        rbind (psub al page_size) (\<lambda>slack.
        ok_or (checked_add span slack) ENOEXEC)))"

text \<open>The body of the loop over the loadable segments.\<close>

definition plan_segment :: "u64 \<Rightarrow> u64 \<Rightarrow> nat \<Rightarrow> Phdr \<Rightarrow> (SegmentPlan, error) result" where
  "plan_segment page_size bias_by i ph =
    rbind (ok_or (checked_add (p_vaddr ph) bias_by) ENOMEM) (\<lambda>vaddr.
    rbind (align_down vaddr page_size) (\<lambda>mstart.
    rbind (psub vaddr mstart) (\<lambda>fdelta.
    rbind (padd vaddr (p_memsz ph)) (\<lambda>mend.
    rbind (align_up_or mend page_size ENOMEM) (\<lambda>mem_end.
    rbind
      (if 0 < p_filesz ph then
         rbind (padd vaddr (p_filesz ph)) (\<lambda>fend.
         rbind (align_up_or fend page_size ENOMEM) (\<lambda>fmap_end.
         rbind (psub fmap_end mstart) (\<lambda>flen.
         rbind (psub (p_offset ph) fdelta) (\<lambda>foff.
         rbind
           (if fend < fmap_end then
              rbind (psub fmap_end fend) (\<lambda>zlen. Ok (Some \<lparr> am_addr = fend, am_len = zlen \<rparr>))
            else Ok None) (\<lambda>z.
         Ok (Some \<lparr> fm_addr = mstart, fm_len = flen, fm_off = foff \<rparr>, z, fmap_end))))))
       else Ok (None, None, mstart)) (\<lambda>(fil, zer, file_end).
    rbind
      (if file_end < mem_end then
         rbind (psub mem_end file_end) (\<lambda>alen.
         Ok (Some \<lparr> am_addr = file_end, am_len = alen \<rparr>))
       else Ok None) (\<lambda>ano.
    Ok \<lparr> idx = i, file_map = fil, zero_map = zer, anon_map = ano, prot = prot_of ph,
         needs_write_window = (zer \<noteq> None \<and> prot_of ph AND PROT_WRITE = 0) \<rparr>)))))))"

primrec plan_segments ::
  "u64 \<Rightarrow> u64 \<Rightarrow> Phdr list \<Rightarrow> nat list \<Rightarrow> (SegmentPlan list, error) result" where
  "plan_segments page_size bias_by phs [] = Ok []"
| "plan_segments page_size bias_by phs (i # is) =
     rbind (index_at phs i) (\<lambda>ph.
     rbind (plan_segment page_size bias_by i ph) (\<lambda>seg.
     rbind (plan_segments page_size bias_by phs is) (\<lambda>segs.
     Ok (seg # segs))))"

definition plan :: "heap \<Rightarrow> Image \<Rightarrow> u64 \<Rightarrow> Placement \<Rightarrow> (LoadPlan, error) result" where
  "plan heap img page_size placement =
    rbind (va_span img page_size) (\<lambda>(va_lo, va_hi).
    rbind (seg_align img page_size) (\<lambda>al.
    rbind (psub va_hi va_lo) (\<lambda>span.
    rbind
      (case placement of
         Fixed \<Rightarrow> Ok (0, va_lo, span)
       | At raw \<Rightarrow>
           rbind (align_up_or raw al ENOMEM) (\<lambda>b.
           rbind (ok_or (checked_sub b va_lo) ENOMEM) (\<lambda>bi.
           rbind (psub al page_size) (\<lambda>slack.
           rbind (padd span slack) (\<lambda>rlen.
           Ok (bi, raw, rlen)))))) (\<lambda>(bias_by, res_addr, res_len).
    rbind (padd va_lo bias_by) (\<lambda>base_at.
    rbind (padd va_hi bias_by) (\<lambda>end_at.
    rbind (guard (\<not> heap AllocSegments (length (loads img))) ENOMEM) (\<lambda>_.
    rbind (plan_segments page_size bias_by (phdrs img) (loads img)) (\<lambda>segs.
    rbind (ok_or (checked_add (e_entry (ehdr img)) bias_by) ENOMEM) (\<lambda>entry_at.
    Ok \<lparr> bias = bias_by, reserve_addr = res_addr, reserve_len = res_len, base = base_at,
         end_addr = end_at, align = al, segments = segs, entry = entry_at \<rparr>)))))))))"

section \<open>Queries\<close>

definition covers :: "LoadPlan \<Rightarrow> u64 \<Rightarrow> bool" where
  "covers p addr \<longleftrightarrow> base p \<le> addr \<and> addr < end_addr p"

text \<open>The loop of \<open>phdr_addr\<close>; every \<open>?\<close> in it leaves the function with \<open>None\<close>.\<close>

primrec phdr_addr_in :: "u64 \<Rightarrow> u64 \<Rightarrow> Phdr list \<Rightarrow> nat list \<Rightarrow> (u64 option, error) result" where
  "phdr_addr_in bias_by phoff phs [] = Ok None"
| "phdr_addr_in bias_by phoff phs (i # is) =
     rbind (index_at phs i) (\<lambda>l.
     if p_offset l \<le> phoff then
       (case checked_add (p_offset l) (p_filesz l) of
          None \<Rightarrow> Ok None
        | Some e \<Rightarrow>
            if phoff < e then
              (case checked_add (phoff - p_offset l) (p_vaddr l) of
                 None \<Rightarrow> Ok None
               | Some a \<Rightarrow> Ok (checked_add a bias_by))
            else phdr_addr_in bias_by phoff phs is)
     else phdr_addr_in bias_by phoff phs is)"

definition phdr_addr :: "LoadPlan \<Rightarrow> Image \<Rightarrow> (u64 option, error) result" where
  "phdr_addr p img =
    (let fallback = phdr_addr_in (bias p) (e_phoff (ehdr img)) (phdrs img) (loads img) in
     case phdr_seg img of
       None \<Rightarrow> fallback
     | Some ph \<Rightarrow>
         (case checked_add (p_vaddr ph) (bias p) of
            None \<Rightarrow> Ok None
          | Some addr \<Rightarrow> if covers p addr then Ok (Some addr) else fallback))"

primrec exec_ranges_of ::
  "Phdr list \<Rightarrow> SegmentPlan list \<Rightarrow> ((u64 \<times> u64) list, error) result" where
  "exec_ranges_of phs [] = Ok []"
| "exec_ranges_of phs (s # ss) =
     rbind (index_at phs (idx s)) (\<lambda>ph.
     if is_exec ph then
       rbind (seg_range s) (\<lambda>(a, b).
       rbind (psub b a) (\<lambda>n.
       rbind (exec_ranges_of phs ss) (\<lambda>rs.
       Ok ((a, n) # rs))))
     else exec_ranges_of phs ss)"

definition exec_ranges :: "LoadPlan \<Rightarrow> Image \<Rightarrow> ((u64 \<times> u64) list, error) result" where
  "exec_ranges p img = exec_ranges_of (phdrs img) (segments p)"

end
