(* ===== verification/Loader.thy ===== *)
theory Loader
  imports Layout
begin

text \<open>
  Executing a plan against an address space, \<open>rust/src/loader.rs\<close>. The \<open>Vm\<close> trait is a record of
  its operations over an arbitrary state: \<open>page_size\<close> and \<open>can_map_files\<close> are constants of an
  implementation, the others are actions. The name of the image and the messages only feed the
  log and are left out, but an argument of a message that can panic (\<open>range\<close>) is kept.
  \<open>debug_assert!\<close> is compiled out of the release build and has no counterpart.
\<close>

section \<open>The address space\<close>

datatype Where = Anywhere | Hint u64 | Exact u64

datatype MapSrc = Anon | File i32 u64

record 's Vm =
  vm_page_size :: u64
  vm_map :: "Where \<Rightarrow> u64 \<Rightarrow> u32 \<Rightarrow> MapSrc \<Rightarrow> ('s, u64, error) action"
  vm_unmap :: "u64 \<Rightarrow> u64 \<Rightarrow> ('s, unit, error) action"
  vm_protect :: "u64 \<Rightarrow> u64 \<Rightarrow> u32 \<Rightarrow> ('s, unit, error) action"
  vm_write :: "u64 \<Rightarrow> bytes \<Rightarrow> ('s, unit, error) action"
  vm_zero :: "u64 \<Rightarrow> u64 \<Rightarrow> ('s, unit, error) action"
  vm_icache_sync :: "u64 \<Rightarrow> u64 \<Rightarrow> ('s, unit, error) action"
  vm_can_map_files :: bool
  vm_alloc_aligned :: "u64 \<Rightarrow> u64 \<Rightarrow> ('s, u64, error) action"
  vm_free_aligned :: "u64 \<Rightarrow> u64 \<Rightarrow> ('s, unit, error) action"

section \<open>Loaded images\<close>

record Loaded =
  ld_plan :: LoadPlan
  allocated :: bool

text \<open>A failure to unmap is only logged.\<close>

definition unload :: "'s Vm \<Rightarrow> Loaded \<Rightarrow> ('s, unit, error) action" where
  "unload vm l =
    (if allocated l
     then vm_free_aligned vm (reserve_addr (ld_plan l)) (reserve_len (ld_plan l))
     else sdiscard (vm_unmap vm (reserve_addr (ld_plan l)) (reserve_len (ld_plan l))))"

definition COPY_CHUNK :: u64 where "COPY_CHUNK = 64 * 1024"

definition RW :: u32 where "RW = PROT_READ OR PROT_WRITE"

section \<open>The mapping path\<close>

text \<open>The body of the first loop of \<open>fill_mapped\<close>, then its second loop, then both.\<close>

definition fill_mapped_segment :: "'s Vm \<Rightarrow> Image \<Rightarrow> i32 \<Rightarrow> SegmentPlan \<Rightarrow> ('s, unit, error) action"
  where
  "fill_mapped_segment vm img fd seg =
    sbind (slift (index_at (phdrs img) (idx seg))) (\<lambda>ph.
    sbind (slift (seg_range seg)) (\<lambda>_.
    sbind
      (case file_map seg of
         None \<Rightarrow> sret ()
       | Some fm \<Rightarrow>
           sbind (vm_map vm (Exact (fm_addr fm)) (fm_len fm)
             (if needs_write_window seg then prot seg OR PROT_WRITE else prot seg)
             (File fd (fm_off fm))) (\<lambda>got. sret ())) (\<lambda>_.
    sbind (case zero_map seg of None \<Rightarrow> sret () | Some z \<Rightarrow> vm_zero vm (am_addr z) (am_len z)) (\<lambda>_.
    sbind
      (case anon_map seg of
         None \<Rightarrow> sret ()
       | Some a \<Rightarrow>
           sbind (vm_map vm (Exact (am_addr a)) (am_len a) (prot seg) Anon) (\<lambda>got. sret ())) (\<lambda>_.
    if needs_write_window seg then
      sbind (slift (seg_range seg)) (\<lambda>(s, e).
      sbind (slift (psub e s)) (\<lambda>n.
      vm_protect vm s n (prot seg)))
    else sret ())))))"

definition sync_zeroed :: "'s Vm \<Rightarrow> Image \<Rightarrow> SegmentPlan \<Rightarrow> ('s, unit, error) action" where
  "sync_zeroed vm img seg =
    sbind (slift (index_at (phdrs img) (idx seg))) (\<lambda>ph.
    if is_exec ph then
      (case zero_map seg of None \<Rightarrow> sret () | Some z \<Rightarrow> vm_icache_sync vm (am_addr z) (am_len z))
    else sret ())"

definition fill_mapped :: "'s Vm \<Rightarrow> Image \<Rightarrow> i32 \<Rightarrow> LoadPlan \<Rightarrow> ('s, unit, error) action" where
  "fill_mapped vm img fd p =
    sbind (sfor (fill_mapped_segment vm img fd) (segments p)) (\<lambda>_.
    sfor (sync_zeroed vm img) (segments p))"

definition load_mapped ::
  "'s Vm \<Rightarrow> heap \<Rightarrow> Image \<Rightarrow> i32 \<Rightarrow> u64 \<Rightarrow> ('s, Loaded, error) action" where
  "load_mapped vm heap img fd page =
    sbind (slift (va_span img page)) (\<lambda>(va_lo, _).
    sbind (slift (reservation_len img page)) (\<lambda>need.
    sbind
      (if e_type (ehdr img) = ET_DYN then
         sbind (vm_map vm Anywhere need PROT_NONE Anon) (\<lambda>raw. sret (At raw))
       else
         sbind (slift (va_span img page)) (\<lambda>(_, va_hi).
         sbind (slift (psub va_hi va_lo)) (\<lambda>span.
         sbind (vm_map vm (Hint va_lo) span PROT_NONE Anon) (\<lambda>got.
         if got \<noteq> va_lo then
           sbind (sdiscard (vm_unmap vm got span)) (\<lambda>_. slift (Err ENOMEM))
         else sret Fixed)))) (\<lambda>placement.
    sbind (slift (plan heap img page placement)) (\<lambda>p.
    let loaded = \<lparr> ld_plan = p, allocated = False \<rparr> in
    sbind (son_err (fill_mapped vm img fd (ld_plan loaded)) (unload vm loaded)) (\<lambda>_.
    sret loaded)))))"

section \<open>The copying path\<close>

text \<open>
  The \<open>while\<close> loop that copies the file data of a segment. Its last addition cannot overflow:
  \<open>n\<close> is at most what is left.
\<close>

function copy_file ::
  "'s Vm \<Rightarrow> image_source \<Rightarrow> Phdr \<Rightarrow> u64 \<Rightarrow> u64 \<Rightarrow> ('s, unit, error) action" where
  "copy_file vm src ph vaddr copied =
    (if copied < p_filesz ph then
       let n = min COPY_CHUNK (p_filesz ph - copied) in
       sbind (slift (padd (p_offset ph) copied)) (\<lambda>off.
       sbind (slift (read_exact_at src off (unat n))) (\<lambda>buf.
       sbind (slift (padd vaddr copied)) (\<lambda>addr.
       sbind (vm_write vm addr buf) (\<lambda>_.
       copy_file vm src ph vaddr (copied + n)))))
     else sret ())"
  by pat_completeness auto

text \<open>What is left to copy decreases, and a step never overflows.\<close>

lemma copy_step:
  assumes "copied < fs" and "n = min COPY_CHUNK (fs - copied)"
  shows "unat (copied + n) = unat copied + unat n" and "0 < unat n" and "unat copied + unat n \<le> unat fs"
proof -
  have le: "unat n \<le> unat fs - unat copied" and pos: "0 < unat n"
    using assms by (auto simp: min_def word_le_nat_alt word_less_nat_alt unat_sub_ok COPY_CHUNK_def)
  with assms(1) show "0 < unat n" "unat copied + unat n \<le> unat fs"
    by (simp_all add: word_less_nat_alt)
  from le_unat_lt [OF this(2)] show "unat (copied + n) = unat copied + unat n"
    by (intro unat_add_ok) simp
qed

termination copy_file
proof (relation "measure (\<lambda>(vm, src, ph, vaddr, copied). unat (p_filesz ph) - unat copied)", goal_cases)
  case (2 vm src ph vaddr copied n)
  with copy_step [of copied "p_filesz ph" n] show ?case by (simp add: word_less_nat_alt)
qed simp

declare copy_file.simps [simp del]

definition fill_copied_segment ::
  "'s Vm \<Rightarrow> Image \<Rightarrow> image_source \<Rightarrow> LoadPlan \<Rightarrow> SegmentPlan \<Rightarrow> ('s, unit, error) action" where
  "fill_copied_segment vm img src p seg =
    sbind (slift (index_at (phdrs img) (idx seg))) (\<lambda>ph.
    sbind (slift (padd (p_vaddr ph) (bias p))) (\<lambda>vaddr.
    sbind (copy_file vm src ph vaddr 0) (\<lambda>_.
    sbind (slift (padd vaddr (p_memsz ph))) (\<lambda>mend.
    sbind (slift (align_up_or mend (vm_page_size vm) ENOMEM)) (\<lambda>mem_end.
    sbind (slift (padd vaddr (p_filesz ph))) (\<lambda>zstart.
    if zstart < mem_end then
      sbind (slift (psub mem_end zstart)) (\<lambda>n. vm_zero vm zstart n)
    else sret ()))))))"

text \<open>A protection that cannot be set is only logged.\<close>

definition protect_segment :: "'s Vm \<Rightarrow> SegmentPlan \<Rightarrow> ('s, unit, error) action" where
  "protect_segment vm seg =
    sbind (slift (seg_range seg)) (\<lambda>(s, e).
    sbind (slift (psub e s)) (\<lambda>n.
    sdiscard (vm_protect vm s n (prot seg))))"

definition fill_copied ::
  "'s Vm \<Rightarrow> heap \<Rightarrow> Image \<Rightarrow> image_source \<Rightarrow> LoadPlan \<Rightarrow> ('s, unit, error) action" where
  "fill_copied vm heap img src p =
    sbind (slift (guard (\<not> heap AllocCopyBuf (unat COPY_CHUNK)) ENOMEM)) (\<lambda>_.
    sbind (sfor (fill_copied_segment vm img src p) (segments p)) (\<lambda>_.
    sbind (slift (exec_ranges p img)) (\<lambda>ranges.
    sbind (sfor (\<lambda>(addr, len). vm_icache_sync vm addr len) ranges) (\<lambda>_.
    sfor (protect_segment vm) (segments p)))))"

definition load_copied ::
  "'s Vm \<Rightarrow> heap \<Rightarrow> Image \<Rightarrow> image_source \<Rightarrow> u64 \<Rightarrow> ('s, Loaded, error) action" where
  "load_copied vm heap img src page =
    (if e_type (ehdr img) \<noteq> ET_DYN then slift (Err ENOTSUP) else
     sbind (slift (reservation_len img page)) (\<lambda>need.
     sbind (slift (seg_align img page)) (\<lambda>al.
     sbind (vm_alloc_aligned vm al need) (\<lambda>raw.
     sbind (slift (plan heap img page (At raw))) (\<lambda>p.
     let loaded = \<lparr> ld_plan = p, allocated = True \<rparr> in
     sbind (son_err (fill_copied vm heap img src (ld_plan loaded)) (unload vm loaded)) (\<lambda>_.
     sret loaded))))))"

section \<open>Entry points\<close>

definition load_image ::
  "'s Vm \<Rightarrow> heap \<Rightarrow> Image \<Rightarrow> image_source \<Rightarrow> i32 option \<Rightarrow> ('s, Loaded, error) action" where
  "load_image vm heap img src fd =
    (let page = vm_page_size vm in
     case fd of
       Some d \<Rightarrow>
         if vm_can_map_files vm then load_mapped vm heap img d page
         else load_copied vm heap img src page
     | None \<Rightarrow> load_copied vm heap img src page)"

primrec any_executable_at :: "u64 \<Rightarrow> SegmentPlan list \<Rightarrow> (bool, error) result" where
  "any_executable_at en [] = Ok False"
| "any_executable_at en (s # ss) =
     rbind (seg_range s) (\<lambda>(a, b).
     if prot s AND PROT_EXEC \<noteq> 0 \<and> a \<le> en \<and> en < b then Ok True else any_executable_at en ss)"

definition entry_is_executable :: "Image \<Rightarrow> LoadPlan \<Rightarrow> (bool, error) result" where
  "entry_is_executable img p =
    rbind (any_executable_at (entry p) (segments p)) (\<lambda>b. Ok (b \<and> loads img \<noteq> []))"

definition check_stack_request :: "Image \<Rightarrow> (unit, error) result" where
  "check_stack_request img = (if exec_stack img then Err ENOTSUP else Ok ())"

end
