(* ===== verification/Auxv.thy ===== *)
theory Auxv
  imports Elf
begin

text \<open>
  The initial process stack, \<open>rust/src/auxv.rs\<close>: the size policy for arguments and environment,
  the \<open>Pusher\<close> that lays strings out downwards, and \<open>build_stack\<close>. The \<open>StackWriter\<close> trait is a
  record of its operations over an arbitrary state. The length of a slice is a natural number; where
  the source adds lengths in \<open>usize\<close> the bound is written out. The lemmas about these definitions
  are in the theory \<open>Stack_Facts\<close>.
\<close>

section \<open>Constants\<close>

definition AT_NULL :: u64 where "AT_NULL = 0"
definition AT_PHDR :: u64 where "AT_PHDR = 3"
definition AT_PHENT :: u64 where "AT_PHENT = 4"
definition AT_PHNUM :: u64 where "AT_PHNUM = 5"
definition AT_PAGESZ :: u64 where "AT_PAGESZ = 6"
definition AT_BASE :: u64 where "AT_BASE = 7"
definition AT_FLAGS :: u64 where "AT_FLAGS = 8"
definition AT_ENTRY :: u64 where "AT_ENTRY = 9"
definition AT_UID :: u64 where "AT_UID = 11"
definition AT_EUID :: u64 where "AT_EUID = 12"
definition AT_GID :: u64 where "AT_GID = 13"
definition AT_EGID :: u64 where "AT_EGID = 14"
definition AT_PLATFORM :: u64 where "AT_PLATFORM = 15"
definition AT_HWCAP :: u64 where "AT_HWCAP = 16"
definition AT_CLKTCK :: u64 where "AT_CLKTCK = 17"
definition AT_SECURE :: u64 where "AT_SECURE = 23"
definition AT_RANDOM :: u64 where "AT_RANDOM = 25"
definition AT_HWCAP2 :: u64 where "AT_HWCAP2 = 26"
definition AT_EXECFN :: u64 where "AT_EXECFN = 31"
definition AT_SYSINFO_EHDR :: u64 where "AT_SYSINFO_EHDR = 33"
definition AT_MINSIGSTKSZ :: u64 where "AT_MINSIGSTKSZ = 51"

lemmas at_defs = AT_NULL_def AT_PHDR_def AT_PHENT_def AT_PHNUM_def AT_PAGESZ_def AT_BASE_def
  AT_FLAGS_def AT_ENTRY_def AT_UID_def AT_EUID_def AT_GID_def AT_EGID_def AT_PLATFORM_def
  AT_HWCAP_def AT_CLKTCK_def AT_SECURE_def AT_RANDOM_def AT_HWCAP2_def AT_EXECFN_def
  AT_SYSINFO_EHDR_def AT_MINSIGSTKSZ_def

definition ARG_MAX_LEN :: nat where "ARG_MAX_LEN = 4096 * 32"

definition SP_ALIGN :: u64 where "SP_ALIGN = 16"

section \<open>Data\<close>

record 's StackWriter =
  sw_top :: "'s \<Rightarrow> u64"
  sw_bottom :: "'s \<Rightarrow> u64"
  sw_write :: "u64 \<Rightarrow> bytes \<Rightarrow> ('s, unit, error) action"

record AuxvSpec =
  ax_phdr :: "u64 option"
  ax_phent :: u64
  ax_phnum :: u64
  ax_base :: u64
  ax_entry :: u64
  ax_pagesz :: u64
  ax_uid :: u64
  ax_gid :: u64
  ax_hwcap :: u64
  ax_hwcap2 :: u64
  ax_clktck :: u64
  ax_secure :: bool
  ax_random :: bytes
  ax_platform :: bytes
  ax_execfn :: bytes
  ax_sysinfo_ehdr :: "u64 option"
  ax_minsigstksz :: "u64 option"

definition AuxvSpec_default :: AuxvSpec where
  "AuxvSpec_default = \<lparr> ax_phdr = None, ax_phent = 0, ax_phnum = 0, ax_base = 0, ax_entry = 0,
     ax_pagesz = 4096, ax_uid = 0, ax_gid = 0, ax_hwcap = 0, ax_hwcap2 = 0, ax_clktck = 100,
     ax_secure = False, ax_random = replicate 16 0, ax_platform = [], ax_execfn = [],
     ax_sysinfo_ehdr = None, ax_minsigstksz = None \<rparr>"

record StackLayout =
  sl_sp :: u64
  argc_at :: u64
  low_water :: u64

section \<open>The size policy\<close>

text \<open>The loop over all strings; \<open>usize\<close> overflow of the running sum is \<open>E2BIG\<close>.\<close>

primrec arg_env_size :: "bytes list \<Rightarrow> nat \<Rightarrow> (nat, error) result" where
  "arg_env_size [] len = Ok len"
| "arg_env_size (s # ss) len =
     (if 2 ^ 64 \<le> len + (length s + 1) then Err E2BIG
      else if 2 ^ 64 \<le> len + (length s + 1) + 8 then Err E2BIG
      else arg_env_size ss (len + (length s + 1) + 8))"

definition check_arg_env_size :: "bytes list \<Rightarrow> bytes list \<Rightarrow> u64 \<Rightarrow> (nat, error) result" where
  "check_arg_env_size argv envp stack_size =
    rbind (arg_env_size (argv @ envp) 0) (\<lambda>len.
    let budget = max ARG_MAX_LEN (unat stack_size div 4) in
    if budget < len then Err E2BIG else Ok len)"

section \<open>Pushing\<close>

text \<open>\<open>align_down\<close> of this file, without the assertion of the one in \<open>elf.rs\<close>.\<close>

definition stack_align_down :: "u64 \<Rightarrow> u64 \<Rightarrow> (u64, error) result" where
  "stack_align_down v a = rbind (psub a 1) (\<lambda>m. Ok (v AND NOT m))"

record 's Pusher =
  p_w :: 's
  p_sp :: u64

text \<open>An operation of the writer, run inside the pusher.\<close>

definition with_writer :: "('s, 'a, error) action \<Rightarrow> ('s Pusher, 'a, error) action" where
  "with_writer m = (\<lambda>p. case m (p_w p) of (r, w) \<Rightarrow> (r, p\<lparr> p_w := w \<rparr>))"

definition set_sp :: "u64 \<Rightarrow> ('s Pusher, unit, error) action" where
  "set_sp a = (\<lambda>p. (Ok (), p\<lparr> p_sp := a \<rparr>))"

definition push_bytes :: "'s StackWriter \<Rightarrow> bytes \<Rightarrow> ('s Pusher, u64, error) action" where
  "push_bytes W data = (\<lambda>p.
     if unat (p_sp p) < length data then (Err E2BIG, p)
     else let sp = p_sp p - of_nat (length data) in
       sbind (set_sp sp) (\<lambda>_.
       sbind (slift (guard (sp < sw_bottom W (p_w p)) E2BIG)) (\<lambda>_.
       sbind (with_writer (sw_write W sp data)) (\<lambda>_.
       sret sp))) p)"

definition push_cstr :: "'s StackWriter \<Rightarrow> bytes \<Rightarrow> ('s Pusher, u64, error) action" where
  "push_cstr W s =
    sbind (push_bytes W [0]) (\<lambda>_.
    if s = [] then (\<lambda>p. (Ok (p_sp p), p))
    else push_bytes W s)"

definition pusher_align :: "u64 \<Rightarrow> ('s Pusher, unit, error) action" where
  "pusher_align a = (\<lambda>p. sbind (slift (stack_align_down (p_sp p) a)) set_sp p)"

text \<open>The loops that push the environment and the arguments, collecting the addresses.\<close>

primrec push_cstrs :: "'s StackWriter \<Rightarrow> bytes list \<Rightarrow> ('s Pusher, u64 list, error) action" where
  "push_cstrs W [] = sret []"
| "push_cstrs W (s # ss) =
     sbind (push_cstr W s) (\<lambda>a.
     sbind (push_cstrs W ss) (\<lambda>as.
     sret (a # as)))"

section \<open>The auxiliary vector\<close>

definition auxv_entries :: "AuxvSpec \<Rightarrow> u64 \<Rightarrow> u64 option \<Rightarrow> u64 option \<Rightarrow> (u64 \<times> u64) list" where
  "auxv_entries aux random_at platform_at execfn_at =
     (case ax_phdr aux of
        Some a \<Rightarrow> [(AT_PHDR, a), (AT_PHENT, ax_phent aux), (AT_PHNUM, ax_phnum aux)]
      | None \<Rightarrow> [])
     @ [(AT_PAGESZ, ax_pagesz aux), (AT_BASE, ax_base aux), (AT_FLAGS, 0), (AT_ENTRY, ax_entry aux),
        (AT_UID, ax_uid aux), (AT_EUID, ax_uid aux), (AT_GID, ax_gid aux), (AT_EGID, ax_gid aux),
        (AT_SECURE, if ax_secure aux then 1 else 0), (AT_CLKTCK, ax_clktck aux),
        (AT_HWCAP, ax_hwcap aux), (AT_HWCAP2, ax_hwcap2 aux), (AT_RANDOM, random_at)]
     @ (case platform_at of Some a \<Rightarrow> [(AT_PLATFORM, a)] | None \<Rightarrow> [])
     @ (case execfn_at of Some a \<Rightarrow> [(AT_EXECFN, a)] | None \<Rightarrow> [])
     @ (case ax_sysinfo_ehdr aux of Some v \<Rightarrow> [(AT_SYSINFO_EHDR, v)] | None \<Rightarrow> [])
     @ (case ax_minsigstksz aux of Some v \<Rightarrow> [(AT_MINSIGSTKSZ, v)] | None \<Rightarrow> [])
     @ [(AT_NULL, 0)]"

section \<open>Laying out the stack\<close>

text \<open>The closure \<open>word\<close>: the state is the pusher's writer and the cursor \<open>at\<close>.\<close>

definition put_word :: "'s StackWriter \<Rightarrow> u64 \<Rightarrow> ('s \<times> u64, unit, error) action" where
  "put_word W v = (\<lambda>(s, at). case sw_write W at (to_le_bytes v) s of
     (Ok _, s') \<Rightarrow> (case padd at 8 of Ok at' \<Rightarrow> (Ok (), (s', at')) | Err e \<Rightarrow> (Err e, (s', at)) | Panic \<Rightarrow> (Panic, (s', at)))
   | (Err e, s') \<Rightarrow> (Err e, (s', at))
   | (Panic, s') \<Rightarrow> (Panic, (s', at)))"

definition put_block :: "'s StackWriter \<Rightarrow> u64 \<Rightarrow> u64 list \<Rightarrow> u64 list \<Rightarrow> (u64 \<times> u64) list \<Rightarrow> ('s \<times> u64, unit, error) action"
  where
  "put_block W argc argv_at envp_at av =
    sbind (put_word W argc) (\<lambda>_.
    sbind (sfor (put_word W) argv_at) (\<lambda>_.
    sbind (put_word W 0) (\<lambda>_.
    sbind (sfor (put_word W) envp_at) (\<lambda>_.
    sbind (put_word W 0) (\<lambda>_.
    sfor (\<lambda>(k, v). sbind (put_word W k) (\<lambda>_. put_word W v)) av)))))"

definition at_cursor :: "u64 \<Rightarrow> ('s \<times> u64, 'a, error) action \<Rightarrow> ('s, 'a, error) action" where
  "at_cursor a m = (\<lambda>s. case m (s, a) of (r, (s', _)) \<Rightarrow> (r, s'))"

text \<open>The length of the pointer block: panics where \<open>usize\<close> would overflow.\<close>

definition block_len :: "nat \<Rightarrow> nat \<Rightarrow> nat \<Rightarrow> (nat, error) result" where
  "block_len argc envc auxc =
    (let block = (1 + argc + 1 + envc + 1) * 8 + auxc * 16
     in if 2 ^ 64 \<le> block then Panic else Ok block)"

text \<open>
  The three parts of \<open>build_stack\<close> that run on the pusher: the blobs (platform, file name, random
  bytes), the environment and argument strings, and the pointer block.
\<close>

definition push_blobs :: "'s StackWriter \<Rightarrow> AuxvSpec \<Rightarrow> ('s Pusher, u64 option \<times> u64 \<times> u64, error) action" where
  "push_blobs W aux =
    sbind (if ax_platform aux = [] then sret None
           else sbind (push_cstr W (ax_platform aux)) (\<lambda>a. sret (Some a))) (\<lambda>platform_at.
    sbind (push_cstr W (ax_execfn aux)) (\<lambda>execfn_at.
    sbind (pusher_align SP_ALIGN) (\<lambda>_.
    sbind (push_bytes W (ax_random aux)) (\<lambda>random_at.
    sret (platform_at, execfn_at, random_at)))))"

definition push_strings ::
  "heap \<Rightarrow> 's StackWriter \<Rightarrow> bytes list \<Rightarrow> bytes list \<Rightarrow> ('s Pusher, u64 list \<times> u64 list, error) action" where
  "push_strings heap W argv envp =
    sbind (slift (guard (\<not> heap AllocEnvp (length envp)) ENOMEM)) (\<lambda>_.
    sbind (push_cstrs W (rev envp)) (\<lambda>envp_rev.
    sbind (slift (guard (\<not> heap AllocArgv (length argv)) ENOMEM)) (\<lambda>_.
    sbind (push_cstrs W (rev argv)) (\<lambda>argv_rev.
    sret (rev argv_rev, rev envp_rev)))))"

definition write_block ::
  "'s StackWriter \<Rightarrow> bytes list \<Rightarrow> bytes list \<Rightarrow> u64 list \<Rightarrow> u64 list \<Rightarrow> (u64 \<times> u64) list
     \<Rightarrow> ('s Pusher, StackLayout, error) action" where
  "write_block W argv envp argv_at envp_at av = (\<lambda>p.
    sbind (slift (block_len (length argv) (length envp) (length av))) (\<lambda>block.
    sbind (slift (guard (unat (p_sp p) < block) E2BIG)) (\<lambda>_.
    sbind (slift (stack_align_down (p_sp p - of_nat block) SP_ALIGN)) (\<lambda>sp.
    sbind (slift (guard (sp < sw_bottom W (p_w p)) E2BIG)) (\<lambda>_.
    sbind (with_writer (at_cursor sp (put_block W (of_nat (length argv)) argv_at envp_at av))) (\<lambda>_.
    sret \<lparr> sl_sp = sp, argc_at = sp, low_water = sp \<rparr>))))) p)"

definition build_pushed ::
  "heap \<Rightarrow> 's StackWriter \<Rightarrow> bytes list \<Rightarrow> bytes list \<Rightarrow> AuxvSpec \<Rightarrow> ('s Pusher, StackLayout, error) action" where
  "build_pushed heap W argv envp aux =
    sbind (push_blobs W aux) (\<lambda>(platform_at, execfn_at, random_at).
    sbind (push_strings heap W argv envp) (\<lambda>(argv_at, envp_at).
    write_block W argv envp argv_at envp_at
      (auxv_entries aux random_at platform_at (Some execfn_at))))"

definition build_stack ::
  "heap \<Rightarrow> 's StackWriter \<Rightarrow> bytes list \<Rightarrow> bytes list \<Rightarrow> AuxvSpec \<Rightarrow> ('s, StackLayout, error) action" where
  "build_stack heap W argv envp aux = (\<lambda>w.
     sbind (slift (psub (sw_top W w) (sw_bottom W w))) (\<lambda>stack_size.
     sbind (slift (check_arg_env_size argv envp stack_size)) (\<lambda>_.
     sbind (slift (stack_align_down (sw_top W w) SP_ALIGN)) (\<lambda>sp.
     (\<lambda>w. case build_pushed heap W argv envp aux \<lparr> p_w = w, p_sp = sp \<rparr> of (r, p) \<Rightarrow> (r, p_w p))))) w)"

end
