(* ===== verification/Program.thy ===== *)
theory Program
  imports Loader Auxv
begin

text \<open>
  A program with its interpreter, \<open>rust/src/program.rs\<close>. The \<open>Opener\<close> trait is a record of two
  actions over the same state the address space acts on: \<open>op_open\<close>, and \<open>op_drop\<close>, which is what
  happens when the \<open>Opened\<close> value goes out of scope (a file is closed); every way out of a function
  that holds one runs it last. Reading an image is a function of its source, so files do not change
  while they are loaded. The name of the program and the messages only feed the log and are left
  out, but a computation in the argument of a message that can panic is kept.
\<close>

section \<open>Data\<close>

text \<open>
  Dropping the boxed source closes the file it owns: \<open>op_owned\<close> is that file's descriptor, which is
  there also when \<open>op_fd\<close>, the descriptor offered for mapping, is not.
\<close>

record Opened =
  op_src :: image_source
  op_fd :: "i32 option"
  op_owned :: "i32 option"

record 's Opener =
  op_open :: "bytes \<Rightarrow> ('s, Opened, error) action"
  op_drop :: "Opened \<Rightarrow> ('s, unit, error) action"

record LoadedProgram =
  lp_image :: Image
  lp_main :: Loaded
  lp_interp :: "(Image \<times> Loaded) option"
  lp_interp_path :: "bytes option"

record Environment =
  en_page_size :: u64
  en_platform :: bytes
  en_execfn :: bytes
  en_random :: bytes
  en_uid :: u64
  en_gid :: u64
  en_hwcap :: "u64 \<times> u64"
  en_sysinfo_ehdr :: "u64 option"

section \<open>Queries\<close>

definition lp_entry :: "LoadedProgram \<Rightarrow> u64" where
  "lp_entry p =
    (case lp_interp p of
       Some (_, l) \<Rightarrow> entry (ld_plan l)
     | None \<Rightarrow> entry (ld_plan (lp_main p)))"

definition interp_base :: "LoadedProgram \<Rightarrow> u64" where
  "interp_base p = (case lp_interp p of Some (_, l) \<Rightarrow> bias (ld_plan l) | None \<Rightarrow> 0)"

definition min_sig_stack_size :: "target_arch \<Rightarrow> u64 option" where
  "min_sig_stack_size arch = (if arch = Aarch64 then Some 4096 else None)"

definition program_auxv :: "target_arch \<Rightarrow> LoadedProgram \<Rightarrow> Environment \<Rightarrow> (AuxvSpec, error) result" where
  "program_auxv arch p env =
    rbind (phdr_addr (ld_plan (lp_main p)) (lp_image p)) (\<lambda>phdr.
    Ok \<lparr> ax_phdr = phdr,
         ax_phent = ucast (e_phentsize (ehdr (lp_image p))),
         ax_phnum = ucast (e_phnum (ehdr (lp_image p))),
         ax_base = interp_base p,
         ax_entry = entry (ld_plan (lp_main p)),
         ax_pagesz = en_page_size env,
         ax_uid = en_uid env,
         ax_gid = en_gid env,
         ax_hwcap = fst (en_hwcap env),
         ax_hwcap2 = snd (en_hwcap env),
         ax_clktck = 100,
         ax_secure = False,
         ax_random = en_random env,
         ax_platform = en_platform env,
         ax_execfn = en_execfn env,
         ax_sysinfo_ehdr = en_sysinfo_ehdr env,
         ax_minsigstksz = min_sig_stack_size arch \<rparr>)"

definition unload_program :: "'s Vm \<Rightarrow> LoadedProgram \<Rightarrow> ('s, unit, error) action" where
  "unload_program vm p =
    sbind (case lp_interp p of Some (_, l) \<Rightarrow> unload vm l | None \<Rightarrow> sret ()) (\<lambda>_.
    unload vm (lp_main p))"

section \<open>Loading\<close>

text \<open>Open, run the rest of the function, drop.\<close>

definition with_opened ::
  "'s Opener \<Rightarrow> bytes \<Rightarrow> (Opened \<Rightarrow> ('s, 'a, error) action) \<Rightarrow> ('s, 'a, error) action" where
  "with_opened opener path body =
    sbind (op_open opener path) (\<lambda>op. sfinally (body op) (op_drop opener op))"

definition load_interp ::
  "target_arch \<Rightarrow> heap \<Rightarrow> 's Opener \<Rightarrow> 's Vm \<Rightarrow> u64 \<Rightarrow> bytes \<Rightarrow> ('s, Image \<times> Loaded, error) action" where
  "load_interp arch heap opener vm page path =
    with_opened opener path (\<lambda>op.
    sbind (slift (map_err error_of_reject (Image_parse arch heap (op_src op) page))) (\<lambda>img.
    sbind (slift (guard (e_type (ehdr img) \<noteq> ET_DYN) ENOEXEC)) (\<lambda>_.
    sbind (slift (guard (needs_interp img) ENOEXEC)) (\<lambda>_.
    sbind (load_image vm heap img (op_src op) (op_fd op)) (\<lambda>loaded.
    sret (img, loaded))))))"

definition load_program ::
  "target_arch \<Rightarrow> heap \<Rightarrow> 's Opener \<Rightarrow> 's Vm \<Rightarrow> bytes \<Rightarrow> ('s, LoadedProgram, error) action" where
  "load_program arch heap opener vm path =
    (let page = vm_page_size vm in
    with_opened opener path (\<lambda>op.
    sbind (slift (map_err error_of_reject (Image_parse arch heap (op_src op) page))) (\<lambda>img.
    sbind (slift (check_stack_request img)) (\<lambda>_.
    sbind (slift (if needs_interp img then rbind (interp_path heap img (op_src op)) (\<lambda>ip. Ok (Some ip))
                  else Ok None)) (\<lambda>path_opt.
    sbind (load_image vm heap img (op_src op) (op_fd op)) (\<lambda>main.
    sbind (slift (psub (end_addr (ld_plan main)) (base (ld_plan main)))) (\<lambda>_.
    sbind (slift (entry_is_executable img (ld_plan main))) (\<lambda>_.
    sbind
      (case path_opt of
         None \<Rightarrow> sret None
       | Some ip \<Rightarrow>
           sbind (son_err (load_interp arch heap opener vm page ip) (unload vm main)) (\<lambda>v.
           sret (Some v))) (\<lambda>loaded_interp.
    sret \<lparr> lp_image = img, lp_main = main, lp_interp = loaded_interp, lp_interp_path = path_opt \<rparr>)))))))))"

end
