(* ===== verification/Elf_Codec.thy ===== *)
theory Elf_Codec
  imports Elf
begin

text \<open>
  The header parsers against the ELF64 format. \<open>ehdr_bytes\<close> and \<open>phdr_bytes\<close> are the format: the
  fields of a header in order, each little-endian at its width. The parsers are shown to be
  their exact inverses, so that a field read at a wrong offset or width would not go unnoticed.
\<close>

definition ehdr_bytes :: "Ehdr \<Rightarrow> bytes" where
  "ehdr_bytes eh = ident eh @ le_enc 2 (unat (e_type eh)) @ le_enc 2 (unat (e_machine eh))
     @ le_enc 4 (unat (e_version eh)) @ le_enc 8 (unat (e_entry eh)) @ le_enc 8 (unat (e_phoff eh))
     @ le_enc 8 (unat (e_shoff eh)) @ le_enc 4 (unat (e_flags eh)) @ le_enc 2 (unat (e_ehsize eh))
     @ le_enc 2 (unat (e_phentsize eh)) @ le_enc 2 (unat (e_phnum eh))
     @ le_enc 2 (unat (e_shentsize eh)) @ le_enc 2 (unat (e_shnum eh))
     @ le_enc 2 (unat (e_shstrndx eh))"

definition phdr_bytes :: "Phdr \<Rightarrow> bytes" where
  "phdr_bytes ph = le_enc 4 (unat (p_type ph)) @ le_enc 4 (unat (p_flags ph))
     @ le_enc 8 (unat (p_offset ph)) @ le_enc 8 (unat (p_vaddr ph)) @ le_enc 8 (unat (p_paddr ph))
     @ le_enc 8 (unat (p_filesz ph)) @ le_enc 8 (unat (p_memsz ph)) @ le_enc 8 (unat (p_align ph))"

lemma length_phdr_bytes [simp]: "length (phdr_bytes ph) = 56"
  by (simp add: phdr_bytes_def)

lemma length_ehdr_bytes [simp]: "length (ident eh) = 16 \<Longrightarrow> length (ehdr_bytes eh) = 64"
  by (simp add: ehdr_bytes_def)

lemma le_enc_eq_iff:
  assumes "length bs = n" and "LENGTH('l) = 8 * n"
  shows "bs = le_enc n (unat (w :: 'l::len word)) \<longleftrightarrow> from_le_bytes bs = w"
proof -
  have bound: "256 ^ n = (2 :: nat) ^ LENGTH('l)"
    unfolding assms(2) by (simp add: power_mult)
  have "unat (from_le_bytes bs :: 'l word) = le_val bs"
    using le_val_bound [of bs] bound assms(1) by (simp add: from_le_bytes_def unat_of_nat)
  moreover have "le_val (le_enc n (unat w)) = unat w"
    using bound by (simp add: le_val_enc)
  ultimately show ?thesis
    using assms(1) le_enc_val [of bs] by (metis unat_eqI)
qed

text \<open>A prefix of a list is a block followed by more exactly when the pieces agree.\<close>

lemma prefix_block:
  assumes "length xs = k" and "k \<le> n" and "n \<le> length ys"
  shows "take n ys = xs @ zs \<longleftrightarrow> take k ys = xs \<and> take (n - k) (drop k ys) = zs"
  using assms append_eq_append_conv [of "take k ys" xs "take (n - k) (drop k ys)" zs]
  by (simp flip: take_add)

lemma Phdr_parse_iff:
  "Phdr_parse raw = Ok ph \<longleftrightarrow> PHDR_SIZE \<le> length raw \<and> take PHDR_SIZE raw = phdr_bytes ph"
proof (cases "length raw < PHDR_SIZE")
  case True
  then show ?thesis by (simp add: Phdr_parse_def)
next
  case False
  then have len: "56 \<le> length raw" by (simp add: PHDR_SIZE_def)
  show ?thesis
    using len
    by (cases ph) (auto simp: Phdr_parse_def PHDR_SIZE_def phdr_bytes_def u32le_def u64le_def
        prefix_block le_enc_eq_iff)
qed

lemma Ehdr_parse_iff:
  "Ehdr_parse raw = Ok eh \<longleftrightarrow>
     EHDR_SIZE \<le> length raw \<and> length (ident eh) = EI_NIDENT \<and> take EHDR_SIZE raw = ehdr_bytes eh"
proof (cases "length raw < EHDR_SIZE")
  case True
  then show ?thesis by (simp add: Ehdr_parse_def)
next
  case False
  then have len: "64 \<le> length raw" by (simp add: EHDR_SIZE_def)
  show ?thesis
    using len
    by (cases eh) (auto simp: Ehdr_parse_def EHDR_SIZE_def EI_NIDENT_def ehdr_bytes_def u16le_def
        u32le_def u64le_def prefix_block le_enc_eq_iff)
qed

lemma Phdr_parse_exact:
  "(Phdr_parse raw = Ok ph \<longleftrightarrow> PHDR_SIZE \<le> length raw \<and> take PHDR_SIZE raw = phdr_bytes ph)
   \<and> (Phdr_parse raw = Err e \<longleftrightarrow> length raw < PHDR_SIZE \<and> e = ENOEXEC)
   \<and> Phdr_parse raw \<noteq> Panic"
  using Phdr_parse_iff
  by (auto simp: Phdr_parse_def PHDR_SIZE_def u32le_def u64le_def slice_def)

lemma Ehdr_parse_exact:
  "(Ehdr_parse raw = Ok eh \<longleftrightarrow>
      EHDR_SIZE \<le> length raw \<and> length (ident eh) = EI_NIDENT \<and> take EHDR_SIZE raw = ehdr_bytes eh)
   \<and> (Ehdr_parse raw = Err e \<longleftrightarrow> length raw < EHDR_SIZE \<and> e = ENOEXEC)
   \<and> Ehdr_parse raw \<noteq> Panic"
  using Ehdr_parse_iff
  by (auto simp: Ehdr_parse_def EHDR_SIZE_def EI_NIDENT_def u16le_def u32le_def u64le_def slice_def)

text \<open>
  C37. The header parsers are the exact inverses of the ELF64 layout: the parser of the ELF header
  returns a header precisely for the inputs of at least 64 bytes that start with that header's
  serialisation, the parser of a program header for those of at least 56 bytes that start with
  its serialisation, and the only other outcome of either, on a shorter input, is \<open>ENOEXEC\<close>.
\<close>

theorem headers_parse_exact:
  "((Ehdr_parse raw = Ok eh \<longleftrightarrow>
      EHDR_SIZE \<le> length raw \<and> length (ident eh) = EI_NIDENT \<and> take EHDR_SIZE raw = ehdr_bytes eh)
    \<and> (Ehdr_parse raw = Err e \<longleftrightarrow> length raw < EHDR_SIZE \<and> e = ENOEXEC)
    \<and> Ehdr_parse raw \<noteq> Panic)
   \<and> (Phdr_parse raw = Ok ph \<longleftrightarrow> PHDR_SIZE \<le> length raw \<and> take PHDR_SIZE raw = phdr_bytes ph)
    \<and> (Phdr_parse raw = Err e \<longleftrightarrow> length raw < PHDR_SIZE \<and> e = ENOEXEC)
    \<and> Phdr_parse raw \<noteq> Panic"
  by (rule conjI [OF Ehdr_parse_exact Phdr_parse_exact])

end
