(* ===== verification/Sample.thy ===== *)
theory Sample
  imports Elf_Codec Layout
begin

text \<open>
  A small image on which the properties of the development are instantiated: a position-independent
  program with an interpreter and two loadable segments that the table lists out of order, read
  with a page size of 64 bytes. The read-only segment ends inside its last page, so that page has
  to be cleared behind it; the writable one starts inside a page and has more memory than file
  data; there is a free page between them, and the larger alignment of the first adds slack to
  the reservation. The two bytes past the last segment must never become visible.
\<close>

definition sample_phdr :: "u32 \<Rightarrow> u32 \<Rightarrow> u64 \<Rightarrow> u64 \<Rightarrow> u64 \<Rightarrow> u64 \<Rightarrow> u64 \<Rightarrow> Phdr" where
  "sample_phdr ty flags off va fs ms al = \<lparr> p_type = ty, p_flags = flags, p_offset = off,
     p_vaddr = va, p_paddr = va, p_filesz = fs, p_memsz = ms, p_align = al \<rparr>"

definition sample_phdrs :: "Phdr list" where
  "sample_phdrs =
    [sample_phdr PT_INTERP 4 232 232 8 8 1,
     sample_phdr PT_LOAD 6 240 368 8 96 64,
     sample_phdr PT_LOAD 5 0 0 240 240 128]"

definition sample_ehdr :: Ehdr where
  "sample_ehdr = \<lparr> ident = ELFMAG @ [2, 1, 1, 0, 0, 0, 0, 0, 0, 0, 0, 0], e_type = ET_DYN,
     e_machine = EM_X86_64, e_version = 1, e_entry = 200, e_phoff = 64, e_shoff = 0, e_flags = 0,
     e_ehsize = 64, e_phentsize = 56, e_phnum = 3, e_shentsize = 64, e_shnum = 0, e_shstrndx = 0 \<rparr>"

definition sample_elf :: bytes where
  "sample_elf = ehdr_bytes sample_ehdr
     @ phdr_bytes (sample_phdrs ! 0) @ phdr_bytes (sample_phdrs ! 1) @ phdr_bytes (sample_phdrs ! 2)
     @ [0x2f, 0x6c, 0x64, 0x2e, 0x73, 0x6f, 0, 0] @ [1, 2, 3, 4, 5, 6, 7, 8] @ [0xee, 0xee]"

definition sample_image :: Image where
  "sample_image = \<lparr> ehdr = sample_ehdr, phdrs = sample_phdrs, loads = [2, 1],
     interp = Some (sample_phdrs ! 0), phdr_seg = None, tls = None, relro = None,
     exec_stack = False \<rparr>"

definition sample_plan :: LoadPlan where
  "sample_plan =
    \<lparr> bias = 4224, reserve_addr = 4160, reserve_len = 576, base = 4224, end_addr = 4736, align = 128,
      segments =
        [\<lparr> idx = 2, file_map = Some \<lparr> fm_addr = 4224, fm_len = 256, fm_off = 0 \<rparr>,
           zero_map = Some \<lparr> am_addr = 4464, am_len = 16 \<rparr>, anon_map = None,
           prot = 5, needs_write_window = True \<rparr>,
         \<lparr> idx = 1, file_map = Some \<lparr> fm_addr = 4544, fm_len = 64, fm_off = 192 \<rparr>,
           zero_map = Some \<lparr> am_addr = 4600, am_len = 8 \<rparr>,
           anon_map = Some \<lparr> am_addr = 4608, am_len = 128 \<rparr>, prot = 3,
           needs_write_window = False \<rparr>],
      entry = 4424 \<rparr>"

text \<open>An allocator that grants every request.\<close>

definition any_heap :: heap where "any_heap = (\<lambda>_ _. True)"

lemma power_of_two_samples [simp]:
  "is_power_of_two 64" "is_power_of_two 128" "is_power_of_two 1"
  unfolding is_power_of_two_iff
  by (rule exI [of _ 6], simp, rule exI [of _ 7], simp, rule exI [of _ 0], simp)

lemmas sample_defs = sample_image_def sample_phdrs_def sample_phdr_def sample_ehdr_def any_heap_def

lemmas word_eval = checked_add_def checked_sub_def checked_mul_def padd_def psub_def pmul_def
  align_down_def align_up_def align_up_or_def word_le_nat_alt word_less_nat_alt

lemmas layout_eval = va_span_def seg_align_def load_align_def MAX_SEG_ALIGN_def plan_def
  plan_segment_def is_write_def is_read_def is_exec_def prot_of_def Let_def elf_const_defs prot_defs

lemma sample_ident [simp]: "length (ident sample_ehdr) = 16"
  by (simp add: sample_ehdr_def ELFMAG_def)

lemma length_sample_elf [simp]: "length sample_elf = 250"
  by (simp add: sample_elf_def)

lemma sample_read_ehdr: "take 64 sample_elf = ehdr_bytes sample_ehdr"
  by (simp add: sample_elf_def)

lemma sample_read_phdrs:
  "take 56 (drop 64 sample_elf) = phdr_bytes (sample_phdrs ! 0)"
  "take 56 (drop 120 sample_elf) = phdr_bytes (sample_phdrs ! 1)"
  "take 56 (drop 176 sample_elf) = phdr_bytes (sample_phdrs ! 2)"
  by (simp_all add: sample_elf_def)

lemma sample_read_interp: "take 8 (drop 232 sample_elf) = [0x2f, 0x6c, 0x64, 0x2e, 0x73, 0x6f, 0, 0]"
  by (simp add: sample_elf_def)

lemma sample_Ehdr_parse: "Ehdr_parse (take 64 sample_elf) = Ok sample_ehdr"
  by (simp add: Ehdr_parse_iff sample_read_ehdr EHDR_SIZE_def EI_NIDENT_def)

lemma sample_Phdr_parse: "Phdr_parse (phdr_bytes ph) = Ok ph"
  by (simp add: Phdr_parse_iff PHDR_SIZE_def)

lemma sample_table:
  "read_phdrs (slice_source sample_elf) 64 56 [0, 1, 2] = Ok sample_phdrs"
proof -
  have "read_phdrs (slice_source sample_elf) 64 56 [0, 1, 2] =
      Ok [sample_phdrs ! 0, sample_phdrs ! 1, sample_phdrs ! 2]"
    by (simp add: slice_source_def word_eval PHDR_SIZE_def sample_read_phdrs sample_Phdr_parse)
  then show ?thesis by (simp add: sample_phdrs_def)
qed

lemma sample_classify:
  "classify 64 (Some 250) (enumerate 0 sample_phdrs) classify_init =
     Ok \<lparr> cl_loads = [1, 2], cl_interp = Some (sample_phdrs ! 0), cl_phdr_seg = None,
          cl_tls = None, cl_relro = None, cl_exec_stack = False \<rparr>"
  by (simp add: sample_defs classify_step_def classify_init_def check_interp_def validate_load_def
      word_eval elf_const_defs)

lemma sample_parse: "Image_parse OtherArch any_heap (slice_source sample_elf) 64 = Ok sample_image"
proof -
  have "[0..<3] = [0, 1, 2 :: nat]" by (simp add: upt_rec)
  then have idx: "map of_nat [0..<unat (e_phnum sample_ehdr)] = [0, 1, 2 :: u64]"
    by (simp add: sample_ehdr_def)
  have read: "read_exact_at (slice_source sample_elf) 0 64 = Ok (take 64 sample_elf)"
    by (simp add: slice_source_def)
  have ids: "check_ident OtherArch sample_ehdr = Ok ()" "check_phtab sample_ehdr (Some 250) = Ok ()"
    by (simp_all add: check_ident_def check_phtab_def sample_ehdr_def elf_const_defs word_eval)
  have src: "src_size (slice_source sample_elf) = Some 250" by (simp add: slice_source_def)
  have overlaps: "check_overlaps 64 sample_phdrs [2, 1] = Ok ()"
    by (simp add: check_overlap_def sample_defs word_eval)
  have sorted: "sort_key (\<lambda>i. p_vaddr (sample_phdrs ! i)) [1, 2] = [2, 1]"
    by (simp add: sample_phdrs_def sample_phdr_def)
  have fields: "e_phoff sample_ehdr = 64" "ucast (e_phentsize sample_ehdr) = (56 :: u64)"
    by (simp_all add: sample_ehdr_def)
  show ?thesis
    unfolding Image_parse_def EHDR_SIZE_def
    by (simp add: read sample_Ehdr_parse ids src idx fields sample_table sample_classify overlaps
        sorted any_heap_def Let_def sample_image_def del: read_phdrs.simps classify.simps
        check_overlaps.simps sort_key_simps enumerate_simps One_nat_def)
qed

lemma sample_plan_At: "plan any_heap sample_image 64 (At 4160) = Ok sample_plan"
  by (simp add: sample_defs word_eval layout_eval sample_plan_def)

section \<open>A dynamic linker for it\<close>

text \<open>The same image with a note in place of the interpreter request.\<close>

definition ld_phdrs :: "Phdr list" where
  "ld_phdrs =
    [sample_phdr 4 4 232 232 8 8 1,
     sample_phdr PT_LOAD 6 240 368 8 96 64,
     sample_phdr PT_LOAD 5 0 0 240 240 128]"

definition ld_elf :: bytes where
  "ld_elf = ehdr_bytes sample_ehdr
     @ phdr_bytes (ld_phdrs ! 0) @ phdr_bytes (ld_phdrs ! 1) @ phdr_bytes (ld_phdrs ! 2)
     @ [0x2f, 0x6c, 0x64, 0x2e, 0x73, 0x6f, 0, 0] @ [8, 7, 6, 5, 4, 3, 2, 1] @ [0xdd, 0xdd]"

definition ld_image :: Image where
  "ld_image = \<lparr> ehdr = sample_ehdr, phdrs = ld_phdrs, loads = [2, 1], interp = None, phdr_seg = None,
     tls = None, relro = None, exec_stack = False \<rparr>"

lemmas ld_defs = ld_image_def ld_phdrs_def sample_phdr_def sample_ehdr_def any_heap_def

lemma length_ld_elf [simp]: "length ld_elf = 250"
  by (simp add: ld_elf_def)

text \<open>A source from which the whole of a file can be read.\<close>

definition reads_like :: "image_source \<Rightarrow> bytes \<Rightarrow> bool" where
  "reads_like src data \<longleftrightarrow> src_size src = Some (of_nat (length data))
     \<and> (\<forall>off n. 0 < n \<longrightarrow> unat off + n \<le> length data \<longrightarrow> read_exact_at src off n = Ok (take n (drop (unat off) data)))"

lemma slice_reads_like: "length data < 2 ^ 64 \<Longrightarrow> reads_like (slice_source data) data"
  by (simp add: reads_like_def slice_source_def)

lemma ld_parse_from:
  assumes "reads_like src ld_elf"
  shows "Image_parse OtherArch any_heap src 64 = Ok ld_image"
proof -
  have rd: "read_exact_at src off n = Ok (take n (drop (unat off) ld_elf))" if "0 < n" "unat off + n \<le> 250" for off n
    using assms that by (simp add: reads_like_def)
  have "[0..<3] = [0, 1, 2 :: nat]" by (simp add: upt_rec)
  then have idx: "map of_nat [0..<unat (e_phnum sample_ehdr)] = [0, 1, 2 :: u64]"
    by (simp add: sample_ehdr_def)
  have raw: "read_exact_at src 0 64 = Ok (ehdr_bytes sample_ehdr)"
    by (simp add: rd) (simp add: ld_elf_def)
  have eh: "Ehdr_parse (ehdr_bytes sample_ehdr) = Ok sample_ehdr"
    by (simp add: Ehdr_parse_iff EHDR_SIZE_def EI_NIDENT_def)
  have ids: "check_ident OtherArch sample_ehdr = Ok ()" "check_phtab sample_ehdr (Some 250) = Ok ()"
    by (simp_all add: check_ident_def check_phtab_def sample_ehdr_def elf_const_defs word_eval)
  have src: "src_size src = Some 250" using assms by (simp add: reads_like_def)
  have at: "take 56 (drop 64 ld_elf) = phdr_bytes (ld_phdrs ! 0)" "take 56 (drop 120 ld_elf) = phdr_bytes (ld_phdrs ! 1)"
    "take 56 (drop 176 ld_elf) = phdr_bytes (ld_phdrs ! 2)"
    by (simp_all add: ld_elf_def)
  have "read_phdrs src 64 56 [0, 1, 2] = Ok [ld_phdrs ! 0, ld_phdrs ! 1, ld_phdrs ! 2]"
    by (simp add: rd word_eval PHDR_SIZE_def at sample_Phdr_parse)
  then have table: "read_phdrs src 64 56 [0, 1, 2] = Ok ld_phdrs" by (simp add: ld_phdrs_def)
  have classify: "classify 64 (Some 250) (enumerate 0 ld_phdrs) classify_init =
      Ok \<lparr> cl_loads = [1, 2], cl_interp = None, cl_phdr_seg = None, cl_tls = None, cl_relro = None,
           cl_exec_stack = False \<rparr>"
    by (simp add: ld_defs classify_step_def classify_init_def validate_load_def word_eval elf_const_defs)
  have overlaps: "check_overlaps 64 ld_phdrs [2, 1] = Ok ()"
    by (simp add: check_overlap_def ld_defs word_eval)
  have sorted: "sort_key (\<lambda>i. p_vaddr (ld_phdrs ! i)) [1, 2] = [2, 1]"
    by (simp add: ld_phdrs_def sample_phdr_def)
  have fields: "e_phoff sample_ehdr = 64" "ucast (e_phentsize sample_ehdr) = (56 :: u64)"
    by (simp_all add: sample_ehdr_def)
  show ?thesis
    unfolding Image_parse_def EHDR_SIZE_def
    by (simp add: raw eh ids src idx fields table classify overlaps sorted any_heap_def Let_def ld_image_def
        del: read_phdrs.simps classify.simps check_overlaps.simps sort_key_simps enumerate_simps One_nat_def)
qed

lemma ld_parse: "Image_parse OtherArch any_heap (slice_source ld_elf) 64 = Ok ld_image"
  by (rule ld_parse_from, rule slice_reads_like) simp

end
