(* ===== verification/Elf_Facts.thy ===== *)
theory Elf_Facts
  imports Elf Sample
begin

text \<open>
  What the ELF reader guarantees. The contract of an image source is the locale
  \<open>image_reader\<close>, interpreted on the byte-slice source. A parsed image satisfies \<open>wf_image\<close>, the
  invariant the later stages rely on: every loadable segment is inside the file and the address
  space, page-congruent, and the segments are in ascending order without sharing a page.
\<close>

section \<open>The contract of an image source\<close>

locale image_reader =
  fixes src :: image_source and content :: "nat \<Rightarrow> u8"
  assumes read_length: "read_exact_at src off n = Ok bs \<Longrightarrow> length bs = n"
    and read_content: "read_exact_at src off n = Ok bs \<Longrightarrow> i < n \<Longrightarrow> bs ! i = content (unat off + i)"
    and read_total: "read_exact_at src off n \<noteq> Panic"

interpretation slice_reader: image_reader "slice_source data" "(!) data" for data
  by unfold_locales (auto simp: slice_source_def split: if_splits)

section \<open>Alignment on natural numbers\<close>

lemma psub_one: "is_power_of_two a \<Longrightarrow> psub a 1 = Ok (a - 1)"
  using power_of_two_pos [of a] by (intro psub_ok) simp

lemma unat_minus_one: "is_power_of_two a \<Longrightarrow> unat (a - 1) = unat a - 1"
  using power_of_two_pos [of a] by (subst unat_sub_ok) simp_all

lemma align_down_ok [simp]: "is_power_of_two a \<Longrightarrow> align_down v a = Ok (v AND NOT (a - 1))"
  by (simp add: align_down_def psub_one)

lemma align_down_iff [arith_outcome]:
  "is_power_of_two a \<Longrightarrow> align_down v a = Ok w \<longleftrightarrow> unat w = floor_to (unat v) (unat a)"
  by (auto simp: unat_and_high intro: unat_eqI)

lemma align_up_or_iff [arith_outcome]:
  assumes "is_power_of_two a"
  shows "align_up_or v a e = Ok w \<longleftrightarrow>
      unat v + (unat a - 1) < 2 ^ 64 \<and> unat w = ceil_to (unat v) (unat a)"
    and "align_up_or v a e = Err f \<longleftrightarrow> 2 ^ 64 \<le> unat v + (unat a - 1) \<and> f = e"
    and "align_up_or v a e \<noteq> Panic"
proof -
  have eq: "align_up_or v a e = (case checked_add v (a - 1) of None \<Rightarrow> Err e
      | Some x \<Rightarrow> Ok (x AND NOT (a - 1)))"
    using assms by (simp add: align_up_or_def align_up_def psub_one split: option.splits)
  show "align_up_or v a e = Ok w \<longleftrightarrow>
      unat v + (unat a - 1) < 2 ^ 64 \<and> unat w = ceil_to (unat v) (unat a)"
    unfolding eq using assms
    by (auto simp: checked_add_Some checked_add_None unat_minus_one unat_and_high ceil_to_def
        floor_to_def checked_add_def unat_add_ok intro: unat_eqI split: option.splits if_splits)
  show "align_up_or v a e = Err f \<longleftrightarrow> 2 ^ 64 \<le> unat v + (unat a - 1) \<and> f = e"
    unfolding eq using assms
    by (auto simp: checked_add_Some checked_add_None unat_minus_one split: option.splits)
  show "align_up_or v a e \<noteq> Panic" unfolding eq by (auto split: option.splits)
qed

text \<open>Rounding up fits 64 bits exactly when the rounded value does.\<close>

lemma ceil_fits:
  assumes "is_power_of_two a" and "v + (unat a - 1) < 2 ^ 64"
  shows "ceil_to v (unat a) < 2 ^ 64"
  using assms floor_to_le [of "v + (unat a - 1)" "unat a"]
  unfolding ceil_to_def floor_to_def by linarith

section \<open>Loadable segments\<close>

definition load_ok :: "u64 \<Rightarrow> Phdr \<Rightarrow> bool" where
  "load_ok ps ph \<longleftrightarrow>
     p_type ph = PT_LOAD
     \<and> unat (p_filesz ph) \<le> unat (p_memsz ph)
     \<and> (p_align ph = 0 \<or> is_power_of_two (p_align ph))
     \<and> unat (p_vaddr ph) + unat (p_memsz ph) < 2 ^ 64
     \<and> unat (p_offset ph) + unat (p_filesz ph) < 2 ^ 64
     \<and> (p_filesz ph \<noteq> 0 \<longrightarrow>
          unat (p_vaddr ph) mod unat ps = unat (p_offset ph) mod unat ps)"

definition in_file :: "u64 option \<Rightarrow> Phdr \<Rightarrow> bool" where
  "in_file fsize ph \<longleftrightarrow>
     (\<forall>sz. fsize = Some sz \<longrightarrow> unat (p_offset ph) + unat (p_filesz ph) \<le> unat sz)"

text \<open>The pages a segment occupies, from \<open>seg_lo\<close> up to \<open>seg_hi\<close>, before any bias.\<close>

definition seg_lo :: "u64 \<Rightarrow> Phdr \<Rightarrow> nat" where
  "seg_lo ps ph = floor_to (unat (p_vaddr ph)) (unat ps)"

definition seg_hi :: "u64 \<Rightarrow> Phdr \<Rightarrow> nat" where
  "seg_hi ps ph = ceil_to (unat (p_vaddr ph) + unat (p_memsz ph)) (unat ps)"

lemma seg_lo_le_vaddr: "seg_lo ps ph \<le> unat (p_vaddr ph)"
  by (simp add: seg_lo_def)

lemma vaddr_le_seg_hi: "is_power_of_two ps \<Longrightarrow> unat (p_vaddr ph) + unat (p_memsz ph) \<le> seg_hi ps ph"
  by (simp add: seg_hi_def ceil_to_ge power_of_two_pos)

lemma seg_lo_le_hi: "is_power_of_two ps \<Longrightarrow> seg_lo ps ph \<le> seg_hi ps ph"
  using vaddr_le_seg_hi [of ps ph] seg_lo_le_vaddr [of ps ph] by linarith

lemma validate_load_Ok:
  assumes "is_power_of_two ps" and "p_type ph = PT_LOAD"
  shows "validate_load ph ps fsize = Ok u \<longleftrightarrow> load_ok ps ph \<and> in_file fsize ph"
proof -
  have congr: "p_vaddr ph AND (ps - 1) \<noteq> p_offset ph AND (ps - 1) \<longleftrightarrow>
      unat (p_vaddr ph) mod unat ps \<noteq> unat (p_offset ph) mod unat ps"
    using assms by (metis unat_and_low unat_eqI)
  show ?thesis
    using assms unfolding validate_load_def load_ok_def in_file_def
    by (auto simp: guard_def checked_add_def psub_one congr word_less_nat_alt not_less unat_add_ok
        split: option.splits if_splits)
qed

lemma validate_load_total: "is_power_of_two ps \<Longrightarrow> validate_load ph ps fsize \<noteq> Panic"
  unfolding validate_load_def
  by (auto simp: outcome_simps arith_outcome psub_one split: option.splits)

section \<open>The stages of the parser\<close>

lemma check_ident_total: "length (ident eh) = EI_NIDENT \<Longrightarrow> check_ident arch eh \<noteq> Panic"
  unfolding check_ident_def by (auto simp: outcome_simps elf_const_defs)

lemma check_phtab_total: "check_phtab eh fsize \<noteq> Panic"
  unfolding check_phtab_def by (auto simp: outcome_simps split: option.splits)

lemma u_le_in_range [simp]:
  "off + 2 \<le> length b \<Longrightarrow> u16le b off = Ok (from_le_bytes (take 2 (drop off b)))"
  "off + 4 \<le> length b \<Longrightarrow> u32le b off = Ok (from_le_bytes (take 4 (drop off b)))"
  "off + 8 \<le> length b \<Longrightarrow> u64le b off = Ok (from_le_bytes (take 8 (drop off b)))"
  by (simp_all add: u16le_def u32le_def u64le_def)

lemma Ehdr_parse_total: "Ehdr_parse raw \<noteq> Panic"
  by (simp add: Ehdr_parse_def elf_const_defs)

lemma Ehdr_parse_ident: "Ehdr_parse raw = Ok eh \<Longrightarrow> ident eh = take EI_NIDENT raw \<and> EHDR_SIZE \<le> length raw"
  by (auto simp: Ehdr_parse_def elf_const_defs split: if_splits)

lemma Phdr_parse_total: "Phdr_parse raw \<noteq> Panic"
  by (simp add: Phdr_parse_def elf_const_defs)

lemma unat_ucast_u16: "unat (ucast (w :: u16) :: u64) = unat w"
  by (simp add: unsigned_ucast_eq take_bit_nat_eq_self unsigned_less order_less_le_trans [OF unsigned_less])

lemma position_Some:
  assumes "position P xs = Some n"
  shows "n < length xs \<and> P (xs ! n) \<and> (\<forall>x\<in>set (take n xs). \<not> P x)"
  using assms by (induction xs arbitrary: n) (auto split: if_splits)

lemma position_None: "position P xs = None \<longleftrightarrow> (\<forall>x\<in>set xs. \<not> P x)"
  by (induction xs) auto

lemma check_phtab_Ok:
  assumes "check_phtab eh fsize = Ok u"
  shows "0 < unat (e_phnum eh)" and "unat (e_phnum eh) \<le> 1024"
    and "PHDR_SIZE \<le> unat (e_phentsize eh)"
    and "unat (e_phoff eh) + unat (e_phnum eh) * unat (e_phentsize eh) < 2 ^ 64"
    and "fsize = Some sz \<Longrightarrow> unat (e_phoff eh) + unat (e_phnum eh) * unat (e_phentsize eh) \<le> unat sz"
proof -
  from assms show "0 < unat (e_phnum eh)" "PHDR_SIZE \<le> unat (e_phentsize eh)"
    by (auto simp: check_phtab_def outcome_simps arith_outcome unat_gt_0)
  from assms show "unat (e_phnum eh) \<le> 1024"
    by (auto simp: check_phtab_def outcome_simps PHNUM_MAX_def word_less_nat_alt)
  from assms show "unat (e_phoff eh) + unat (e_phnum eh) * unat (e_phentsize eh) < 2 ^ 64"
    by (auto simp: check_phtab_def outcome_simps arith_outcome unat_ucast_u16)
  from assms show "unat (e_phoff eh) + unat (e_phnum eh) * unat (e_phentsize eh) \<le> unat sz"
    if "fsize = Some sz" using that
    by (auto simp: check_phtab_def outcome_simps arith_outcome unat_ucast_u16 word_less_nat_alt not_less)
qed

lemma read_phdrs_total:
  assumes "\<And>off n. read_exact_at src off n \<noteq> Panic"
    and "\<And>i. i \<in> set is \<Longrightarrow> unat phoff + unat i * unat phentsize < 2 ^ 64"
  shows "read_phdrs src phoff phentsize is \<noteq> Panic"
  using assms(2)
proof (induction "is")
  case (Cons i "is")
  then have "unat phoff + unat i * unat phentsize < 2 ^ 64" by simp
  then have "unat i * unat phentsize < 2 ^ 64" by linarith
  with Cons show ?case
    by (fastforce simp: outcome_simps arith_outcome assms(1) Phdr_parse_total)
qed simp

lemma read_phdrs_length: "read_phdrs src phoff phentsize is = Ok phs \<Longrightarrow> length phs = length is"
  by (induction "is" arbitrary: phs) (auto simp: outcome_simps)

lemma classify_step_total: "is_power_of_two ps \<Longrightarrow> classify_step ps fsize i ph c \<noteq> Panic"
  by (auto simp: classify_step_def check_interp_def outcome_simps validate_load_total
      split: option.splits)

lemma classify_total: "is_power_of_two ps \<Longrightarrow> classify ps fsize es c \<noteq> Panic"
  by (induction es arbitrary: c) (auto simp: outcome_simps classify_step_total)

definition interp_ok :: "u64 option \<Rightarrow> Phdr \<Rightarrow> bool" where
  "interp_ok fsize ph \<longleftrightarrow> p_type ph = PT_INTERP \<and> 0 < unat (p_filesz ph)
     \<and> unat (p_filesz ph) \<le> 4096 \<and> in_file fsize ph"

lemma check_interp_Ok:
  "p_type ph = PT_INTERP \<Longrightarrow> check_interp ph fsize = Ok u \<Longrightarrow> interp_ok fsize ph"
  by (auto simp: check_interp_def interp_ok_def in_file_def outcome_simps arith_outcome
      INTERP_MAX_def word_less_nat_alt not_less unat_gt_0 split: option.splits)

lemma classify_step_Ok:
  assumes "is_power_of_two ps" and "classify_step ps fsize i ph c = Ok c'"
  shows "cl_loads c' = cl_loads c @ (if p_type ph = PT_LOAD then [i] else [])"
    and "p_type ph = PT_LOAD \<Longrightarrow> load_ok ps ph \<and> in_file fsize ph"
    and "cl_interp c' = (if p_type ph = PT_INTERP then Some ph else cl_interp c)"
    and "p_type ph = PT_INTERP \<Longrightarrow> interp_ok fsize ph"
  using assms
  by (auto simp: classify_step_def outcome_simps validate_load_Ok check_interp_Ok PT_LOAD_def
      PT_INTERP_def PT_PHDR_def PT_TLS_def PT_GNU_RELRO_def PT_GNU_STACK_def split: if_splits)

lemma classify_Ok:
  assumes "is_power_of_two ps" and "classify ps fsize es c = Ok c'"
  shows "cl_loads c' = cl_loads c @ map fst (filter (\<lambda>e. p_type (snd e) = PT_LOAD) es)"
    and "\<And>e. e \<in> set es \<Longrightarrow> p_type (snd e) = PT_LOAD \<Longrightarrow> load_ok ps (snd e) \<and> in_file fsize (snd e)"
    and "(\<And>ph. cl_interp c = Some ph \<Longrightarrow> interp_ok fsize ph) \<Longrightarrow> cl_interp c' = Some ph \<Longrightarrow> interp_ok fsize ph"
proof -
  show "cl_loads c' = cl_loads c @ map fst (filter (\<lambda>e. p_type (snd e) = PT_LOAD) es)"
    using assms by (induction es arbitrary: c) (auto simp: outcome_simps classify_step_Ok(1))
  show "load_ok ps (snd e) \<and> in_file fsize (snd e)" if "e \<in> set es" "p_type (snd e) = PT_LOAD" for e
    using that assms by (induction es arbitrary: c) (auto simp: outcome_simps dest: classify_step_Ok(2))
  show "interp_ok fsize ph" if "\<And>ph. cl_interp c = Some ph \<Longrightarrow> interp_ok fsize ph" "cl_interp c' = Some ph"
    using that assms
  proof (induction es arbitrary: c)
    case (Cons e es)
    then obtain c1 where c1: "classify_step ps fsize (fst e) (snd e) c = Ok c1"
        "classify ps fsize es c1 = Ok c'" by (auto simp: outcome_simps)
    from classify_step_Ok(3,4) [OF Cons.prems(3) c1(1)] Cons.prems(1)
    have "\<And>ph. cl_interp c1 = Some ph \<Longrightarrow> interp_ok fsize ph" by (auto split: if_splits)
    from Cons.IH [OF this Cons.prems(2,3) c1(2)] show ?case .
  qed simp
qed

section \<open>Segments do not share a page\<close>

lemma check_overlap_Ok:
  assumes "is_power_of_two ps" and "load_ok ps a" and "check_overlap ps a b = Ok u"
  shows "seg_hi ps a \<le> unat (p_vaddr b)"
proof (rule ccontr)
  assume less: "\<not> seg_hi ps a \<le> unat (p_vaddr b)"
  from assms(1,3) obtain e hi where ok: "padd (p_vaddr a) (p_memsz a) = (Ok e :: (u64, reject) result)"
      "align_up_or e ps (Malformed ''segment end overflows'') = Ok hi"
      "guard (p_vaddr b < hi \<and> p_vaddr b AND NOT (ps - 1) < hi AND NOT (ps - 1))
         (Malformed ''overlapping PT_LOAD segments'') = Ok u"
    by (auto simp: check_overlap_def rbind_Ok)
  then have e: "unat e = unat (p_vaddr a) + unat (p_memsz a)"
    and hi: "unat hi = ceil_to (unat e) (unat ps)"
    using assms(1) by (simp_all add: arith_outcome)
  have "unat (hi AND NOT (ps - 1)) = unat hi"
    using assms(1) hi by (simp add: unat_and_high)
  moreover have "unat (p_vaddr b AND NOT (ps - 1)) \<le> unat (p_vaddr b)"
    using assms(1) by (simp add: unat_and_high)
  moreover have "unat (p_vaddr b) < unat hi"
    using less e hi by (simp add: seg_hi_def)
  ultimately show False using ok(3) by (simp add: word_less_nat_alt outcome_simps)
qed

lemma check_overlap_total:
  "is_power_of_two ps \<Longrightarrow> load_ok ps a \<Longrightarrow> check_overlap ps a b \<noteq> Panic"
  by (auto simp: check_overlap_def outcome_simps arith_outcome load_ok_def)

abbreviation page_order :: "u64 \<Rightarrow> Phdr list \<Rightarrow> nat \<Rightarrow> nat \<Rightarrow> bool" where
  "page_order ps phs i j \<equiv> seg_hi ps (phs ! i) \<le> unat (p_vaddr (phs ! j))"

lemma check_overlaps_Ok:
  assumes "is_power_of_two ps" and "\<forall>i\<in>set is. i < length phs \<and> load_ok ps (phs ! i)"
    and "check_overlaps ps phs is = Ok u"
  shows "sorted_wrt (page_order ps phs) is"
  using assms
proof (induction ps phs "is" rule: check_overlaps.induct)
  case (1 ps phs i j "is")
  then have ij: "page_order ps phs i j" and rest: "sorted_wrt (page_order ps phs) (j # is)"
    by (auto simp: outcome_simps dest: check_overlap_Ok)
  have "page_order ps phs i k" if "k \<in> set is" for k
    using that ij rest vaddr_le_seg_hi [OF "1.prems"(1), of "phs ! j"] by (auto dest!: bspec)
  with ij rest show ?case by auto
qed auto

lemma check_overlaps_total:
  "is_power_of_two ps \<Longrightarrow> \<forall>i\<in>set is. i < length phs \<and> load_ok ps (phs ! i) \<Longrightarrow>
     check_overlaps ps phs is \<noteq> Panic"
  by (induction ps phs "is" rule: check_overlaps.induct) (auto simp: outcome_simps check_overlap_total)

section \<open>The invariant of a parsed image\<close>

definition wf_image :: "u64 \<Rightarrow> Image \<Rightarrow> bool" where
  "wf_image ps img \<longleftrightarrow>
     is_power_of_two ps
     \<and> loads img \<noteq> [] \<and> distinct (loads img)
     \<and> set (loads img) = {i. i < length (phdrs img) \<and> p_type (phdrs img ! i) = PT_LOAD}
     \<and> (\<forall>i\<in>set (loads img). load_ok ps (phdrs img ! i))
     \<and> sorted_wrt (page_order ps (phdrs img)) (loads img)"

lemma wf_imageD:
  assumes "wf_image ps img"
  shows "is_power_of_two ps" and "loads img \<noteq> []"
    and "i \<in> set (loads img) \<Longrightarrow> i < length (phdrs img)"
    and "i \<in> set (loads img) \<Longrightarrow> load_ok ps (phdrs img ! i)"
  using assms by (auto simp: wf_image_def)

lemma map_fst_enumerate_filter:
  "map fst (filter (\<lambda>e. P (snd e)) (enumerate n xs)) = filter (\<lambda>i. P (xs ! (i - n))) [n..<n + length xs]"
proof -
  have e: "enumerate n xs = map (\<lambda>i. (i, xs ! (i - n))) [n..<n + length xs]"
    by (rule nth_equalityI) (auto simp: nth_enumerate_eq)
  show ?thesis unfolding e by (simp add: filter_map o_def)
qed

text \<open>Everything a successful parse has established on the way.\<close>

lemma Image_parse_stages:
  assumes "is_power_of_two ps" and "Image_parse arch heap src ps = Ok img"
  obtains raw phs c where
    "read_exact_at src 0 EHDR_SIZE = Ok raw" "Ehdr_parse raw = Ok (ehdr img)"
    "check_ident arch (ehdr img) = Ok ()" "check_phtab (ehdr img) (src_size src) = Ok ()"
    "read_phdrs src (e_phoff (ehdr img)) (ucast (e_phentsize (ehdr img)))
       (map of_nat [0..<unat (e_phnum (ehdr img))]) = Ok (phdrs img)"
    "classify ps (src_size src) (enumerate 0 (phdrs img)) classify_init = Ok c"
    "cl_loads c \<noteq> []" "loads img = sort_key (\<lambda>i. p_vaddr (phdrs img ! i)) (cl_loads c)"
    "check_overlaps ps (phdrs img) (loads img) = Ok ()"
    "interp img = cl_interp c" "phdr_seg img = cl_phdr_seg c" "exec_stack img = cl_exec_stack c"
  using assms(2) unfolding Image_parse_def Let_def
  by (auto simp: outcome_simps)

lemma Image_parse_loads:
  assumes "is_power_of_two ps" and "Image_parse arch heap src ps = Ok img"
  shows "set (loads img) = {i. i < length (phdrs img) \<and> p_type (phdrs img ! i) = PT_LOAD}"
    and "distinct (loads img)"
    and "i \<in> set (loads img) \<Longrightarrow> load_ok ps (phdrs img ! i) \<and> in_file (src_size src) (phdrs img ! i)"
    and "interp img = Some ph \<Longrightarrow> interp_ok (src_size src) ph"
proof -
  obtain c where c: "classify ps (src_size src) (enumerate 0 (phdrs img)) classify_init = Ok c"
    "loads img = sort_key (\<lambda>i. p_vaddr (phdrs img ! i)) (cl_loads c)" "interp img = cl_interp c"
    using Image_parse_stages [OF assms] by metis
  have cl: "cl_loads c = filter (\<lambda>i. p_type (phdrs img ! i) = PT_LOAD) [0..<length (phdrs img)]"
    using classify_Ok(1) [OF assms(1) c(1)] map_fst_enumerate_filter [of "\<lambda>ph. p_type ph = PT_LOAD" 0 "phdrs img"]
    by (simp add: classify_init_def)
  show *: "set (loads img) = {i. i < length (phdrs img) \<and> p_type (phdrs img ! i) = PT_LOAD}"
    using cl c(2) by auto
  show "distinct (loads img)" using cl c(2) by simp
  show "load_ok ps (phdrs img ! i) \<and> in_file (src_size src) (phdrs img ! i)" if "i \<in> set (loads img)"
    using classify_Ok(2) [OF assms(1) c(1), of "(i, phdrs img ! i)"] that *
    by (auto simp: in_set_enumerate_eq)
  show "interp_ok (src_size src) ph" if "interp img = Some ph"
    using classify_Ok(3) [OF assms(1) c(1)] that c(3) by (simp add: classify_init_def)
qed

lemma Image_parse_wf:
  assumes "is_power_of_two ps" and "Image_parse arch heap src ps = Ok img"
  shows "wf_image ps img"
proof -
  have "loads img \<noteq> []" "check_overlaps ps (phdrs img) (loads img) = Ok ()"
    using Image_parse_stages [OF assms] by (metis set_empty set_sort)+
  moreover have "\<forall>i\<in>set (loads img). i < length (phdrs img) \<and> load_ok ps (phdrs img ! i)"
    using Image_parse_loads [OF assms] by auto
  ultimately show ?thesis
    using assms Image_parse_loads [OF assms] check_overlaps_Ok by (auto simp: wf_image_def)
qed

section \<open>Clients of a source\<close>

lemma phtab_index_fits:
  assumes "check_phtab eh fsize = Ok u" and "i \<in> set (map of_nat [0..<unat (e_phnum eh)])"
  shows "unat (e_phoff eh) + unat (i :: u64) * unat (ucast (e_phentsize eh) :: u64) < 2 ^ 64"
proof -
  from assms(2) obtain k where k: "k < unat (e_phnum eh)" "i = of_nat k" by auto
  moreover have "k < 2 ^ 64" using k check_phtab_Ok(2) [OF assms(1)] by simp
  ultimately have "unat i \<le> unat (e_phnum eh)" by (simp add: unat_of_nat)
  then have "unat i * unat (e_phentsize eh) \<le> unat (e_phnum eh) * unat (e_phentsize eh)"
    by (rule mult_le_mono1)
  with check_phtab_Ok(4) [OF assms(1)] show ?thesis
    unfolding unat_ucast_u16 by linarith
qed

context image_reader
begin

lemma parse_total:
  assumes "is_power_of_two ps"
  shows "Image_parse arch heap src ps \<noteq> Panic"
proof
  assume panic: "Image_parse arch heap src ps = Panic"
  then obtain raw eh where raw: "read_exact_at src 0 EHDR_SIZE = Ok raw" "Ehdr_parse raw = Ok eh"
    by (auto simp: Image_parse_def outcome_simps read_total Ehdr_parse_total)
  then have "length (ident eh) = EI_NIDENT"
    using Ehdr_parse_ident [OF raw(2)] by (simp add: elf_const_defs)
  moreover have "read_phdrs src (e_phoff eh) (ucast (e_phentsize eh))
      (map of_nat [0..<unat (e_phnum eh)]) \<noteq> Panic" if "check_phtab eh (src_size src) = Ok ()"
    using that by (intro read_phdrs_total read_total phtab_index_fits)
  ultimately obtain phs c where ph: "check_phtab eh (src_size src) = Ok ()"
      "read_phdrs src (e_phoff eh) (ucast (e_phentsize eh)) (map of_nat [0..<unat (e_phnum eh)]) = Ok phs"
      "classify ps (src_size src) (enumerate 0 phs) classify_init = Ok c"
      "check_overlaps ps phs (sort_key (\<lambda>i. p_vaddr (phs ! i)) (cl_loads c)) = Panic"
    using panic raw unfolding Image_parse_def Let_def
    by (auto simp: outcome_simps check_ident_total check_phtab_total classify_total [OF assms])
  have "\<forall>i\<in>set (cl_loads c). i < length phs \<and> load_ok ps (phs ! i)"
    using classify_Ok(1,2) [OF assms ph(3)] by (auto simp: classify_init_def in_set_enumerate_eq)
  then show False using ph(4) check_overlaps_total [OF assms] by simp
qed

lemma interp_path_Ok:
  assumes "interp_path heap img src = Ok p"
  obtains ph where "interp img = Some ph" and "p \<noteq> []" and "0 \<notin> set p"
    and "length p < unat (p_filesz ph)"
    and "\<forall>i < length p. p ! i = content (unat (p_offset ph) + i)"
    and "content (unat (p_offset ph) + length p) = 0"
    and "\<exists>buf. read_exact_at src (p_offset ph) (unat (p_filesz ph)) = Ok buf"
proof -
  from assms obtain ph buf n where ph: "interp img = Some ph"
    and buf: "read_exact_at src (p_offset ph) (unat (p_filesz ph)) = Ok buf"
    and n: "position (\<lambda>b. b = 0) buf = Some n" "n \<noteq> 0" "p = take n buf"
    by (auto simp: interp_path_def outcome_simps Let_def split: option.splits if_splits)
  have pos: "n < length buf" "buf ! n = 0" "0 \<notin> set (take n buf)"
    using position_Some [OF n(1)] by auto
  show thesis
  proof (rule that [OF ph])
    show "p \<noteq> []" "0 \<notin> set p" using pos n by auto
    show "\<exists>buf. read_exact_at src (p_offset ph) (unat (p_filesz ph)) = Ok buf" using buf by blast
    show "length p < unat (p_filesz ph)"
      "content (unat (p_offset ph) + length p) = 0"
      "\<forall>i < length p. p ! i = content (unat (p_offset ph) + i)"
      using pos n read_length [OF buf] read_content [OF buf] by (auto simp: min_def)
  qed
qed

end

section \<open>The span of an image and its alignment\<close>

lemma wf_image_sorted_nth:
  assumes "wf_image ps img" and "i < j" and "j < length (loads img)"
  shows "seg_hi ps (phdrs img ! (loads img ! i)) \<le> unat (p_vaddr (phdrs img ! (loads img ! j)))"
  using assms by (auto simp: wf_image_def sorted_wrt_iff_nth_less)

text \<open>Lowest and highest page-aligned address of an image, as linked.\<close>

definition img_lo :: "u64 \<Rightarrow> Image \<Rightarrow> nat" where
  "img_lo ps img = seg_lo ps (phdrs img ! hd (loads img))"

definition img_hi :: "u64 \<Rightarrow> Image \<Rightarrow> nat" where
  "img_hi ps img = seg_hi ps (phdrs img ! last (loads img))"

lemma img_span_covers:
  assumes wf: "wf_image ps img" and i: "i \<in> set (loads img)"
  shows "img_lo ps img \<le> seg_lo ps (phdrs img ! i)" and "seg_hi ps (phdrs img ! i) \<le> img_hi ps img"
proof -
  note pow = wf_imageD(1) [OF wf] and ne = wf_imageD(2) [OF wf]
  obtain k where k: "k < length (loads img)" "i = loads img ! k"
    using i by (metis in_set_conv_nth)
  show "img_lo ps img \<le> seg_lo ps (phdrs img ! i)"
  proof (cases "k = 0")
    case True
    then show ?thesis using k ne by (simp add: img_lo_def hd_conv_nth)
  next
    case False
    then have "seg_hi ps (phdrs img ! hd (loads img)) \<le> unat (p_vaddr (phdrs img ! i))"
      using wf_image_sorted_nth [OF wf, of 0 k] k ne by (simp add: hd_conv_nth)
    then have "seg_hi ps (phdrs img ! hd (loads img)) \<le> seg_lo ps (phdrs img ! i)"
      unfolding seg_lo_def by (intro floor_to_greatest) (simp_all add: seg_hi_def)
    with seg_lo_le_hi [OF pow] show ?thesis by (auto simp: img_lo_def intro: order_trans)
  qed
  show "seg_hi ps (phdrs img ! i) \<le> img_hi ps img"
  proof (cases "k = length (loads img) - 1")
    case True
    then show ?thesis using k ne by (simp add: img_hi_def last_conv_nth)
  next
    case False
    then have "seg_hi ps (phdrs img ! i) \<le> unat (p_vaddr (phdrs img ! last (loads img)))"
      using wf_image_sorted_nth [OF wf, of k "length (loads img) - 1"] k ne by (simp add: last_conv_nth)
    with vaddr_le_seg_hi [OF pow, of "phdrs img ! last (loads img)"] show ?thesis
      by (simp add: img_hi_def)
  qed
qed

lemma va_span_wf:
  assumes wf: "wf_image ps img"
  shows "va_span img ps = Ok (lo, hi) \<longleftrightarrow>
     unat (p_vaddr (phdrs img ! last (loads img))) + unat (p_memsz (phdrs img ! last (loads img)))
       + (unat ps - 1) < 2 ^ 64
     \<and> unat lo = img_lo ps img \<and> unat hi = img_hi ps img"
    and "va_span img ps \<noteq> Panic"
    and "va_span img ps = Err e \<Longrightarrow> e = ENOEXEC"
proof -
  note pow = wf_imageD(1) [OF wf] and ne = wf_imageD(2) [OF wf]
  let ?f = "phdrs img ! hd (loads img)" and ?l = "phdrs img ! last (loads img)"
  have f: "hd (loads img) < length (phdrs img)" and l: "last (loads img) < length (phdrs img)"
    using wf_imageD(3) [OF wf] ne by auto
  have lok: "unat (p_vaddr ?l) + unat (p_memsz ?l) < 2 ^ 64"
    using wf_imageD(4) [OF wf, of "last (loads img)"] ne by (simp add: load_ok_def)
  then have eq: "va_span img ps =
     rbind (align_up_or (p_vaddr ?l + p_memsz ?l) ps ENOEXEC) (\<lambda>hi. Ok (p_vaddr ?f AND NOT (ps - 1), hi))"
    using f l ne pow by (simp add: va_span_def hd_conv_nth padd_ok)
  show "va_span img ps = Ok (lo, hi) \<longleftrightarrow>
     unat (p_vaddr ?l) + unat (p_memsz ?l) + (unat ps - 1) < 2 ^ 64
     \<and> unat lo = img_lo ps img \<and> unat hi = img_hi ps img"
    unfolding eq using pow lok
    by (auto simp: outcome_simps arith_outcome unat_add_ok img_lo_def img_hi_def seg_lo_def seg_hi_def
        unat_and_high intro: unat_eqI)
  show "va_span img ps \<noteq> Panic" "va_span img ps = Err e \<Longrightarrow> e = ENOEXEC"
    unfolding eq using pow by (auto simp: outcome_simps arith_outcome)
qed

lemma load_align_from_Ok:
  assumes "\<forall>i\<in>set is. i < length phs" and "is_power_of_two a"
  shows "\<exists>b. load_align_from phs is a = Ok b \<and> is_power_of_two b \<and> a \<le> b
    \<and> (\<forall>i\<in>set is. is_power_of_two (p_align (phs ! i)) \<longrightarrow> p_align (phs ! i) \<le> b)
    \<and> (b = a \<or> b \<in> (\<lambda>i. p_align (phs ! i)) ` set is)"
  using assms
proof (induction "is" arbitrary: a)
  case (Cons i "is")
  define a' where "a' = (if a < p_align (phs ! i) \<and> is_power_of_two (p_align (phs ! i))
    then p_align (phs ! i) else a)"
  have "is_power_of_two a'" using Cons.prems by (simp add: a'_def)
  with Cons.IH [of a'] Cons.prems obtain b where b: "load_align_from phs is a' = Ok b"
      "is_power_of_two b" "a' \<le> b" "b = a' \<or> b \<in> (\<lambda>i. p_align (phs ! i)) ` set is"
      "\<forall>i\<in>set is. is_power_of_two (p_align (phs ! i)) \<longrightarrow> p_align (phs ! i) \<le> b"
    by auto
  have "a \<le> a'" "is_power_of_two (p_align (phs ! i)) \<longrightarrow> p_align (phs ! i) \<le> a'"
    by (auto simp: a'_def)
  moreover have "load_align_from phs (i # is) a = load_align_from phs is a'"
    using Cons.prems by (simp add: a'_def)
  moreover have "a' = a \<or> a' = p_align (phs ! i)" by (simp add: a'_def)
  ultimately show ?case using b by (intro exI [of _ b]) (auto intro: order_trans)
qed simp

lemma load_align_wf:
  assumes "wf_image ps img"
  obtains b where "load_align img ps = Ok b" and "is_power_of_two b" and "ps \<le> b"
    and "\<forall>i\<in>set (loads img). p_align (phdrs img ! i) \<le> b"
proof -
  have "\<forall>i\<in>set (loads img). i < length (phdrs img)" using wf_imageD(3) [OF assms] by blast
  from load_align_from_Ok [OF this wf_imageD(1) [OF assms]]
  obtain b where b: "load_align img ps = Ok b" "is_power_of_two b" "ps \<le> b"
    "\<forall>i\<in>set (loads img). is_power_of_two (p_align (phdrs img ! i)) \<longrightarrow> p_align (phdrs img ! i) \<le> b"
    by (auto simp: load_align_def)
  have "p_align (phdrs img ! i) \<le> b" if "i \<in> set (loads img)" for i
    using b(4) that wf_imageD(4) [OF assms that] by (cases "p_align (phdrs img ! i) = 0") (auto simp: load_ok_def)
  with b(1-3) show thesis by (intro that) auto
qed

lemma sample_wf: "wf_image 64 sample_image"
  using Image_parse_wf [OF power_of_two_samples(1) sample_parse] by blast

section \<open>Properties\<close>

text \<open>
  C5. Every image the parser accepts is well formed: it has a loadable segment, its loadable
  segments are exactly the \<open>PT_LOAD\<close> headers, each has \<open>p_filesz\<close> at most \<open>p_memsz\<close>, a power of
  two or zero as alignment, an end that does not overflow in memory or in the file, lies inside
  the file when its size is known and is page-congruent; and the segments are listed in
  ascending order without any two of them sharing a page.
\<close>

theorem parsed_image_well_formed:
  assumes "is_power_of_two page_size" and "Image_parse arch heap src page_size = Ok img"
  shows "wf_image page_size img \<and>
    (\<forall>i\<in>set (loads img). in_file (src_size src) (phdrs img ! i)) \<and>
    (\<forall>ph. interp img = Some ph \<longrightarrow> interp_ok (src_size src) ph)"
  using Image_parse_wf [OF assms] Image_parse_loads [OF assms] by blast

theorem parsed_image_well_formed_witness:
  "wf_image 64 sample_image \<and> unat (p_offset (phdrs sample_image ! 1)) + unat (p_filesz (phdrs sample_image ! 1)) \<le> 250"
proof -
  have "1 \<in> set (loads sample_image)" by (simp add: sample_image_def)
  with parsed_image_well_formed [OF power_of_two_samples(1) sample_parse] show ?thesis
    by (auto simp: in_file_def slice_source_def)
qed

text \<open>
  C6. The parser never panics, whatever bytes it is given: no header value makes its arithmetic
  overflow or its indexing run out of range, for any page size that is a power of two.
\<close>

theorem Image_parse_no_panic:
  assumes "is_power_of_two page_size"
  shows "Image_parse arch heap (slice_source data) page_size \<noteq> Panic"
  using assms by (rule slice_reader.parse_total)

theorem Image_parse_no_panic_witness: "Image_parse OtherArch any_heap (slice_source []) 64 \<noteq> Panic"
  using power_of_two_samples(1) by (rule Image_parse_no_panic)

text \<open>
  C33. The interpreter path is what the file holds at \<open>PT_INTERP\<close> up to its first NUL: a result is
  never empty, holds no NUL, is strictly shorter than the segment, agrees with the file byte by
  byte, and is followed there by a NUL.
\<close>

theorem interp_path_reads_the_file:
  assumes "interp_path heap img (slice_source data) = Ok p"
  shows "\<exists>ph. interp img = Some ph \<and> p \<noteq> [] \<and> 0 \<notin> set p \<and> length p < unat (p_filesz ph)
    \<and> unat (p_offset ph) + unat (p_filesz ph) \<le> length data
    \<and> (\<forall>i < length p. p ! i = data ! (unat (p_offset ph) + i))
    \<and> data ! (unat (p_offset ph) + length p) = 0"
proof -
  from slice_reader.interp_path_Ok [OF assms] obtain ph where ph: "interp img = Some ph"
      "p \<noteq> []" "0 \<notin> set p" "length p < unat (p_filesz ph)"
      "\<forall>i < length p. p ! i = data ! (unat (p_offset ph) + i)"
      "data ! (unat (p_offset ph) + length p) = 0"
      "\<exists>buf. read_exact_at (slice_source data) (p_offset ph) (unat (p_filesz ph)) = Ok buf"
    by metis
  from ph(7) have "unat (p_offset ph) + unat (p_filesz ph) \<le> length data"
    by (auto simp: slice_source_def split: if_splits)
  with ph show ?thesis by blast
qed

theorem interp_path_reads_the_file_witness:
  "\<exists>ph. interp sample_image = Some ph \<and> 6 < unat (p_filesz ph)
    \<and> sample_elf ! (unat (p_offset ph) + 6) = 0"
proof -
  have "interp_path any_heap sample_image (slice_source sample_elf)
      = Ok [0x2f, 0x6c, 0x64, 0x2e, 0x73, 0x6f]"
    by (simp add: interp_path_def sample_image_def sample_phdrs_def sample_phdr_def any_heap_def
        slice_source_def sample_read_interp)
  from interp_path_reads_the_file [OF this] show ?thesis by (auto simp: numeral_eq_Suc)
qed



end
