(* ===== verification/Layout_Facts.thy ===== *)
theory Layout_Facts
  imports Layout Elf_Facts
begin

text \<open>
  What the planner guarantees. A plan of a well-formed image satisfies \<open>plan_ok\<close>, which reads
  every field on natural numbers: where each piece of each segment lies and which file bytes it
  shows. From it follow the geometric facts the loader relies on: the pieces lie inside the
  reservation, segments occupy disjoint page ranges, and the byte at \<open>p_offset\<close> of the file lands
  at \<open>p_vaddr\<close> plus the bias.
\<close>

section \<open>Rounding that fits the address space\<close>

lemma ceil_fits_iff:
  assumes "is_power_of_two a"
  shows "v + (unat a - 1) < 2 ^ 64 \<longleftrightarrow> ceil_to v (unat a) < 2 ^ 64"
proof
  assume "v + (unat a - 1) < 2 ^ 64"
  with assms show "ceil_to v (unat a) < 2 ^ 64" by (rule ceil_fits)
next
  assume lt: "ceil_to v (unat a) < 2 ^ 64"
  have pos: "0 < unat a" using assms by (rule power_of_two_pos)
  have "unat a dvd 2 ^ 64 - ceil_to v (unat a)"
    using power_of_two_dvd_word [OF assms] by (rule dvd_diff_nat) simp
  then have "unat a \<le> 2 ^ 64 - ceil_to v (unat a)" using lt by (intro dvd_imp_le) simp_all
  moreover have "v \<le> ceil_to v (unat a)" using pos by (rule ceil_to_ge)
  ultimately show "v + (unat a - 1) < 2 ^ 64" using lt pos by linarith
qed

lemma align_up_or_ceil:
  assumes "is_power_of_two a"
  shows "align_up_or v a e = Ok w \<longleftrightarrow>
      ceil_to (unat v) (unat a) < 2 ^ 64 \<and> unat w = ceil_to (unat v) (unat a)"
    and "align_up_or v a e = Err f \<longleftrightarrow> 2 ^ 64 \<le> ceil_to (unat v) (unat a) \<and> f = e"
  using align_up_or_iff [OF assms, of v e] ceil_fits_iff [OF assms, of "unat v"]
  by (metis, metis linorder_not_less)

lemma unat_ex: "n < 2 ^ 64 \<Longrightarrow> \<exists>w :: u64. unat w = n"
  by (rule exI [of _ "of_nat n"]) (simp add: unat_of_nat)

section \<open>Protection bits\<close>

lemma prot_of_bits:
  "prot_of ph AND PROT_READ \<noteq> 0 \<longleftrightarrow> is_read ph"
  "prot_of ph AND PROT_WRITE \<noteq> 0 \<longleftrightarrow> is_write ph"
  "prot_of ph AND PROT_EXEC \<noteq> 0 \<longleftrightarrow> is_exec ph"
  by (auto simp: prot_of_def Let_def prot_defs)

lemma no_write_bit: "prot_of ph AND PROT_WRITE = 0 \<longleftrightarrow> \<not> is_write ph"
  using prot_of_bits(2) by blast

section \<open>One segment\<close>

text \<open>Where a segment starts, where its file data ends, where it ends, once biased.\<close>

definition sv :: "u64 \<Rightarrow> Phdr \<Rightarrow> nat" where
  "sv b ph = unat (p_vaddr ph) + unat b"

definition file_pages_end :: "u64 \<Rightarrow> u64 \<Rightarrow> Phdr \<Rightarrow> nat" where
  "file_pages_end ps b ph =
     (if p_filesz ph = 0 then floor_to (sv b ph) (unat ps)
      else ceil_to (sv b ph + unat (p_filesz ph)) (unat ps))"

definition seg_end :: "u64 \<Rightarrow> u64 \<Rightarrow> Phdr \<Rightarrow> nat" where
  "seg_end ps b ph = ceil_to (sv b ph + unat (p_memsz ph)) (unat ps)"

definition seg_plan_ok :: "u64 \<Rightarrow> u64 \<Rightarrow> nat \<Rightarrow> Phdr \<Rightarrow> SegmentPlan \<Rightarrow> bool" where
  "seg_plan_ok ps b i ph sp \<longleftrightarrow>
     idx sp = i \<and> prot sp = prot_of ph
     \<and> (case file_map sp of
          None \<Rightarrow> p_filesz ph = 0
        | Some f \<Rightarrow> p_filesz ph \<noteq> 0
            \<and> unat (fm_addr f) = floor_to (sv b ph) (unat ps)
            \<and> unat (fm_addr f) + unat (fm_len f) = file_pages_end ps b ph
            \<and> unat (fm_off f) + sv b ph mod unat ps = unat (p_offset ph))
     \<and> (case zero_map sp of
          None \<Rightarrow> p_filesz ph = 0 \<or> file_pages_end ps b ph = sv b ph + unat (p_filesz ph)
        | Some z \<Rightarrow> p_filesz ph \<noteq> 0 \<and> 0 < unat (am_len z)
            \<and> unat (am_addr z) = sv b ph + unat (p_filesz ph)
            \<and> unat (am_addr z) + unat (am_len z) = file_pages_end ps b ph)
     \<and> (case anon_map sp of
          None \<Rightarrow> file_pages_end ps b ph = seg_end ps b ph
        | Some a \<Rightarrow> 0 < unat (am_len a) \<and> unat (am_addr a) = file_pages_end ps b ph
            \<and> unat (am_addr a) + unat (am_len a) = seg_end ps b ph)
     \<and> (needs_write_window sp \<longleftrightarrow> zero_map sp \<noteq> None \<and> \<not> is_write ph)"

lemma file_pages_end_le:
  assumes "is_power_of_two ps" and "load_ok ps ph"
  shows "floor_to (sv b ph) (unat ps) \<le> file_pages_end ps b ph"
    and "file_pages_end ps b ph \<le> seg_end ps b ph"
proof -
  have pos: "0 < unat ps" using assms(1) by (rule power_of_two_pos)
  have le: "sv b ph \<le> ceil_to (sv b ph + n) (unat ps)" for n
    using ceil_to_ge [OF pos, of "sv b ph + n"] by simp
  show "floor_to (sv b ph) (unat ps) \<le> file_pages_end ps b ph"
    using order_trans [OF floor_to_le le] by (simp add: file_pages_end_def)
  show "file_pages_end ps b ph \<le> seg_end ps b ph"
    using order_trans [OF floor_to_le le] assms(2)
    by (auto simp: file_pages_end_def seg_end_def load_ok_def intro!: ceil_to_mono)
qed

lemma congruent_offset:
  assumes "load_ok ps ph" and "p_filesz ph \<noteq> 0" and "unat ps dvd unat b"
  shows "sv b ph mod unat ps = unat (p_offset ph) mod unat ps"
  using assms by (auto simp: load_ok_def sv_def mod_add_eq elim!: dvdE)

text \<open>A loadable segment whose biased end fits the address space is planned as specified.\<close>

lemma plan_segment_spec:
  assumes pow: "is_power_of_two ps" and ok: "load_ok ps ph" and dvd: "unat ps dvd unat b"
    and fits: "seg_end ps b ph < 2 ^ 64"
  shows "\<exists>sp. plan_segment ps b i ph = Ok sp \<and> seg_plan_ok ps b i ph sp"
proof -
  let ?v = "sv b ph" and ?p = "unat ps"
  note le = file_pages_end_le [OF pow ok, of b] and pos = power_of_two_pos [OF pow]
  have end_le: "?v + unat (p_memsz ph) \<le> seg_end ps b ph"
    by (simp add: seg_end_def ceil_to_ge pos)
  define va where "va = p_vaddr ph + b"
  have va: "checked_add (p_vaddr ph) b = Some va" "unat va = ?v"
    using fits end_le by (auto simp: checked_add_def va_def sv_def unat_add_ok)
  define ms where "ms = va AND NOT (ps - 1)"
  have ms: "align_down va ps = (Ok ms :: (u64, error) result)" "unat ms = floor_to ?v ?p"
    using pow va by (simp_all add: ms_def unat_and_high)
  define fd where "fd = va - ms"
  have fd: "psub va ms = (Ok fd :: (u64, error) result)" "unat fd = ?v mod ?p"
    using va ms by (simp_all add: fd_def psub_ok unat_sub_ok floor_to_eq)
  have me1: "padd va (p_memsz ph) = (Ok (va + p_memsz ph) :: (u64, error) result)"
      "unat (va + p_memsz ph) = ?v + unat (p_memsz ph)"
    using va fits end_le by (auto simp: padd_ok unat_add_ok)
  obtain me where me: "align_up_or (va + p_memsz ph) ps ENOMEM = Ok me" "unat me = seg_end ps b ph"
    using align_up_or_ceil(1) [OF pow] me1(2) fits unat_ex [OF fits] by (metis seg_end_def)
  show ?thesis
  proof (cases "p_filesz ph = 0")
    case True
    then have mid: "file_pages_end ps b ph = unat ms" using ms by (simp add: file_pages_end_def)
    with True va ms fd me1 me le show ?thesis
      by (auto simp: plan_segment_def seg_plan_ok_def no_write_bit word_less_nat_alt psub_ok
          unat_sub_ok split: if_splits)
  next
    case False
    have fe1: "padd va (p_filesz ph) = (Ok (va + p_filesz ph) :: (u64, error) result)"
        "unat (va + p_filesz ph) = ?v + unat (p_filesz ph)"
      using va fits end_le ok by (auto simp: load_ok_def padd_ok unat_add_ok)
    have mid: "file_pages_end ps b ph = ceil_to (unat (va + p_filesz ph)) ?p"
      using False fe1 by (simp add: file_pages_end_def)
    then have "ceil_to (unat (va + p_filesz ph)) ?p < 2 ^ 64" using le fits by linarith
    then obtain fm where fm: "align_up_or (va + p_filesz ph) ps ENOMEM = Ok fm"
        "unat fm = file_pages_end ps b ph"
      using align_up_or_ceil(1) [OF pow] unat_ex mid by metis
    have fe_le: "unat (va + p_filesz ph) \<le> unat fm"
      unfolding fm(2) mid by (rule ceil_to_ge [OF pos])
    have flen: "psub fm ms = (Ok (fm - ms) :: (u64, error) result)" "unat (fm - ms) = unat fm - unat ms"
      using le fm ms by (simp_all add: psub_ok unat_sub_ok)
    have "unat fd = unat (p_offset ph) mod ?p" using congruent_offset [OF ok False dvd] fd by simp
    then have "unat fd \<le> unat (p_offset ph)" by simp
    then have off: "psub (p_offset ph) fd = (Ok (p_offset ph - fd) :: (u64, error) result)"
        "unat (p_offset ph - fd) = unat (p_offset ph) - unat fd"
      by (simp_all add: psub_ok unat_sub_ok)
    show ?thesis
      using False va ms fd me1 me le fe1 fm fe_le flen off \<open>unat fd \<le> unat (p_offset ph)\<close>
      by (auto simp: plan_segment_def seg_plan_ok_def no_write_bit word_less_nat_alt psub_ok
          unat_sub_ok unat_gt_0 word_gt_0 split: if_splits)
  qed
qed

section \<open>The whole plan\<close>

lemma seg_end_biased:
  "unat ps dvd unat b \<Longrightarrow> seg_end ps b ph = seg_hi ps ph + unat b"
  using ceil_to_add [of "unat ps" "unat b" "unat (p_vaddr ph) + unat (p_memsz ph)"]
  by (simp add: seg_end_def sv_def seg_hi_def ac_simps)

lemma seg_start_biased:
  "unat ps dvd unat b \<Longrightarrow> floor_to (sv b ph) (unat ps) = seg_lo ps ph + unat b"
  by (simp add: sv_def seg_lo_def floor_to_add)

abbreviation seg_plans_ok :: "u64 \<Rightarrow> u64 \<Rightarrow> Phdr list \<Rightarrow> nat list \<Rightarrow> SegmentPlan list \<Rightarrow> bool" where
  "seg_plans_ok ps b phs \<equiv> list_all2 (\<lambda>i sp. seg_plan_ok ps b i (phs ! i) sp)"

lemma plan_segments_spec:
  assumes "is_power_of_two ps" and "unat ps dvd unat b"
    and "\<forall>i\<in>set is. i < length phs \<and> load_ok ps (phs ! i) \<and> seg_end ps b (phs ! i) < 2 ^ 64"
  shows "\<exists>segs. plan_segments ps b phs is = Ok segs \<and> seg_plans_ok ps b phs is segs"
  using assms(3)
proof (induction "is")
  case (Cons i "is")
  then obtain sp segs where "plan_segment ps b i (phs ! i) = Ok sp" "seg_plan_ok ps b i (phs ! i) sp"
      "plan_segments ps b phs is = Ok segs" "seg_plans_ok ps b phs is segs"
    using plan_segment_spec [OF assms(1) _ assms(2)] by fastforce
  with Cons.prems show ?case by simp
qed simp

lemma power_of_two_MAX: "is_power_of_two MAX_SEG_ALIGN"
  unfolding is_power_of_two_iff MAX_SEG_ALIGN_def by (rule exI [of _ 21]) simp

lemma seg_align_wf:
  assumes "wf_image ps img"
  obtains al where "seg_align img ps = Ok al" and "is_power_of_two al" and "unat ps \<le> unat al"
    and "unat ps dvd unat al"
proof -
  obtain b where b: "load_align img ps = Ok b" "is_power_of_two b"
    using load_align_wf [OF assms] by metis
  define al where "al = max (min b MAX_SEG_ALIGN) ps"
  have "is_power_of_two al"
    using b(2) power_of_two_MAX wf_imageD(1) [OF assms] by (simp add: al_def max_def min_def)
  moreover have "unat ps \<le> unat al" by (simp add: al_def flip: word_le_nat_alt)
  ultimately show thesis using that [of al] b power_of_two_dvd [OF wf_imageD(1) [OF assms]]
    by (simp add: seg_align_def al_def)
qed

definition plan_ok :: "u64 \<Rightarrow> Image \<Rightarrow> LoadPlan \<Rightarrow> bool" where
  "plan_ok ps img p \<longleftrightarrow>
     unat ps dvd unat (bias p)
     \<and> unat (base p) = img_lo ps img + unat (bias p)
     \<and> unat (end_addr p) = img_hi ps img + unat (bias p)
     \<and> unat (entry p) = unat (e_entry (ehdr img)) + unat (bias p)
     \<and> is_power_of_two (align p) \<and> unat ps dvd unat (align p)
     \<and> seg_plans_ok ps (bias p) (phdrs img) (loads img) (segments p)"

text \<open>What the placement says about the reservation.\<close>

definition placed_ok :: "u64 \<Rightarrow> Image \<Rightarrow> Placement \<Rightarrow> LoadPlan \<Rightarrow> bool" where
  "placed_ok ps img placement p \<longleftrightarrow>
     (case placement of
        Fixed \<Rightarrow> bias p = 0 \<and> unat (reserve_addr p) = img_lo ps img
          \<and> unat (reserve_len p) = img_hi ps img - img_lo ps img
      | At raw \<Rightarrow> reserve_addr p = raw \<and> unat (base p) = ceil_to (unat raw) (unat (align p))
          \<and> unat (reserve_len p) = img_hi ps img - img_lo ps img + (unat (align p) - unat ps))"

lemma img_lo_le_hi: "wf_image ps img \<Longrightarrow> img_lo ps img \<le> img_hi ps img"
  using img_span_covers [of ps img "hd (loads img)"] wf_imageD(2) [of ps img]
    seg_lo_le_hi [OF wf_imageD(1)] order_trans by (metis hd_in_set)

lemma img_bounds_dvd: "unat ps dvd img_lo ps img" "unat ps dvd img_hi ps img"
  by (simp_all add: img_lo_def img_hi_def seg_lo_def seg_hi_def)

lemma plan_segments_of_image:
  assumes wf: "wf_image ps img" and dvd: "unat ps dvd unat b" and fits: "img_hi ps img + unat b < 2 ^ 64"
  shows "\<exists>segs. plan_segments ps b (phdrs img) (loads img) = Ok segs
    \<and> seg_plans_ok ps b (phdrs img) (loads img) segs"
proof (rule plan_segments_spec [OF wf_imageD(1) [OF wf] dvd], intro ballI)
  fix i assume i: "i \<in> set (loads img)"
  from img_span_covers(2) [OF wf i] fits
  show "i < length (phdrs img) \<and> load_ok ps (phdrs img ! i) \<and> seg_end ps b (phdrs img ! i) < 2 ^ 64"
    using wf_imageD(3,4) [OF wf i] by (simp add: seg_end_biased [OF dvd])
qed

lemma plan_Ok:
  assumes wf: "wf_image ps img" and ok: "plan heap img ps placement = Ok p"
  shows "plan_ok ps img p \<and> placed_ok ps img placement p"
proof -
  obtain al where al: "seg_align img ps = Ok al" "is_power_of_two al" "unat ps \<le> unat al" "unat ps dvd unat al"
    using seg_align_wf [OF wf] by metis
  from ok obtain lo hi span b where
    span: "va_span img ps = Ok (lo, hi)" "psub hi lo = (Ok span :: (u64, error) result)"
    and place: "(case placement of Fixed \<Rightarrow> Ok (0, lo, span)
       | At raw \<Rightarrow>
           rbind (align_up_or raw al ENOMEM) (\<lambda>b.
           rbind (ok_or (checked_sub b lo) ENOMEM) (\<lambda>bi.
           rbind (psub al ps) (\<lambda>slack.
           rbind (padd span slack) (\<lambda>rlen. Ok (bi, raw, rlen)))))) = Ok (b, reserve_addr p, reserve_len p)"
    and p: "b = bias p" "align p = al"
    and sums: "padd lo b = (Ok (base p) :: (u64, error) result)" "padd hi b = (Ok (end_addr p) :: (u64, error) result)"
      "plan_segments ps b (phdrs img) (loads img) = Ok (segments p)"
      "checked_add (e_entry (ehdr img)) b = Some (entry p)"
    unfolding plan_def al by (auto simp: outcome_simps al)
  have lohi: "unat lo = img_lo ps img" "unat hi = img_hi ps img"
    using span(1) va_span_wf(1) [OF wf] by auto
  have spn: "unat span = img_hi ps img - img_lo ps img"
    using span(2) lohi by (simp add: arith_outcome)
  have placed: "placed_ok ps img placement p \<and> unat ps dvd unat (bias p)"
  proof (cases placement)
    case Fixed
    then show ?thesis using place p lohi spn by (auto simp: placed_ok_def)
  next
    case (At raw)
    let ?c = "ceil_to (unat raw) (unat al)"
    from At have c: "unat lo \<le> ?c" "unat b = ?c - unat lo" "raw = reserve_addr p"
        "unat (reserve_len p) = unat span + (unat al - unat ps)"
      using place al by (auto simp: outcome_simps arith_outcome)
    moreover have "unat (base p) = ?c" using sums(1) c by (auto simp: arith_outcome)
    moreover have "unat ps dvd ?c - unat lo"
      using lohi img_bounds_dvd(1) al(4) by (intro dvd_diff_nat) (auto intro: dvd_trans)
    ultimately show ?thesis using At p lohi spn al by (simp add: placed_ok_def)
  qed
  then have dvd: "unat ps dvd unat (bias p)" by simp
  have fits: "img_hi ps img + unat (bias p) < 2 ^ 64" using sums(2) p lohi by (simp add: arith_outcome)
  have segs: "seg_plans_ok ps (bias p) (phdrs img) (loads img) (segments p)"
    using plan_segments_of_image [OF wf dvd fits] sums(3) p by auto
  show ?thesis
    using placed dvd segs sums p lohi al by (simp add: plan_ok_def arith_outcome)
qed

lemma reservation_len_Ok:
  assumes wf: "wf_image ps img" and "reservation_len img ps = Ok need"
  obtains lo hi al where "va_span img ps = Ok (lo, hi)" and "unat lo = img_lo ps img"
    and "unat hi = img_hi ps img" and "seg_align img ps = Ok al" and "is_power_of_two al"
    and "unat ps \<le> unat al" and "unat ps dvd unat al"
    and "unat need = img_hi ps img - img_lo ps img + (unat al - unat ps)"
proof -
  obtain al where al: "seg_align img ps = Ok al" "is_power_of_two al" "unat ps \<le> unat al" "unat ps dvd unat al"
    using seg_align_wf [OF wf] by metis
  from assms(2) al(1) obtain lo hi where span: "va_span img ps = Ok (lo, hi)"
    and "unat need = unat hi - unat lo + (unat al - unat ps)"
    by (auto simp: reservation_len_def outcome_simps checked_sub_def psub_outcome checked_add_Some
        unat_sub_ok word_le_nat_alt split: if_splits)
  with al that va_span_wf(1) [OF wf] show thesis by auto
qed

text \<open>
  With a page-aligned base whose reservation fits the address space the planner never panics,
  and the only errors left are the three \<open>ENOMEM\<close> ones.
\<close>

lemma plan_At_outcome:
  assumes wf: "wf_image ps img" and need: "reservation_len img ps = Ok need"
    and al: "seg_align img ps = Ok al" and raw: "unat ps dvd unat raw"
    and fits: "unat raw + unat need < 2 ^ 64"
  shows "(\<exists>p. plan heap img ps (At raw) = Ok p) \<or>
    (plan heap img ps (At raw) = Err ENOMEM \<and>
      (\<not> heap AllocSegments (length (loads img))
       \<or> ceil_to (unat raw) (unat al) < img_lo ps img
       \<or> 2 ^ 64 \<le> unat (e_entry (ehdr img)) + (ceil_to (unat raw) (unat al) - img_lo ps img)))"
proof -
  obtain lo hi where span: "va_span img ps = Ok (lo, hi)" "unat lo = img_lo ps img" "unat hi = img_hi ps img"
    and al': "is_power_of_two al" "unat ps \<le> unat al" "unat ps dvd unat al"
    and len: "unat need = img_hi ps img - img_lo ps img + (unat al - unat ps)"
    using reservation_len_Ok [OF wf need] al by (metis result.inject(1))
  let ?c = "ceil_to (unat raw) (unat al)"
  have pos: "0 < unat ps" "0 < unat al" using wf_imageD(1) [OF wf] al'(1) power_of_two_pos by auto
  have lohi: "img_lo ps img \<le> img_hi ps img" using wf by (rule img_lo_le_hi)
  have slack: "?c \<le> unat raw + (unat al - unat ps)"
    using pos al' raw by (intro ceil_to_slack) auto
  have sp: "psub hi lo = (Ok (hi - lo) :: (u64, error) result)" "unat (hi - lo) = img_hi ps img - img_lo ps img"
    using span lohi by (simp_all add: psub_ok unat_sub_ok)
  have slk: "psub al ps = (Ok (al - ps) :: (u64, error) result)" "unat (al - ps) = unat al - unat ps"
    using al' by (simp_all add: psub_ok unat_sub_ok)
  have rl: "padd (hi - lo) (al - ps) = (Ok (hi - lo + (al - ps)) :: (u64, error) result)"
    using sp slk len unat_lt_64 [of need] by (intro padd_ok) simp
  obtain b where b: "align_up_or raw al ENOMEM = Ok b" "unat b = ?c"
  proof -
    have "?c < 2 ^ 64" using slack len fits by linarith
    with that align_up_or_ceil(1) [OF al'(1)] unat_ex show thesis by metis
  qed
  show ?thesis
  proof (cases "?c < img_lo ps img")
    case True
    then have "checked_sub b lo = None" using b span by (simp add: arith_outcome)
    with True show ?thesis by (simp add: plan_def span al sp b)
  next
    case False
    then have bi: "checked_sub b lo = Some (b - lo)" "unat (b - lo) = ?c - img_lo ps img"
      using b span by (simp_all add: checked_sub_def word_le_nat_alt unat_sub_ok)
    have fits': "img_hi ps img + unat (b - lo) < 2 ^ 64"
      using bi(2) slack len fits lohi False by linarith
    have sums: "padd lo (b - lo) = (Ok (lo + (b - lo)) :: (u64, error) result)"
        "padd hi (b - lo) = (Ok (hi + (b - lo)) :: (u64, error) result)"
      by (rule padd_ok; use span fits' lohi in simp)+
    have "unat ps dvd unat (b - lo)"
      unfolding bi(2) using al'(3) img_bounds_dvd(1) by (intro dvd_diff_nat) (auto intro: dvd_trans)
    then obtain segs where segs: "plan_segments ps (b - lo) (phdrs img) (loads img) = Ok segs"
      using plan_segments_of_image [OF wf _ fits'] by blast
    show ?thesis
    proof (cases "checked_add (e_entry (ehdr img)) (b - lo)")
      case None
      then have "2 ^ 64 \<le> unat (e_entry (ehdr img)) + (?c - img_lo ps img)"
        using bi(2) by (simp add: checked_add_None)
      with None show ?thesis
        by (simp add: plan_def span al sp b bi slk rl sums segs guard_def)
    next
      case (Some en)
      then show ?thesis
        by (auto simp: plan_def span al sp b bi slk rl sums segs guard_def)
    qed
  qed
qed

section \<open>Geometry of a plan\<close>

lemma plan_segment_at:
  assumes "plan_ok ps img p" and "sp \<in> set (segments p)"
  obtains i where "i \<in> set (loads img)" and "seg_plan_ok ps (bias p) i (phdrs img ! i) sp"
proof -
  obtain k where "k < length (segments p)" "sp = segments p ! k" using assms(2) by (metis in_set_conv_nth)
  then show thesis using assms(1) that [of "loads img ! k"]
    by (simp add: plan_ok_def list_all2_conv_all_nth)
qed

lemma plan_segment_nth:
  assumes "plan_ok ps img p" and "k < length (segments p)"
  shows "k < length (loads img)"
    and "seg_plan_ok ps (bias p) (loads img ! k) (phdrs img ! (loads img ! k)) (segments p ! k)"
  using assms by (auto simp: plan_ok_def list_all2_conv_all_nth)

text \<open>The pieces of a segment lie between its biased page bounds.\<close>

lemma seg_pieces_bounds:
  assumes pow: "is_power_of_two ps" and ok: "load_ok ps ph" and dvd: "unat ps dvd unat b"
    and sp: "seg_plan_ok ps b i ph sp"
  shows "file_map sp = Some f \<Longrightarrow> unat (fm_addr f) = seg_lo ps ph + unat b
           \<and> unat (fm_addr f) + unat (fm_len f) \<le> seg_hi ps ph + unat b"
    and "zero_map sp = Some z \<Longrightarrow> \<exists>f. file_map sp = Some f \<and> unat (fm_addr f) \<le> unat (am_addr z)
           \<and> unat (am_addr z) + unat (am_len z) = unat (fm_addr f) + unat (fm_len f)"
    and "anon_map sp = Some a \<Longrightarrow> seg_lo ps ph + unat b \<le> unat (am_addr a)
           \<and> unat (am_addr a) + unat (am_len a) = seg_hi ps ph + unat b"
proof -
  note le = file_pages_end_le [OF pow ok, of b]
    and biased = seg_end_biased [OF dvd, of ph] seg_start_biased [OF dvd, of ph]
  show "unat (fm_addr f) = seg_lo ps ph + unat b
      \<and> unat (fm_addr f) + unat (fm_len f) \<le> seg_hi ps ph + unat b" if "file_map sp = Some f"
    using that sp le biased by (simp add: seg_plan_ok_def)
  show "\<exists>f. file_map sp = Some f \<and> unat (fm_addr f) \<le> unat (am_addr z)
      \<and> unat (am_addr z) + unat (am_len z) = unat (fm_addr f) + unat (fm_len f)" if "zero_map sp = Some z"
    using that sp floor_to_le [of "sv b ph" "unat ps"]
    by (cases "file_map sp") (auto simp: seg_plan_ok_def intro: trans_le_add1)
  show "seg_lo ps ph + unat b \<le> unat (am_addr a)
      \<and> unat (am_addr a) + unat (am_len a) = seg_hi ps ph + unat b" if "anon_map sp = Some a"
    using that sp le biased by (simp add: seg_plan_ok_def)
qed

text \<open>The reservation holds the whole biased image.\<close>

lemma reservation_covers:
  assumes wf: "wf_image ps img" and ok: "plan_ok ps img p" and placed: "placed_ok ps img placement p"
    and raw: "\<And>raw. placement = At raw \<Longrightarrow> unat ps dvd unat raw"
  shows "unat (reserve_addr p) \<le> unat (base p)"
    and "unat (end_addr p) \<le> unat (reserve_addr p) + unat (reserve_len p)"
proof -
  note lohi = img_lo_le_hi [OF wf]
  have "unat (reserve_addr p) \<le> unat (base p) \<and> unat (end_addr p) \<le> unat (reserve_addr p) + unat (reserve_len p)"
  proof (cases placement)
    case Fixed
    then show ?thesis using ok placed lohi by (simp add: plan_ok_def placed_ok_def)
  next
    case (At r)
    have pos: "0 < unat ps" "0 < unat (align p)"
      using wf_imageD(1) [OF wf] ok power_of_two_pos by (auto simp: plan_ok_def)
    have dvd: "unat ps dvd unat (align p)" using ok by (simp add: plan_ok_def)
    have "ceil_to (unat r) (unat (align p)) \<le> unat r + (unat (align p) - unat ps)"
      using pos dvd raw [OF At] by (intro ceil_to_slack) auto
    moreover have "unat r \<le> ceil_to (unat r) (unat (align p))" using pos by (intro ceil_to_ge) auto
    ultimately show ?thesis using At ok placed lohi by (auto simp: plan_ok_def placed_ok_def)
  qed
  then show "unat (reserve_addr p) \<le> unat (base p)"
    "unat (end_addr p) \<le> unat (reserve_addr p) + unat (reserve_len p)" by auto
qed

lemma seg_in_span:
  assumes wf: "wf_image ps img" and ok: "plan_ok ps img p" and i: "i \<in> set (loads img)"
  shows "unat (base p) \<le> seg_lo ps (phdrs img ! i) + unat (bias p)"
    and "seg_hi ps (phdrs img ! i) + unat (bias p) \<le> unat (end_addr p)"
  using img_span_covers [OF wf i] ok by (simp_all add: plan_ok_def)

text \<open>
  \<open>range\<close> of a planned segment: its page bounds, unless the segment is empty, when it is the
  empty range at address 0.
\<close>

lemma seg_range_ok:
  assumes pow: "is_power_of_two ps" and ok: "load_ok ps ph" and dvd: "unat ps dvd unat b"
    and sp: "seg_plan_ok ps b i ph sp" and fits: "seg_hi ps ph + unat b < 2 ^ 64"
  shows "\<exists>s e. seg_range sp = Ok (s, e) \<and>
     (if file_map sp = None \<and> anon_map sp = None then s = 0 \<and> e = 0
      else unat s = seg_lo ps ph + unat b \<and> unat e = seg_hi ps ph + unat b)"
proof -
  note biased = seg_end_biased [OF dvd, of ph] seg_start_biased [OF dvd, of ph]
  have mid: "p_filesz ph = 0 \<Longrightarrow> file_pages_end ps b ph = seg_lo ps ph + unat b"
    using biased by (simp add: file_pages_end_def)
  show ?thesis
    using sp fits biased mid
    by (cases "file_map sp"; cases "anon_map sp")
       (auto simp: seg_range_def seg_plan_ok_def padd_ok unat_add_ok Let_def)
qed

section \<open>The program header table in memory\<close>

lemma phdr_addr_in_Some:
  assumes "\<forall>i\<in>set is. i < length phs" and "phdr_addr_in b phoff phs is = Ok (Some a)"
  shows "\<exists>i\<in>set is. unat (p_offset (phs ! i)) \<le> unat phoff
    \<and> unat phoff < unat (p_offset (phs ! i)) + unat (p_filesz (phs ! i))
    \<and> unat a + unat (p_offset (phs ! i)) = unat (p_vaddr (phs ! i)) + unat b + unat phoff"
  using assms
proof (induction "is")
  case (Cons i "is")
  let ?l = "phs ! i"
  show ?case
  proof (cases "p_offset ?l \<le> phoff \<and> (\<exists>e. checked_add (p_offset ?l) (p_filesz ?l) = Some e \<and> phoff < e)")
    case True
    then obtain e where e: "checked_add (p_offset ?l) (p_filesz ?l) = Some e" "phoff < e"
        "unat (p_offset ?l) \<le> unat phoff" by (auto simp: word_le_nat_alt)
    with True Cons.prems obtain x where "checked_add (phoff - p_offset ?l) (p_vaddr ?l) = Some x"
        "checked_add x b = Some a"
      by (auto split: option.splits)
    with e show ?thesis
      by (intro bexI [of _ i]) (auto simp: checked_add_Some unat_sub_ok word_less_nat_alt)
  next
    case False
    with Cons.prems have "phdr_addr_in b phoff phs is = Ok (Some a)"
      by (auto split: option.splits if_splits)
    with Cons show ?thesis by auto
  qed
qed simp

text \<open>The only way the planner refuses a well-formed image.\<close>

lemma align_up_or_Err: "align_up_or v a e = Err f \<Longrightarrow> f = e"
  by (auto simp: align_up_or_def align_up_def outcome_simps psub_outcome)

lemma plan_segments_Err: "is_power_of_two ps \<Longrightarrow> plan_segments ps b phs is = Err e \<Longrightarrow> e = ENOMEM"
proof (induction "is")
  case (Cons i "is")
  have "plan_segment ps b i ph = Err e \<Longrightarrow> e = ENOMEM" for ph
    using Cons.prems(1)
    by (auto simp: plan_segment_def outcome_simps Let_def padd_outcome psub_outcome split: if_splits prod.splits
        dest: align_up_or_Err)
  with Cons show ?case by (auto simp: outcome_simps)
qed simp

lemma plan_Err:
  assumes "wf_image ps img" and "plan heap img ps placement = Err e" and "va_span img ps = Ok v"
  shows "e = ENOMEM"
proof -
  obtain al where "seg_align img ps = Ok al" using seg_align_wf [OF assms(1)] by metis
  then show ?thesis
    using assms(2,3) plan_segments_Err [OF wf_imageD(1) [OF assms(1)]]
    by (cases v; cases placement) (auto simp: plan_def outcome_simps padd_outcome psub_outcome dest: align_up_or_Err)
qed

section \<open>Properties\<close>

text \<open>
  Segment flags become protection bits one for one: a mapping is readable, writable or
  executable exactly when \<open>PF_R\<close>, \<open>PF_W\<close> or \<open>PF_X\<close> is set in \<open>p_flags\<close>, and no other bit is set.
\<close>

theorem prot_follows_segment_flags:
  "(prot_of ph AND PROT_READ \<noteq> 0 \<longleftrightarrow> p_flags ph AND PF_R \<noteq> 0)
   \<and> (prot_of ph AND PROT_WRITE \<noteq> 0 \<longleftrightarrow> p_flags ph AND PF_W \<noteq> 0)
   \<and> (prot_of ph AND PROT_EXEC \<noteq> 0 \<longleftrightarrow> p_flags ph AND PF_X \<noteq> 0)
   \<and> prot_of ph AND NOT (PROT_READ OR PROT_WRITE OR PROT_EXEC) = 0"
proof (intro conjI)
  show "prot_of ph AND NOT (PROT_READ OR PROT_WRITE OR PROT_EXEC) = 0"
    by (auto simp: prot_of_def Let_def prot_defs)
qed (use prot_of_bits [of ph] in \<open>simp_all add: is_read_def is_write_def is_exec_def\<close>)

text \<open>
  C30. Whatever the planner maps lies inside the reservation: for a well-formed image, placed at a
  page-aligned address or at its link address, every file-backed, cleared and anonymous piece of
  every segment is inside \<open>[base, end)\<close>, which is inside the reserved range.
\<close>

theorem plan_inside_reservation:
  assumes "wf_image page_size img" and "plan heap img page_size placement = Ok p"
    and "\<And>raw. placement = At raw \<Longrightarrow> unat page_size dvd unat raw"
    and "sp \<in> set (segments p)"
  shows "unat (reserve_addr p) \<le> unat (base p)
    \<and> unat (end_addr p) \<le> unat (reserve_addr p) + unat (reserve_len p)
    \<and> (\<forall>f. file_map sp = Some f \<longrightarrow> unat (base p) \<le> unat (fm_addr f)
         \<and> unat (fm_addr f) + unat (fm_len f) \<le> unat (end_addr p))
    \<and> (\<forall>z. zero_map sp = Some z \<longrightarrow> (\<exists>f. file_map sp = Some f \<and> unat (fm_addr f) \<le> unat (am_addr z)
         \<and> unat (am_addr z) + unat (am_len z) = unat (fm_addr f) + unat (fm_len f)))
    \<and> (\<forall>a. anon_map sp = Some a \<longrightarrow> unat (base p) \<le> unat (am_addr a)
         \<and> unat (am_addr a) + unat (am_len a) \<le> unat (end_addr p))"
proof -
  have ok: "plan_ok page_size img p" "placed_ok page_size img placement p"
    using plan_Ok [OF assms(1,2)] by auto
  obtain i where i: "i \<in> set (loads img)" "seg_plan_ok page_size (bias p) i (phdrs img ! i) sp"
    using plan_segment_at [OF ok(1) assms(4)] by metis
  have dvd: "unat page_size dvd unat (bias p)" using ok(1) by (simp add: plan_ok_def)
  note pieces = seg_pieces_bounds [OF wf_imageD(1) [OF assms(1)] wf_imageD(4) [OF assms(1) i(1)] dvd i(2)]
  show ?thesis
    using reservation_covers [OF assms(1) ok assms(3)] seg_in_span [OF assms(1) ok(1) i(1)] pieces
    by (intro conjI allI impI; fastforce)
qed

theorem plan_inside_reservation_witness:
  "unat (reserve_addr sample_plan) \<le> unat (base sample_plan)
   \<and> unat (end_addr sample_plan) \<le> unat (reserve_addr sample_plan) + unat (reserve_len sample_plan)"
proof -
  have "segments sample_plan ! 1 \<in> set (segments sample_plan)" by (simp add: sample_plan_def)
  with plan_inside_reservation [OF sample_wf sample_plan_At] show ?thesis by auto
qed

text \<open>
  C31. Planned segments never overlap: of two segments, everything mapped for the earlier one ends
  before anything mapped for the later one begins.
\<close>

theorem plan_segments_disjoint:
  assumes "wf_image page_size img" and "plan heap img page_size placement = Ok p"
    and "j < k" and "k < length (segments p)"
    and "file_map (segments p ! j) \<noteq> None \<or> anon_map (segments p ! j) \<noteq> None"
    and "file_map (segments p ! k) \<noteq> None \<or> anon_map (segments p ! k) \<noteq> None"
  shows "\<exists>a b c d. seg_range (segments p ! j) = Ok (a, b) \<and> seg_range (segments p ! k) = Ok (c, d)
    \<and> a \<le> b \<and> b \<le> c \<and> c \<le> d"
proof -
  note wf = assms(1) and pow = wf_imageD(1) [OF assms(1)]
  have ok: "plan_ok page_size img p" using plan_Ok [OF assms(1,2)] by auto
  then have dvd: "unat page_size dvd unat (bias p)" by (simp add: plan_ok_def)
  have range: "\<exists>s e. seg_range (segments p ! m) = Ok (s, e)
      \<and> unat s = seg_lo page_size (phdrs img ! (loads img ! m)) + unat (bias p)
      \<and> unat e = seg_hi page_size (phdrs img ! (loads img ! m)) + unat (bias p)"
    if "m < length (segments p)" "file_map (segments p ! m) \<noteq> None \<or> anon_map (segments p ! m) \<noteq> None" for m
  proof -
    note m = plan_segment_nth [OF ok that(1)]
    then have "loads img ! m \<in> set (loads img)" by simp
    then have "seg_hi page_size (phdrs img ! (loads img ! m)) + unat (bias p) < 2 ^ 64"
      by (intro le_unat_lt [OF seg_in_span(2) [OF wf ok]])
    with seg_range_ok [OF pow wf_imageD(4) [OF wf] dvd m(2)] that(2) \<open>loads img ! m \<in> set (loads img)\<close>
    show ?thesis by fastforce
  qed
  have lt: "seg_hi page_size (phdrs img ! (loads img ! j)) \<le> seg_lo page_size (phdrs img ! (loads img ! k))"
  proof -
    have "seg_hi page_size (phdrs img ! (loads img ! j)) \<le> unat (p_vaddr (phdrs img ! (loads img ! k)))"
      using wf_image_sorted_nth [OF wf assms(3)] plan_segment_nth(1) [OF ok assms(4)] by simp
    then show ?thesis unfolding seg_lo_def by (intro floor_to_greatest) (simp_all add: seg_hi_def)
  qed
  from range [of j] range [of k] assms(3-6) lt seg_lo_le_hi [OF pow] show ?thesis
    by (fastforce simp: word_le_nat_alt)
qed

theorem plan_segments_disjoint_witness:
  "\<exists>a b c d. seg_range (segments sample_plan ! 0) = Ok (a, b)
    \<and> seg_range (segments sample_plan ! 1) = Ok (c, d) \<and> a \<le> b \<and> b \<le> c \<and> c \<le> d"
  by (rule plan_segments_disjoint [OF sample_wf sample_plan_At]) (simp_all add: sample_plan_def)

text \<open>
  A file-backed piece shows the right bytes: it starts on a page boundary at a page-aligned
  file offset, the byte at \<open>p_offset\<close> lands exactly at \<open>p_vaddr\<close> plus the bias, and the cleared tail
  and the anonymous pages cover exactly what follows the file data up to the page-rounded end of
  the segment.
\<close>

theorem plan_places_file_bytes:
  assumes "wf_image page_size img" and "plan heap img page_size placement = Ok p"
    and "sp \<in> set (segments p)" and "file_map sp = Some f"
  shows "\<exists>i\<in>set (loads img). idx sp = i \<and> prot sp = prot_of (phdrs img ! i)
    \<and> unat page_size dvd unat (fm_addr f) \<and> unat page_size dvd unat (fm_off f)
    \<and> unat (fm_off f) \<le> unat (p_offset (phdrs img ! i))
    \<and> unat (fm_addr f) + (unat (p_offset (phdrs img ! i)) - unat (fm_off f))
        = unat (p_vaddr (phdrs img ! i)) + unat (bias p)
    \<and> (case zero_map sp of
         None \<Rightarrow> unat (fm_addr f) + unat (fm_len f)
             = unat (p_vaddr (phdrs img ! i)) + unat (bias p) + unat (p_filesz (phdrs img ! i))
       | Some z \<Rightarrow> unat (am_addr z)
             = unat (p_vaddr (phdrs img ! i)) + unat (bias p) + unat (p_filesz (phdrs img ! i))
           \<and> unat (am_addr z) + unat (am_len z) = unat (fm_addr f) + unat (fm_len f))
    \<and> (case anon_map sp of
         None \<Rightarrow> unat (fm_addr f) + unat (fm_len f)
             = seg_hi page_size (phdrs img ! i) + unat (bias p)
       | Some a \<Rightarrow> unat (am_addr a) = unat (fm_addr f) + unat (fm_len f)
           \<and> unat (am_addr a) + unat (am_len a)
             = seg_hi page_size (phdrs img ! i) + unat (bias p))"
proof -
  have ok: "plan_ok page_size img p" using plan_Ok [OF assms(1,2)] by auto
  then have dvd: "unat page_size dvd unat (bias p)" by (simp add: plan_ok_def)
  obtain i where i: "i \<in> set (loads img)" "seg_plan_ok page_size (bias p) i (phdrs img ! i) sp"
    using plan_segment_at [OF ok assms(3)] by metis
  let ?ph = "phdrs img ! i" and ?v = "sv (bias p) (phdrs img ! i)"
  from i(2) assms(4) have f: "p_filesz ?ph \<noteq> 0" "unat (fm_addr f) = floor_to ?v (unat page_size)"
      "unat (fm_off f) + ?v mod unat page_size = unat (p_offset ?ph)"
    by (auto simp: seg_plan_ok_def)
  have "unat (fm_off f) = unat (p_offset ?ph) - unat (p_offset ?ph) mod unat page_size"
    using f(3) congruent_offset [OF wf_imageD(4) [OF assms(1) i(1)] f(1) dvd] by linarith
  then have "unat page_size dvd unat (fm_off f)" by (metis floor_to_dvd floor_to_eq)
  moreover have "unat (fm_addr f) + ?v mod unat page_size = ?v"
    unfolding f(2) floor_to_eq by simp
  ultimately show ?thesis
    using i assms(4) f seg_end_biased [OF dvd, of ?ph]
    by (intro bexI [of _ i]) (auto simp: seg_plan_ok_def sv_def split: option.splits)
qed

theorem plan_places_file_bytes_witness:
  "\<exists>i\<in>set (loads sample_image). idx (segments sample_plan ! 1) = i
    \<and> 4544 + (unat (p_offset (phdrs sample_image ! i)) - 192)
        = unat (p_vaddr (phdrs sample_image ! i)) + 4224"
proof -
  have "segments sample_plan ! 1 \<in> set (segments sample_plan)"
    "file_map (segments sample_plan ! 1) = Some \<lparr> fm_addr = 4544, fm_len = 64, fm_off = 192 \<rparr>"
    by (simp_all add: sample_plan_def)
  from plan_places_file_bytes [OF sample_wf sample_plan_At this] show ?thesis
    by (auto simp: sample_plan_def)
qed



text \<open>
  C35. Without a usable \<open>PT_PHDR\<close> the address reported for the program header table is the one at
  which the file's table is visible: it lies in the file data of a loadable segment, at the
  segment's biased address plus the distance of \<open>e_phoff\<close> from \<open>p_offset\<close>.
\<close>

theorem phdr_addr_from_segment:
  assumes "wf_image page_size img" and "phdr_seg img = None" and "phdr_addr p img = Ok (Some a)"
  shows "\<exists>i\<in>set (loads img).
      unat (p_offset (phdrs img ! i)) \<le> unat (e_phoff (ehdr img))
    \<and> unat (e_phoff (ehdr img)) < unat (p_offset (phdrs img ! i)) + unat (p_filesz (phdrs img ! i))
    \<and> unat a + unat (p_offset (phdrs img ! i))
        = unat (p_vaddr (phdrs img ! i)) + unat (bias p) + unat (e_phoff (ehdr img))"
  using phdr_addr_in_Some [of "loads img" "phdrs img" "bias p" "e_phoff (ehdr img)" a] assms
    wf_imageD(3) [OF assms(1)]
  by (auto simp: phdr_addr_def)

theorem phdr_addr_from_segment_witness:
  "\<exists>i\<in>set (loads sample_image).
      4288 + unat (p_offset (phdrs sample_image ! i)) = unat (p_vaddr (phdrs sample_image ! i)) + 4224 + 64"
proof -
  have "phdr_seg sample_image = None" "phdr_addr sample_plan sample_image = Ok (Some 4288)"
    by (simp_all add: phdr_addr_def sample_defs sample_plan_def word_eval Let_def)
  from phdr_addr_from_segment [OF sample_wf this] show ?thesis
    by (auto simp: sample_plan_def sample_image_def sample_ehdr_def)
qed

end
