(* ===== verification/Loader_Facts.thy ===== *)
theory Loader_Facts
  imports Loader Layout_Facts
begin

text \<open>
  What loading an image does to an address space. The contract of the \<open>Vm\<close> trait is a locale: an
  address space is a partial map from addresses to a protection and a byte, and every operation is
  described by its effect on that map when it succeeds and by what it
  leaves alone when it fails. \<open>cut s x\<close> says that no mapping of \<open>s\<close> straddles \<open>x\<close>: a change of
  protection is only exact between such addresses, for an implementation that keeps one
  protection per mapping. The locale \<open>mapping_space\<close> has the calls of a load through file
  mappings, for requests of the shape the loader makes (\<open>exactly\<close>); \<open>address_space\<close> extends it to any
  request and to the calls of a load by copying. The lemmas in the locales hold for every
  implementation; \<open>Fake_Vm_Facts\<close> interprets them on the address space of the test suite and
  \<open>Kernel\<close> the first on the address space of the running system.
\<close>

section \<open>Cells\<close>

type_synonym cells = "nat \<Rightarrow> (u32 \<times> u8) option"

definition overlay :: "cells \<Rightarrow> nat \<Rightarrow> nat \<Rightarrow> cells \<Rightarrow> cells" where
  "overlay c lo hi f = (\<lambda>x. if lo \<le> x \<and> x < hi then f x else c x)"

definition same_outside :: "cells \<Rightarrow> cells \<Rightarrow> nat \<Rightarrow> nat \<Rightarrow> bool" where
  "same_outside c c' lo hi \<longleftrightarrow> (\<forall>x. x < lo \<or> hi \<le> x \<longrightarrow> c' x = c x)"

definition src_byte :: "(i32 \<Rightarrow> nat \<Rightarrow> u8) \<Rightarrow> MapSrc \<Rightarrow> nat \<Rightarrow> u8" where
  "src_byte fbyte src k = (case src of Anon \<Rightarrow> 0 | File fd off \<Rightarrow> fbyte fd (unat off + k))"

definition set_prot :: "u32 \<Rightarrow> (u32 \<times> u8) option \<Rightarrow> (u32 \<times> u8) option" where
  "set_prot p = map_option (\<lambda>c. (p, snd c))"

definition set_byte :: "u8 \<Rightarrow> (u32 \<times> u8) option \<Rightarrow> (u32 \<times> u8) option" where
  "set_byte b = map_option (\<lambda>c. (fst c, b))"

lemma overlay_in [simp]: "lo \<le> x \<Longrightarrow> x < hi \<Longrightarrow> overlay c lo hi f x = f x"
  by (simp add: overlay_def)

lemma overlay_out [simp]: "x < lo \<or> hi \<le> x \<Longrightarrow> overlay c lo hi f x = c x"
  by (auto simp: overlay_def)

lemma overlay_empty [simp]: "hi \<le> lo \<Longrightarrow> overlay c lo hi f = c"
  by (rule ext) (auto simp: overlay_def)

lemma overlay_cong:
  "(\<And>x. lo \<le> x \<Longrightarrow> x < hi \<Longrightarrow> f x = g x) \<Longrightarrow> overlay c lo hi f = overlay c lo hi g"
  by (auto simp: overlay_def)

lemma same_outside_refl [simp]: "same_outside c c lo hi"
  by (simp add: same_outside_def)

lemma same_outside_trans:
  "same_outside c1 c2 lo hi \<Longrightarrow> same_outside c2 c3 lo hi \<Longrightarrow> same_outside c1 c3 lo hi"
  by (simp add: same_outside_def)

lemma same_outside_mono:
  "same_outside c c' lo hi \<Longrightarrow> lo' \<le> lo \<Longrightarrow> hi \<le> hi' \<Longrightarrow> same_outside c c' lo' hi'"
  by (auto simp: same_outside_def)

lemma same_outside_overlay: "lo \<le> a \<Longrightarrow> b \<le> hi \<Longrightarrow> same_outside c (overlay c a b f) lo hi"
  by (auto simp: same_outside_def overlay_def)

lemma set_prot_simps [simp]: "set_prot p (Some (q, b)) = Some (p, b)" "set_prot p None = None"
  by (simp_all add: set_prot_def)

lemma set_byte_simps [simp]: "set_byte b (Some (q, b')) = Some (q, b)" "set_byte b None = None"
  by (simp_all add: set_byte_def)

text \<open>
  The byte an image shows at address \<open>x\<close> of a segment: the file's up to \<open>p_filesz\<close>, then zero. In
  front of the segment's first byte its first page shows the file as well.
\<close>

definition seg_byte :: "(nat \<Rightarrow> u8) \<Rightarrow> u64 \<Rightarrow> Phdr \<Rightarrow> nat \<Rightarrow> u8" where
  "seg_byte f b ph x =
     (if p_filesz ph \<noteq> 0 \<and> x < sv b ph + unat (p_filesz ph)
      then f (unat (p_offset ph) + x - sv b ph) else 0)"

definition seg_cells :: "u64 \<Rightarrow> (nat \<Rightarrow> u8) \<Rightarrow> u64 \<Rightarrow> Phdr \<Rightarrow> cells \<Rightarrow> cells" where
  "seg_cells ps f b ph c =
     overlay c (seg_lo ps ph + unat b) (seg_hi ps ph + unat b)
       (\<lambda>x. Some (prot_of ph, seg_byte f b ph x))"

section \<open>Where the pieces of a segment lie\<close>

lemma file_geometry:
  assumes pow: "is_power_of_two ps" and ok: "load_ok ps ph" and dvd: "unat ps dvd unat b"
    and sp: "seg_plan_ok ps b i ph seg" and fm: "file_map seg = Some fm"
  shows "unat (fm_addr fm) = seg_lo ps ph + unat b"
    and "unat (fm_addr fm) + unat (fm_len fm) = file_pages_end ps b ph"
    and "0 < unat (fm_len fm)"
    and "seg_lo ps ph + unat b \<le> x \<Longrightarrow>
      unat (fm_off fm) + (x - (seg_lo ps ph + unat b)) = unat (p_offset ph) + x - sv b ph"
    and "sv b ph + unat (p_filesz ph) \<le> file_pages_end ps b ph"
    and "p_filesz ph \<noteq> 0" and "seg_lo ps ph + unat b \<le> sv b ph"
proof -
  note biased = seg_end_biased [OF dvd, of ph] seg_start_biased [OF dvd, of ph]
  from sp fm show fs: "p_filesz ph \<noteq> 0" and
      a: "unat (fm_addr fm) = seg_lo ps ph + unat b" and
      len: "unat (fm_addr fm) + unat (fm_len fm) = file_pages_end ps b ph"
    using biased by (auto simp: seg_plan_ok_def)
  have off: "unat (fm_off fm) + sv b ph mod unat ps = unat (p_offset ph)"
    using sp fm by (simp add: seg_plan_ok_def)
  have lo: "seg_lo ps ph + unat b + sv b ph mod unat ps = sv b ph"
    unfolding biased(2) [symmetric] floor_to_eq by simp
  then show "seg_lo ps ph + unat b \<le> sv b ph" by linarith
  show vend: "sv b ph + unat (p_filesz ph) \<le> file_pages_end ps b ph"
    using fs ceil_to_ge power_of_two_pos [OF pow] by (simp add: file_pages_end_def)
  have "0 < unat (p_filesz ph)" using fs by (simp add: unat_gt_0)
  with vend a len lo show "0 < unat (fm_len fm)" by linarith
  show "unat (fm_off fm) + (x - (seg_lo ps ph + unat b)) = unat (p_offset ph) + x - sv b ph"
    if "seg_lo ps ph + unat b \<le> x" using off lo that by linarith
qed

lemma zero_geometry:
  assumes "seg_plan_ok ps b i ph seg" and "p_filesz ph \<noteq> 0"
  shows "zero_map seg = None \<Longrightarrow> file_pages_end ps b ph = sv b ph + unat (p_filesz ph)"
    and "zero_map seg = Some z \<Longrightarrow> unat (am_addr z) = sv b ph + unat (p_filesz ph)"
    and "zero_map seg = Some z \<Longrightarrow> unat (am_addr z) + unat (am_len z) = file_pages_end ps b ph"
  using assms by (auto simp: seg_plan_ok_def)

lemma anon_geometry:
  assumes "seg_plan_ok ps b i ph seg" and "unat ps dvd unat b"
  shows "anon_map seg = None \<Longrightarrow> file_pages_end ps b ph = seg_hi ps ph + unat b"
    and "anon_map seg = Some a \<Longrightarrow> 0 < unat (am_len a)"
    and "anon_map seg = Some a \<Longrightarrow> unat (am_addr a) = file_pages_end ps b ph"
    and "anon_map seg = Some a \<Longrightarrow> file_pages_end ps b ph + unat (am_len a) = seg_hi ps ph + unat b"
  using assms seg_end_biased [OF assms(2), of ph] by (auto simp: seg_plan_ok_def)

lemma pages_end_geometry:
  assumes "is_power_of_two ps" and "load_ok ps ph" and "unat ps dvd unat b"
  shows "seg_lo ps ph + unat b \<le> file_pages_end ps b ph"
    and "file_pages_end ps b ph \<le> seg_hi ps ph + unat b"
    and "p_filesz ph = 0 \<Longrightarrow> file_pages_end ps b ph = seg_lo ps ph + unat b"
  using file_pages_end_le [OF assms(1,2), of b] seg_end_biased [OF assms(3), of ph]
    seg_start_biased [OF assms(3), of ph] by (simp_all add: file_pages_end_def)

lemma seg_byte_past_file [simp]:
  "p_filesz ph = 0 \<or> sv b ph + unat (p_filesz ph) \<le> x \<Longrightarrow> seg_byte f b ph x = 0"
  by (auto simp: seg_byte_def)

lemma page_bounds_dvd:
  assumes "unat ps dvd unat b"
  shows "unat ps dvd seg_lo ps ph + unat b" and "unat ps dvd file_pages_end ps b ph" and "unat ps dvd seg_hi ps ph + unat b"
  using assms by (simp_all add: seg_lo_def seg_hi_def file_pages_end_def)

lemma file_len_dvd:
  assumes "unat ps dvd unat b" and "seg_plan_ok ps b i ph seg" and "file_map seg = Some fm"
  shows "unat ps dvd unat (fm_len fm)"
proof -
  have "unat (fm_addr fm) + unat (fm_len fm) = file_pages_end ps b ph" "unat ps dvd unat (fm_addr fm)"
    using assms(2,3) by (simp_all add: seg_plan_ok_def)
  with page_bounds_dvd(2) [OF assms(1)] show ?thesis by (metis dvd_add_right_iff)
qed

lemma anon_len_dvd:
  assumes "unat ps dvd unat b" and "seg_plan_ok ps b i ph seg" and "anon_map seg = Some a"
  shows "unat ps dvd unat (am_len a)"
  using anon_geometry(4) [OF assms(2,1,3)] page_bounds_dvd(2,3) [OF assms(1), of ph] by (metis dvd_add_right_iff)

lemma prot_of_le: "prot_of ph \<le> 7" "prot_of ph OR PROT_WRITE \<le> 7"
  by (simp_all add: prot_of_def Let_def prot_defs)

text \<open>All segments of an image, laid over what was there.\<close>

definition image_cells :: "u64 \<Rightarrow> (nat \<Rightarrow> u8) \<Rightarrow> u64 \<Rightarrow> Phdr list \<Rightarrow> nat list \<Rightarrow> cells \<Rightarrow> cells" where
  "image_cells ps f b phs is = fold (\<lambda>i. seg_cells ps f b (phs ! i)) is"

lemma image_cells_out:
  "(\<forall>i\<in>set is. x < seg_lo ps (phs ! i) + unat b \<or> seg_hi ps (phs ! i) + unat b \<le> x) \<Longrightarrow>
   image_cells ps f b phs is c x = c x"
  by (induction "is" arbitrary: c) (auto simp: image_cells_def seg_cells_def)

lemma page_order_disjoint:
  assumes "page_order ps phs i j" shows "seg_hi ps (phs ! i) \<le> seg_lo ps (phs ! j)"
  using assms floor_to_greatest [of "unat ps" "seg_hi ps (phs ! i)"] by (simp add: seg_lo_def seg_hi_def)

lemma image_cells_in:
  assumes "sorted_wrt (page_order ps phs) is" and "i \<in> set is"
    and "seg_lo ps (phs ! i) + unat b \<le> x" and "x < seg_hi ps (phs ! i) + unat b"
  shows "image_cells ps f b phs is c x = Some (prot_of (phs ! i), seg_byte f b (phs ! i) x)"
  using assms
proof (induction "is" arbitrary: c)
  case (Cons j "is")
  show ?case
  proof (cases "i \<in> set is")
    case True
    with Cons show ?thesis by (simp add: image_cells_def)
  next
    case False
    with Cons.prems have i: "i = j" by simp
    have "seg_hi ps (phs ! j) \<le> seg_lo ps (phs ! k)" if "k \<in> set is" for k
      using Cons.prems(1) that by (intro page_order_disjoint) auto
    then have "image_cells ps f b phs is d x = d x" for d
      using Cons.prems(4) i by (intro image_cells_out ballI) fastforce
    then show ?thesis using Cons.prems(3,4) i by (simp add: image_cells_def seg_cells_def)
  qed
qed simp

lemma sorted_image: "wf_image ps img \<Longrightarrow> sorted_wrt (page_order ps (phdrs img)) (loads img)"
  by (simp add: wf_image_def)

text \<open>The byte of a segment at offset \<open>k\<close> from its first one.\<close>

lemma seg_byte_at:
  "seg_byte f b ph (unat (p_vaddr ph) + unat b + k) =
     (if k < unat (p_filesz ph) then f (unat (p_offset ph) + k) else 0)"
  by (auto simp: seg_byte_def sv_def unat_gt_0)

lemma reservation_mapped:
  assumes "wf_image ps img" and "c x \<noteq> None"
  shows "image_cells ps f b (phdrs img) (loads img) c x \<noteq> None"
proof (cases "\<exists>i\<in>set (loads img). seg_lo ps (phdrs img ! i) + unat b \<le> x \<and> x < seg_hi ps (phdrs img ! i) + unat b")
  case True
  with image_cells_in [OF sorted_image [OF assms(1)]] show ?thesis by fastforce
next
  case False
  with image_cells_out [of "loads img" x ps "phdrs img" b] assms(2) show ?thesis by (simp add: not_le not_less)
qed

abbreviation in_reservation :: "Loaded \<Rightarrow> nat \<Rightarrow> bool" where
  "in_reservation l x \<equiv> unat (reserve_addr (ld_plan l)) \<le> x
     \<and> x < unat (reserve_addr (ld_plan l)) + unat (reserve_len (ld_plan l))"

text \<open>The reservation a plan describes is the one \<open>reservation_len\<close> asked for.\<close>

lemma plan_align: "plan heap img ps placement = Ok p \<Longrightarrow> seg_align img ps = Ok (align p)"
  by (auto simp: plan_def outcome_simps)

lemma reservation_len_span: "reservation_len img ps = Ok need \<Longrightarrow> \<exists>v. va_span img ps = Ok v"
  by (auto simp: reservation_len_def outcome_simps)

lemma reserved_At:
  assumes "wf_image ps img" and "reservation_len img ps = Ok need" and "plan heap img ps (At raw) = Ok p"
  shows "reserve_addr p = raw" and "reserve_len p = need"
proof -
  from reservation_len_Ok [OF assms(1,2)] plan_align [OF assms(3)]
  have "unat need = img_hi ps img - img_lo ps img + (unat (align p) - unat ps)"
    by (metis result.inject(1))
  with plan_Ok [OF assms(1,3)] show "reserve_addr p = raw" "reserve_len p = need"
    by (auto simp: placed_ok_def intro: unat_eqI)
qed

lemma reserved_Fixed:
  assumes "wf_image ps img" and "va_span img ps = Ok (lo, hi)" and "psub hi lo = (Ok span :: (u64, error) result)"
    and "plan heap img ps Fixed = Ok p"
  shows "reserve_addr p = lo" and "reserve_len p = span"
proof -
  have "unat lo = img_lo ps img" "unat hi = img_hi ps img"
    using va_span_wf(1) [OF assms(1)] assms(2) by auto
  with plan_Ok [OF assms(1,4)] assms(3) show "reserve_addr p = lo" "reserve_len p = span"
    by (auto simp: placed_ok_def psub_outcome intro: unat_eqI)
qed

text \<open>A reservation is a number of whole pages.\<close>

lemma reserve_len_dvd:
  assumes "wf_image ps img" and "plan heap img ps placement = Ok p"
  shows "unat ps dvd unat (reserve_len p)"
proof -
  from plan_Ok [OF assms] have "unat ps dvd unat (align p)" "placed_ok ps img placement p" by (simp_all add: plan_ok_def)
  then show ?thesis using img_bounds_dvd [of ps img] by (auto simp: placed_ok_def dvd_diff_nat split: Placement.splits)
qed

section \<open>The contract of an address space\<close>

text \<open>
  What the loader relies on when it maps files. The predicate \<open>fixable\<close> says at which addresses a
  fixed mapping can be asked for; every address from the start of a mapping on is one. The predicate
  \<open>exactly\<close> says for which lengths and protections a call is exact; whole pages with any of the three
  protection bits are always served exactly. A range is cleared only inside the address space. A failed call may have changed its own range only.
\<close>

locale mapping_space =
  fixes vm :: "'s Vm"
    and inv :: "'s \<Rightarrow> bool"
    and cells :: "'s \<Rightarrow> cells"
    and cut :: "'s \<Rightarrow> nat \<Rightarrow> bool"
    and fbyte :: "i32 \<Rightarrow> nat \<Rightarrow> u8"
    and fixable :: "nat \<Rightarrow> bool"
    and exactly :: "nat \<Rightarrow> u32 \<Rightarrow> bool"
  assumes exact_pages: "unat (vm_page_size vm) dvd n \<Longrightarrow> p \<le> 7 \<Longrightarrow> exactly n p"
    and map_exact:
      "inv s \<Longrightarrow> 0 < unat len \<Longrightarrow> fixable (unat a) \<Longrightarrow> exactly (unat len) p \<Longrightarrow>
       vm_map vm (Exact a) len p src s = (Ok got, s') \<Longrightarrow>
       inv s'
       \<and> cells s' = overlay (cells s) (unat a) (unat a + unat len) (\<lambda>x. Some (p, src_byte fbyte src (x - unat a)))
       \<and> cut s' (unat a) \<and> cut s' (unat a + unat len)
       \<and> (\<forall>x. cut s x \<and> (x \<le> unat a \<or> unat a + unat len \<le> x) \<longrightarrow> cut s' x)"
    and map_exact_err:
      "inv s \<Longrightarrow> 0 < unat len \<Longrightarrow> fixable (unat a) \<Longrightarrow> exactly (unat len) p \<Longrightarrow>
       vm_map vm (Exact a) len p src s = (Err e, s') \<Longrightarrow>
       inv s' \<and> same_outside (cells s) (cells s') (unat a) (unat a + unat len)"
    and map_free:
      "inv s \<Longrightarrow> 0 < unat len \<Longrightarrow> exactly (unat len) p \<Longrightarrow> at = Anywhere \<or> at = Hint h \<Longrightarrow>
       vm_map vm at len p src s = (Ok got, s') \<Longrightarrow>
       inv s' \<and> unat (vm_page_size vm) dvd unat got \<and> (\<forall>x\<ge>unat got. fixable x)
       \<and> (\<forall>x. unat got \<le> x \<and> x < unat got + unat len \<longrightarrow> cells s x = None)
       \<and> cells s' = overlay (cells s) (unat got) (unat got + unat len) (\<lambda>x. Some (p, src_byte fbyte src (x - unat got)))"
    and map_free_err:
      "inv s \<Longrightarrow> at = Anywhere \<or> at = Hint h \<Longrightarrow> vm_map vm at len p src s = (Err e, s') \<Longrightarrow>
       inv s' \<and> cells s' = cells s"
    and unmap_ok:
      "inv s \<Longrightarrow> 0 < unat len \<Longrightarrow> exactly (unat len) PROT_NONE \<Longrightarrow> vm_unmap vm a len s = (Ok u, s') \<Longrightarrow>
       inv s' \<and> cells s' = overlay (cells s) (unat a) (unat a + unat len) (\<lambda>_. None)"
    and protect_ok:
      "inv s \<Longrightarrow> 0 < unat len \<Longrightarrow> exactly (unat len) p \<Longrightarrow> cut s (unat a) \<Longrightarrow>
       cut s (unat a + unat len) \<Longrightarrow> vm_protect vm a len p s = (Ok u, s') \<Longrightarrow>
       inv s' \<and> cells s' = overlay (cells s) (unat a) (unat a + unat len) (\<lambda>x. set_prot p (cells s x))"
    and protect_fails:
      "inv s \<Longrightarrow> exactly (unat len) p \<Longrightarrow> vm_protect vm a len p s = (Err e, s') \<Longrightarrow>
       inv s' \<and> same_outside (cells s) (cells s') (unat a) (unat a + unat len)"
    and zero_ok:
      "inv s \<Longrightarrow> unat a + unat len \<le> 2 ^ 64 \<Longrightarrow> vm_zero vm a len s = (Ok u, s') \<Longrightarrow>
       inv s' \<and> cells s' = overlay (cells s) (unat a) (unat a + unat len) (\<lambda>x. set_byte 0 (cells s x))
       \<and> cut s' = cut s"
    and zero_err:
      "inv s \<Longrightarrow> unat a + unat len \<le> 2 ^ 64 \<Longrightarrow> vm_zero vm a len s = (Err e, s') \<Longrightarrow>
       inv s' \<and> same_outside (cells s) (cells s') (unat a) (unat a + unat len)"
    and sync_ok:
      "inv s \<Longrightarrow> vm_icache_sync vm a len s = (Ok u, s') \<Longrightarrow> inv s' \<and> cells s' = cells s"
    and sync_err: "vm_icache_sync vm a len s \<noteq> (Err e, s')"
begin

abbreviation framed :: "'s \<Rightarrow> nat \<Rightarrow> nat \<Rightarrow> 's \<Rightarrow> bool" where
  "framed s lo hi s' \<equiv> inv s' \<and> same_outside (cells s) (cells s') lo hi"

abbreviation room :: "u64 \<Rightarrow> nat \<Rightarrow> bool" where
  "room ps lo \<equiv> (\<forall>x\<ge>lo. fixable x) \<and> (\<forall>n p. unat ps dvd n \<and> p \<le> 7 \<longrightarrow> exactly n p)"

section \<open>The mapping path\<close>

lemma map_exact_ends:
  assumes "inv s" and "0 < unat len" and "fixable (unat a)" and "exactly (unat len) p"
  shows "ends (vm_map vm (Exact a) len p src) s
    (\<lambda>_ s'. inv s'
       \<and> cells s' = overlay (cells s) (unat a) (unat a + unat len) (\<lambda>x. Some (p, src_byte fbyte src (x - unat a)))
       \<and> cut s' (unat a) \<and> cut s' (unat a + unat len)
       \<and> (\<forall>x. cut s x \<and> (x \<le> unat a \<or> unat a + unat len \<le> x) \<longrightarrow> cut s' x))
    (framed s (unat a) (unat a + unat len))"
  using map_exact [OF assms] map_exact_err [OF assms] by (intro endsI) blast+

lemma zero_ends:
  assumes "inv s" and "unat a + unat len \<le> 2 ^ 64"
  shows "ends (vm_zero vm a len) s
    (\<lambda>_ s'. inv s' \<and> cells s' = overlay (cells s) (unat a) (unat a + unat len) (\<lambda>x. set_byte 0 (cells s x))
       \<and> cut s' = cut s)
    (framed s (unat a) (unat a + unat len))"
  using zero_ok [OF assms] zero_err [OF assms] by (intro endsI) blast+

text \<open>The file pages of a segment, their tail cleared.\<close>

lemma file_part:
  assumes inv: "inv s" and pow: "is_power_of_two ps" and ok: "load_ok ps ph"
    and dvd: "unat ps dvd unat b" and sp: "seg_plan_ok ps b i ph seg"
    and fits: "seg_hi ps ph + unat b < 2 ^ 64" and fixed: "room ps (seg_lo ps ph + unat b)" and bits: "q \<le> 7"
  shows "ends (case file_map seg of None \<Rightarrow> sret ()
         | Some fm \<Rightarrow> sbind (vm_map vm (Exact (fm_addr fm)) (fm_len fm) q (File fd (fm_off fm))) (\<lambda>got. sret ()))
      s (\<lambda>_ s1. ends (case zero_map seg of None \<Rightarrow> sret () | Some z \<Rightarrow> vm_zero vm (am_addr z) (am_len z)) s1
      (\<lambda>_ s2. inv s2
      \<and> cells s2 = overlay (cells s) (seg_lo ps ph + unat b) (file_pages_end ps b ph)
          (\<lambda>x. Some (q, seg_byte (fbyte fd) b ph x))
      \<and> (file_map seg \<noteq> None \<longrightarrow> cut s2 (seg_lo ps ph + unat b) \<and> cut s2 (file_pages_end ps b ph)))
      (framed s (seg_lo ps ph + unat b) (seg_hi ps ph + unat b)))
      (framed s (seg_lo ps ph + unat b) (seg_hi ps ph + unat b))"
    (is "ends ?file s (\<lambda>_ s1. ends ?zero s1 (\<lambda>_. ?Q) ?E) ?E")
proof (cases "file_map seg")
  case None
  then have "p_filesz ph = 0" "zero_map seg = None"
    using sp by (auto simp: seg_plan_ok_def split: option.splits)
  with None inv pages_end_geometry(3) [OF pow ok dvd] show ?thesis by (simp add: wp)
next
  case (Some fm)
  let ?lo = "seg_lo ps ph + unat b" and ?mid = "file_pages_end ps b ph" and ?hi = "seg_hi ps ph + unat b"
  note geo = file_geometry [OF pow ok dvd sp Some] and mid = pages_end_geometry(1,2) [OF pow ok dvd]
    and zgeo = zero_geometry [OF sp geo(6)]
  have zero: "ends ?zero s1 (\<lambda>_. ?Q) ?E"
    if s1: "inv s1" "cut s1 ?lo" "cut s1 ?mid"
      "cells s1 = overlay (cells s) ?lo ?mid (\<lambda>x. Some (q, fbyte fd (unat (fm_off fm) + (x - ?lo))))" for s1
  proof (cases "zero_map seg")
    case None
    have "cells s1 = overlay (cells s) ?lo ?mid (\<lambda>x. Some (q, seg_byte (fbyte fd) b ph x))"
      unfolding s1(4) using zgeo(1) [OF None] geo(4,6) by (auto simp: overlay_def seg_byte_def)
    with None s1 show ?thesis by (simp add: wp)
  next
    case (Some z)
    have "overlay (cells s1) (unat (am_addr z)) ?mid (\<lambda>x. set_byte 0 (cells s1 x))
        = overlay (cells s) ?lo ?mid (\<lambda>x. Some (q, seg_byte (fbyte fd) b ph x))"
      unfolding s1(4) using zgeo(2,3) [OF Some] geo(4,6,7)
      by (intro ext) (auto simp: overlay_def seg_byte_def)
    moreover have "same_outside (cells s) (cells s1) ?lo ?hi"
      unfolding s1(4) using mid by (intro same_outside_overlay) auto
    ultimately show ?thesis
      using zero_ends [OF s1(1), of "am_addr z" "am_len z"] zgeo(2,3) [OF Some] s1(2,3) Some mid geo(7) fits
      by (auto simp: same_outside_def elim!: ends_weaken)
  qed
  have "fixable (unat (fm_addr fm))" "exactly (unat (fm_len fm)) q"
    using fixed bits geo(1) file_len_dvd [OF dvd sp Some] by simp_all
  from map_exact_ends [OF inv geo(3) this, of "File fd (fm_off fm)"]
  show ?thesis
    unfolding Some option.case wp
  proof (rule ends_weaken)
    fix s1 assume "framed s (unat (fm_addr fm)) (unat (fm_addr fm) + unat (fm_len fm)) s1"
    then show "?E s1" using geo(1,2) mid by (auto simp: same_outside_def)
  qed (use zero geo(1,2) Some in \<open>auto simp: src_byte_def\<close>)
qed

text \<open>The anonymous pages behind them.\<close>

lemma anon_part:
  assumes inv: "inv s" and pow: "is_power_of_two ps" and ok: "load_ok ps ph"
    and dvd: "unat ps dvd unat b" and sp: "seg_plan_ok ps b i ph seg"
    and fixed: "room ps (seg_lo ps ph + unat b)" and bits: "q \<le> 7"
  shows "ends (case anon_map seg of None \<Rightarrow> sret ()
       | Some a \<Rightarrow> sbind (vm_map vm (Exact (am_addr a)) (am_len a) q Anon) (\<lambda>got. sret ())) s
     (\<lambda>_ s1. inv s1
      \<and> cells s1 = overlay (cells s) (file_pages_end ps b ph) (seg_hi ps ph + unat b) (\<lambda>x. Some (q, 0))
      \<and> (cut s (seg_lo ps ph + unat b) \<longrightarrow> cut s1 (seg_lo ps ph + unat b))
      \<and> (cut s (file_pages_end ps b ph) \<longrightarrow> cut s1 (seg_hi ps ph + unat b)))
     (framed s (seg_lo ps ph + unat b) (seg_hi ps ph + unat b))"
proof (cases "anon_map seg")
  case None
  with anon_geometry(1) [OF sp dvd] inv show ?thesis by (simp add: wp)
next
  case (Some a)
  note geo = anon_geometry(2-4) [OF sp dvd Some] and mid = pages_end_geometry(1,2) [OF pow ok dvd]
  have "fixable (unat (am_addr a))" "exactly (unat (am_len a)) q"
    using fixed bits geo(2) mid anon_len_dvd [OF dvd sp Some] by simp_all
  from map_exact_ends [OF inv geo(1) this, of Anon] mid geo(2,3) show ?thesis
    by (auto simp: Some wp src_byte_def same_outside_def elim!: ends_weaken)
qed

text \<open>Narrowing the protection of a segment that was mapped writable to clear its tail.\<close>

lemma protect_part:
  assumes pow: "is_power_of_two ps" and ok: "load_ok ps ph"
    and dvd: "unat ps dvd unat b" and sp: "seg_plan_ok ps b i ph seg"
    and fits: "seg_hi ps ph + unat b < 2 ^ 64" and range: "seg_range seg = Ok (lo, hi)"
    and pages: "\<forall>n p. unat ps dvd n \<and> p \<le> 7 \<longrightarrow> exactly n p"
    and q: "q = (if needs_write_window seg then prot seg OR PROT_WRITE else prot seg)"
    and s3: "inv s3" "file_map seg \<noteq> None \<longrightarrow> cut s3 (seg_lo ps ph + unat b) \<and> cut s3 (seg_hi ps ph + unat b)"
      "cells s3 = overlay (cells s) (seg_lo ps ph + unat b) (seg_hi ps ph + unat b)
         (\<lambda>x. Some (if x < file_pages_end ps b ph then q else prot seg, seg_byte (fbyte fd) b ph x))"
  shows "ends (if needs_write_window seg then
        sbind (slift (seg_range seg)) (\<lambda>(s, e). sbind (slift (psub e s)) (\<lambda>n. vm_protect vm s n (prot seg)))
        else sret ()) s3
     (\<lambda>_ s'. inv s' \<and> cells s' = seg_cells ps (fbyte fd) b ph (cells s))
     (framed s (seg_lo ps ph + unat b) (seg_hi ps ph + unat b))"
proof (cases "needs_write_window seg")
  case False
  with q have "q = prot_of ph" "prot seg = prot_of ph" using sp by (auto simp: seg_plan_ok_def)
  then have "cells s3 = seg_cells ps (fbyte fd) b ph (cells s)"
    unfolding s3(3) seg_cells_def by (simp only: if_cancel)
  with s3(1) False show ?thesis by (simp add: wp)
next
  case True
  let ?lo = "seg_lo ps ph + unat b" and ?hi = "seg_hi ps ph + unat b"
  have pr: "prot seg = prot_of ph" using sp by (simp add: seg_plan_ok_def)
  from True have "zero_map seg \<noteq> None" using sp by (simp add: seg_plan_ok_def)
  then obtain fm where fm: "file_map seg = Some fm"
    using sp by (cases "file_map seg") (auto simp: seg_plan_ok_def)
  then have lohi: "unat lo = ?lo" "unat hi = ?hi"
    using seg_range_ok [OF pow ok dvd sp fits] range by (auto split: if_splits)
  have n: "psub hi lo = (Ok (hi - lo) :: (u64, error) result)" "0 < unat (hi - lo)"
      "unat lo + unat (hi - lo) = ?hi"
    using lohi file_geometry(1,2,3) [OF pow ok dvd sp fm] pages_end_geometry [OF pow ok dvd]
    by (auto simp: psub_ok unat_sub_ok)
  have "unat ps dvd unat (hi - lo)"
    using n(3) lohi(1) page_bounds_dvd(1,3) [OF dvd, of ph] by (metis dvd_add_right_iff)
  with pages pr prot_of_le have whole: "exactly (unat (hi - lo)) (prot seg)" by simp
  have cuts: "cut s3 (unat lo)" "cut s3 (unat lo + unat (hi - lo))"
    unfolding n(3) using s3(2) fm lohi(1) by simp_all
  have "overlay (cells s3) ?lo ?hi (\<lambda>x. set_prot (prot seg) (cells s3 x))
      = seg_cells ps (fbyte fd) b ph (cells s)"
    unfolding s3(3) pr by (intro ext) (auto simp: overlay_def seg_cells_def)
  moreover have "same_outside (cells s) (cells s3) ?lo ?hi"
    unfolding s3(3) by (intro same_outside_overlay) auto
  ultimately have "ends (vm_protect vm lo (hi - lo) (prot seg)) s3
      (\<lambda>_ s'. inv s' \<and> cells s' = seg_cells ps (fbyte fd) b ph (cells s)) (framed s ?lo ?hi)"
    using protect_ok [OF s3(1) n(2) whole cuts, unfolded n(3)] lohi(1)
      protect_fails [OF s3(1) whole, of lo, unfolded n(3)]
    by (intro endsI) (auto simp: same_outside_def)
  with True n range show ?thesis by (simp add: wp)
qed

text \<open>One segment: when its turn is over it shows exactly its bytes with exactly its protection.\<close>

lemma fill_segment:
  assumes inv: "inv s" and pow: "is_power_of_two ps" and ok: "load_ok ps (phdrs img ! i)"
    and dvd: "unat ps dvd unat b" and sp: "seg_plan_ok ps b i (phdrs img ! i) seg"
    and fits: "seg_hi ps (phdrs img ! i) + unat b < 2 ^ 64"
    and fixed: "room ps (seg_lo ps (phdrs img ! i) + unat b)"
  shows "ends (fill_mapped_segment vm img fd seg) s
    (\<lambda>_ s'. inv s' \<and> cells s' = seg_cells ps (fbyte fd) b (phdrs img ! i) (cells s))
    (framed s (seg_lo ps (phdrs img ! i) + unat b) (seg_hi ps (phdrs img ! i) + unat b))"
    (is "ends _ s (\<lambda>_. ?Q) ?E")
proof -
  let ?ph = "phdrs img ! i"
  let ?lo = "seg_lo ps ?ph + unat b" and ?mid = "file_pages_end ps b ?ph" and ?hi = "seg_hi ps ?ph + unat b"
  define q where "q = (if needs_write_window seg then prot seg OR PROT_WRITE else prot seg)"
  have bits: "prot seg \<le> 7" "q \<le> 7" using sp prot_of_le by (auto simp: q_def seg_plan_ok_def)
  note mid = pages_end_geometry [OF pow ok dvd]
  have past: "seg_byte (fbyte fd) b ?ph x = 0" if "?mid \<le> x" for x
    using that file_geometry(5) [OF pow ok dvd sp] sp
    by (cases "file_map seg") (auto simp: seg_plan_ok_def)
  obtain lo hi where range: "seg_range seg = Ok (lo, hi)"
    using seg_range_ok [OF pow ok dvd sp fits] by auto
  let ?prot = "if needs_write_window seg then
        sbind (slift (seg_range seg)) (\<lambda>(s, e). sbind (slift (psub e s)) (\<lambda>n. vm_protect vm s n (prot seg)))
        else sret ()"
  let ?anon = "case anon_map seg of None \<Rightarrow> sret ()
       | Some a \<Rightarrow> sbind (vm_map vm (Exact (am_addr a)) (am_len a) (prot seg) Anon) (\<lambda>got. sret ())"
  let ?zero = "case zero_map seg of None \<Rightarrow> sret () | Some z \<Rightarrow> vm_zero vm (am_addr z) (am_len z)"
  let ?file = "case file_map seg of None \<Rightarrow> sret ()
       | Some fm \<Rightarrow> sbind (vm_map vm (Exact (fm_addr fm)) (fm_len fm) q (File fd (fm_off fm))) (\<lambda>got. sret ())"
  have anon: "ends ?anon s2 (\<lambda>_ s3. ends ?prot s3 (\<lambda>_. ?Q) ?E) ?E"
    if s2: "inv s2" "cells s2 = overlay (cells s) ?lo ?mid (\<lambda>x. Some (q, seg_byte (fbyte fd) b ?ph x))"
      "file_map seg \<noteq> None \<longrightarrow> cut s2 ?lo \<and> cut s2 ?mid" for s2
  proof (rule ends_weaken [OF anon_part [OF s2(1) pow ok dvd sp fixed bits(1)]])
    fix s3 assume s3: "inv s3 \<and> cells s3 = overlay (cells s2) ?mid ?hi (\<lambda>x. Some (prot seg, 0))
      \<and> (cut s2 ?lo \<longrightarrow> cut s3 ?lo) \<and> (cut s2 ?mid \<longrightarrow> cut s3 ?hi)"
    then have "cells s3 = overlay (cells s) ?lo ?hi
        (\<lambda>x. Some (if x < ?mid then q else prot seg, seg_byte (fbyte fd) b ?ph x))"
      using mid past s2(2) by (auto simp: overlay_def fun_eq_iff)
    with s3 s2(3) show "ends ?prot s3 (\<lambda>_. ?Q) ?E"
      by (intro protect_part [OF pow ok dvd sp fits range conjunct2 [OF fixed] q_def]) auto
  next
    fix s3 assume "framed s2 ?lo ?hi s3"
    then show "?E s3" using mid unfolding s2(2) by (auto simp: same_outside_def)
  qed
  have step: "ends ?file s (\<lambda>_ s1. ends ?zero s1 (\<lambda>_ s2. ends ?anon s2 (\<lambda>_ s3. ends ?prot s3 (\<lambda>_. ?Q) ?E) ?E) ?E) ?E"
    using file_part [OF inv pow ok dvd sp fits fixed bits(2), of fd]
    by (rule ends_weaken) (erule ends_weaken, blast intro: anon)
  show ?thesis
    unfolding fill_mapped_segment_def q_def [symmetric] wp
    by (intro conjI allI impI; (rule step | simp add: index_at_outcome range))
qed

lemma fill_segments:
  assumes "is_power_of_two ps" and "unat ps dvd unat b" and "seg_plans_ok ps b (phdrs img) is segs"
    and "\<forall>i\<in>set is. load_ok ps (phdrs img ! i) \<and> lo \<le> seg_lo ps (phdrs img ! i) + unat b
      \<and> seg_hi ps (phdrs img ! i) + unat b \<le> hi" and "hi < 2 ^ 64" and "inv s" and "room ps lo"
  shows "ends (sfor (fill_mapped_segment vm img fd) segs) s
    (\<lambda>_ s'. inv s' \<and> cells s' = image_cells ps (fbyte fd) b (phdrs img) is (cells s)) (framed s lo hi)"
  using assms(3,4,6)
proof (induction "is" segs arbitrary: s rule: list_all2_induct)
  case Nil
  then show ?case by (simp add: wp image_cells_def)
next
  case (Cons i "is" seg segs)
  let ?ph = "phdrs img ! i"
  have bounds: "lo \<le> seg_lo ps ?ph + unat b" "seg_hi ps ?ph + unat b \<le> hi" using Cons.prems(1) by auto
  have "ends (fill_mapped_segment vm img fd seg) s
    (\<lambda>_ s'. inv s' \<and> cells s' = seg_cells ps (fbyte fd) b ?ph (cells s))
    (framed s (seg_lo ps ?ph + unat b) (seg_hi ps ?ph + unat b))"
    using Cons.prems Cons.hyps(1) assms(1,2,5,7) by (intro fill_segment) auto
  then show ?case
    unfolding sfor.simps wp
  proof (rule ends_weaken)
    fix s1 assume s1: "inv s1 \<and> cells s1 = seg_cells ps (fbyte fd) b ?ph (cells s)"
    with Cons.IH [of s1] Cons.prems have "ends (sfor (fill_mapped_segment vm img fd) segs) s1
       (\<lambda>_ s'. inv s' \<and> cells s' = image_cells ps (fbyte fd) b (phdrs img) is (cells s1)) (framed s1 lo hi)"
      by simp
    moreover have "same_outside (cells s) (cells s1) lo hi"
      using s1 bounds by (auto simp: seg_cells_def same_outside_def)
    ultimately show "ends (sfor (fill_mapped_segment vm img fd) segs) s1
       (\<lambda>_ s'. inv s' \<and> cells s' = image_cells ps (fbyte fd) b (phdrs img) (i # is) (cells s)) (framed s lo hi)"
      using s1 by (auto simp: image_cells_def same_outside_def elim!: ends_weaken)
  qed (use bounds in \<open>auto simp: same_outside_def\<close>)
qed

lemma sync_ends: "inv s \<Longrightarrow> ends (vm_icache_sync vm a len) s (\<lambda>_ s'. inv s' \<and> cells s' = cells s) (\<lambda>_. False)"
  using sync_ok sync_err by (intro endsI) blast+

lemma sync_zeroed_loop:
  assumes "inv s"
  shows "ends (sfor (sync_zeroed vm img) segs) s (\<lambda>_ s'. inv s' \<and> cells s' = cells s) (\<lambda>_. False)"
proof (rule ends_for [where I = "\<lambda>_ s'. inv s' \<and> cells s' = cells s"])
  fix seg and s1 assume s1: "inv s1 \<and> cells s1 = cells s"
  then show "ends (sync_zeroed vm img seg) s1 (\<lambda>_ s'. inv s' \<and> cells s' = cells s) (\<lambda>_. False)"
    by (auto simp: sync_zeroed_def wp index_at_outcome sync_ends split: option.split
        intro: ends_weaken [OF sync_ends])
qed (use assms in auto)

lemma fill_mapped_ends:
  assumes wf: "wf_image ps img" and ok: "plan_ok ps img p" and "inv s" and "room ps (unat (base p))"
  shows "ends (fill_mapped vm img fd p) s
    (\<lambda>_ s'. inv s' \<and> cells s' = image_cells ps (fbyte fd) (bias p) (phdrs img) (loads img) (cells s))
    (framed s (unat (base p)) (unat (end_addr p)))"
proof -
  have "\<forall>i\<in>set (loads img). load_ok ps (phdrs img ! i)
      \<and> unat (base p) \<le> seg_lo ps (phdrs img ! i) + unat (bias p)
      \<and> seg_hi ps (phdrs img ! i) + unat (bias p) \<le> unat (end_addr p)"
    using seg_in_span [OF wf ok] wf_imageD(4) [OF wf] by blast
  moreover have "unat ps dvd unat (bias p)" "seg_plans_ok ps (bias p) (phdrs img) (loads img) (segments p)"
    using ok by (simp_all add: plan_ok_def)
  ultimately show ?thesis
    using fill_segments [of ps "bias p" img "loads img" "segments p" "unat (base p)" "unat (end_addr p)" s fd]
      wf_imageD(1) [OF wf] \<open>inv s\<close> le_unat_lt [of "unat (end_addr p)" "end_addr p"] assms(4)
    unfolding fill_mapped_def wp
    by (auto elim!: ends_weaken intro: ends_weaken [OF sync_zeroed_loop])
qed

text \<open>The reservation: taken from free memory, inaccessible, and where the plan says.\<close>

lemma load_mapped_reserves:
  assumes wf: "wf_image ps img" and page: "vm_page_size vm = ps" and "inv s"
    and run: "load_mapped vm heap img fd ps s = (Ok l, s')"
    and pos: "0 < unat (reserve_len (ld_plan l))"
  obtains s1 placement where "plan heap img ps placement = Ok (ld_plan l)"
    and "\<And>raw. placement = At raw \<Longrightarrow> unat ps dvd unat raw" and "inv s1"
    and "\<forall>x. unat (reserve_addr (ld_plan l)) \<le> x
          \<and> x < unat (reserve_addr (ld_plan l)) + unat (reserve_len (ld_plan l)) \<longrightarrow> cells s x = None"
    and "cells s1 = overlay (cells s) (unat (reserve_addr (ld_plan l)))
          (unat (reserve_addr (ld_plan l)) + unat (reserve_len (ld_plan l))) (\<lambda>x. Some (PROT_NONE, 0))"
    and "fill_mapped vm img fd (ld_plan l) s1 = (Ok (), s')" and "allocated l = False"
    and "room ps (unat (reserve_addr (ld_plan l)))"
proof (cases "e_type (ehdr img) = ET_DYN")
  case True
  with run obtain need raw s1 where m: "reservation_len img ps = Ok need"
      "vm_map vm Anywhere need PROT_NONE Anon s = (Ok raw, s1)"
      "plan heap img ps (At raw) = Ok (ld_plan l)" "allocated l = False"
      "fill_mapped vm img fd (ld_plan l) s1 = (Ok (), s')"
    by (auto simp: load_mapped_def outcome_simps Let_def)
  note res = reserved_At [OF wf m(1,3)]
  have whole: "\<forall>n p. unat ps dvd n \<and> p \<le> 7 \<longrightarrow> exactly n p" using page exact_pages by blast
  have len: "0 < unat need" "exactly (unat need) PROT_NONE" using res pos whole reserve_len_dvd [OF wf m(3)] by (simp_all add: PROT_NONE_def)
  note got = map_free [OF \<open>inv s\<close> len disjI1 [OF refl] m(2)]
  show thesis
  proof (rule that [OF m(3) _ _ _ _ m(5,4)])
    show "room ps (unat (reserve_addr (ld_plan l)))" using got res whole by blast
  qed (use got res page in \<open>auto simp: src_byte_def\<close>)
next
  case False
  with run obtain lo hi span s1 where m: "va_span img ps = Ok (lo, hi)"
      "psub hi lo = (Ok span :: (u64, error) result)"
      "vm_map vm (Hint lo) span PROT_NONE Anon s = (Ok lo, s1)"
      "plan heap img ps Fixed = Ok (ld_plan l)" "allocated l = False"
      "fill_mapped vm img fd (ld_plan l) s1 = (Ok (), s')"
    by (auto simp: load_mapped_def outcome_simps Let_def split: if_splits)
  note res = reserved_Fixed [OF wf m(1,2,4)]
  have whole: "\<forall>n p. unat ps dvd n \<and> p \<le> 7 \<longrightarrow> exactly n p" using page exact_pages by blast
  have len: "0 < unat span" "exactly (unat span) PROT_NONE" using res pos whole reserve_len_dvd [OF wf m(4)] by (simp_all add: PROT_NONE_def)
  note got = map_free [OF \<open>inv s\<close> len disjI2 [OF refl] m(3)]
  show thesis
  proof (rule that [OF m(4) _ _ _ _ m(6,5)])
    show "room ps (unat (reserve_addr (ld_plan l)))" using got res whole by blast
  qed (use got res page in \<open>auto simp: src_byte_def\<close>)
qed

lemma load_mapped_cells:
  assumes wf: "wf_image ps img" and page: "vm_page_size vm = ps" and "inv s"
    and run: "load_mapped vm heap img fd ps s = (Ok l, s')"
    and pos: "0 < unat (reserve_len (ld_plan l))"
  shows "inv s'" and "plan_ok ps img (ld_plan l)"
    and "unat (reserve_addr (ld_plan l)) \<le> unat (base (ld_plan l))"
    and "unat (end_addr (ld_plan l)) \<le> unat (reserve_addr (ld_plan l)) + unat (reserve_len (ld_plan l))"
    and "\<forall>x. unat (reserve_addr (ld_plan l)) \<le> x
          \<and> x < unat (reserve_addr (ld_plan l)) + unat (reserve_len (ld_plan l)) \<longrightarrow> cells s x = None"
    and "cells s' = image_cells ps (fbyte fd) (bias (ld_plan l)) (phdrs img) (loads img)
          (overlay (cells s) (unat (reserve_addr (ld_plan l)))
            (unat (reserve_addr (ld_plan l)) + unat (reserve_len (ld_plan l))) (\<lambda>x. Some (PROT_NONE, 0)))"
proof -
  obtain placement s1 where s1: "plan heap img ps placement = Ok (ld_plan l)"
    "\<And>raw. placement = At raw \<Longrightarrow> unat ps dvd unat raw" "inv s1"
    "\<forall>x. unat (reserve_addr (ld_plan l)) \<le> x
          \<and> x < unat (reserve_addr (ld_plan l)) + unat (reserve_len (ld_plan l)) \<longrightarrow> cells s x = None"
    "cells s1 = overlay (cells s) (unat (reserve_addr (ld_plan l)))
          (unat (reserve_addr (ld_plan l)) + unat (reserve_len (ld_plan l))) (\<lambda>x. Some (PROT_NONE, 0))"
    "fill_mapped vm img fd (ld_plan l) s1 = (Ok (), s')" "allocated l = False"
    "room ps (unat (reserve_addr (ld_plan l)))"
    by (rule load_mapped_reserves [OF assms]) blast
  note ok = plan_Ok [OF wf s1(1)]
  show "plan_ok ps img (ld_plan l)" using ok by simp
  show above: "unat (reserve_addr (ld_plan l)) \<le> unat (base (ld_plan l))"
    and "unat (end_addr (ld_plan l)) \<le> unat (reserve_addr (ld_plan l)) + unat (reserve_len (ld_plan l))"
    using reservation_covers [OF wf ok [THEN conjunct1] ok [THEN conjunct2] s1(2)] by auto
  with s1(8) have "room ps (unat (base (ld_plan l)))" by simp
  note fill = ends_Ok [OF fill_mapped_ends [OF wf ok [THEN conjunct1] s1(3) this] s1(6)]
  from fill s1(5) show "inv s'" "cells s' = image_cells ps (fbyte fd) (bias (ld_plan l)) (phdrs img) (loads img)
          (overlay (cells s) (unat (reserve_addr (ld_plan l)))
            (unat (reserve_addr (ld_plan l)) + unat (reserve_len (ld_plan l))) (\<lambda>x. Some (PROT_NONE, 0)))"
    by simp_all
  show "\<forall>x. unat (reserve_addr (ld_plan l)) \<le> x
          \<and> x < unat (reserve_addr (ld_plan l)) + unat (reserve_len (ld_plan l)) \<longrightarrow> cells s x = None"
    by (rule s1(4))
qed

text \<open>
  Releasing the reservation after a failure: when all that changed lies inside a range that was
  free before, clearing the range restores the cells.
\<close>

lemma restored:
  assumes "\<forall>x. lo \<le> x \<and> x < hi \<longrightarrow> c x = None" and "same_outside c c' lo hi"
  shows "overlay c' lo hi (\<lambda>_. None) = c"
  using assms by (auto simp: overlay_def same_outside_def fun_eq_iff)

lemma unmap_restores:
  assumes no_err: "\<And>a len s e s'. vm_unmap vm a len s \<noteq> (Err e, s')"
    and free: "\<forall>x. unat a \<le> x \<and> x < unat a + unat len \<longrightarrow> cells s x = None" and pos: "0 < unat len" "exactly (unat len) PROT_NONE"
    and s1: "inv s1" "same_outside (cells s) (cells s1) (unat a) (unat a + unat len)"
  shows "ends (vm_unmap vm a len) s1 (\<lambda>_ s'. inv s' \<and> cells s' = cells s) (\<lambda>_. False)"
  using unmap_ok [OF s1(1) pos] restored [OF free s1(2)] no_err by (intro endsI) auto

text \<open>A load that fails leaves the address space as it was, unless the planner refused.\<close>

lemma load_mapped_Err:
  assumes wf: "wf_image ps img" and page: "vm_page_size vm = ps" and "inv s"
    and some: "img_lo ps img < img_hi ps img"
    and no_err: "\<And>a len s e s'. vm_unmap vm a len s \<noteq> (Err e, s')"
    and run: "load_mapped vm heap img fd ps s = (Err e, s')"
  shows "inv s' \<and> cells s' = cells s \<or> (\<exists>placement v. va_span img ps = Ok v \<and> plan heap img ps placement = Err e)"
proof (rule ccontr)
  assume neg: "\<not> ?thesis"
  have fill: "inv s' \<and> cells s' = cells s"
    if plan: "plan heap img ps placement = Ok p" and raw: "\<And>raw. placement = At raw \<Longrightarrow> unat ps dvd unat raw"
      and free: "\<forall>x. unat (reserve_addr p) \<le> x \<and> x < unat (reserve_addr p) + unat (reserve_len p) \<longrightarrow> cells s x = None"
      and s1: "inv s1" "same_outside (cells s) (cells s1) (unat (reserve_addr p)) (unat (reserve_addr p) + unat (reserve_len p))"
      and pos: "0 < unat (reserve_len p)" and fixed: "room ps (unat (reserve_addr p))"
      and err: "son_err (fill_mapped vm img fd p) (unload vm \<lparr> ld_plan = p, allocated = False \<rparr>) s1 = (Err e, s')"
    for placement p s1
  proof -
    note ok = plan_Ok [OF wf plan] and whole = reserve_len_dvd [OF wf plan]
    then have sz: "exactly (unat (reserve_len p)) PROT_NONE" using exact_pages page by (simp add: PROT_NONE_def)
    note cov = reservation_covers [OF wf ok [THEN conjunct1] ok [THEN conjunct2] raw]
    from err obtain s2 where s2: "fill_mapped vm img fd p s1 = (Err e, s2)"
      and un: "vm_unmap vm (reserve_addr p) (reserve_len p) s2 = (Ok (), s')"
      by (auto simp: son_err_outcome unload_def sdiscard_outcome no_err)
    have "framed s1 (unat (base p)) (unat (end_addr p)) s2"
      using ends_Err [OF fill_mapped_ends [OF wf ok [THEN conjunct1] s1(1)] s2] fixed cov by simp
    then have "inv s2" "same_outside (cells s) (cells s2) (unat (reserve_addr p)) (unat (reserve_addr p) + unat (reserve_len p))"
      using s1(2) cov by (auto simp: same_outside_def)
    from ends_Ok [OF unmap_restores [OF no_err free pos sz this] un] show ?thesis by simp
  qed
  have refused: "vm_map vm Anywhere len q src s \<noteq> (Err e, s')" "vm_map vm (Hint h) len q src s \<noteq> (Err e, s')"
    for len q src h using neg map_free_err [OF \<open>inv s\<close>] by blast+
  show False
  proof (cases "e_type (ehdr img) = ET_DYN")
    case True
    with run neg \<open>inv s\<close> obtain need raw s1 p where
        m: "reservation_len img ps = Ok need" "vm_map vm Anywhere need PROT_NONE Anon s = (Ok raw, s1)"
          "plan heap img ps (At raw) = Ok p"
          "son_err (fill_mapped vm img fd p) (unload vm \<lparr> ld_plan = p, allocated = False \<rparr>) s1 = (Err e, s')"
      by (auto simp: load_mapped_def sbind_Err sbind_Ok refused Let_def)
    have pos: "0 < unat need" using reservation_len_Ok [OF wf m(1)] some by (metis add_gr_0 zero_less_diff)
    note res = reserved_At [OF wf m(1,3)]
    have sz: "exactly (unat need) PROT_NONE" using reserve_len_dvd [OF wf m(3)] res(2) exact_pages page by (simp add: PROT_NONE_def)
    from map_free [OF \<open>inv s\<close> pos sz _ m(2)] page exact_pages fill [OF m(3) _ _ _ _ _ _ m(4)] res pos neg show False
      by (auto simp: same_outside_overlay)
  next
    case False
    with run neg \<open>inv s\<close> obtain lo hi span got s1 where
        m: "va_span img ps = Ok (lo, hi)" "psub hi lo = (Ok span :: (u64, error) result)"
          "vm_map vm (Hint lo) span PROT_NONE Anon s = (Ok got, s1)"
      and rest: "got \<noteq> lo \<and> vm_unmap vm got span s1 = (Ok (), s')
        \<or> got = lo \<and> (\<exists>p. plan heap img ps Fixed = Ok p \<and>
          son_err (fill_mapped vm img fd p) (unload vm \<lparr> ld_plan = p, allocated = False \<rparr>) s1 = (Err e, s'))"
      by (auto simp: load_mapped_def sbind_Err sbind_Ok sdiscard_outcome no_err psub_outcome(2) refused Let_def
          split: if_splits)
    have pos: "0 < unat span" using m(1,2) va_span_wf(1) [OF wf] some by (auto simp: psub_outcome)
    have "unat ps dvd unat span" using m(1,2) va_span_wf(1) [OF wf] img_bounds_dvd [of ps img]
      by (auto simp: psub_outcome dvd_diff_nat)
    then have sz: "exactly (unat span) PROT_NONE" using exact_pages page by (simp add: PROT_NONE_def)
    note free = map_free [OF \<open>inv s\<close> pos sz _ m(3)]
    from rest show False
    proof (elim disjE conjE exE)
      assume "vm_unmap vm got span s1 = (Ok (), s')"
      with unmap_restores [OF no_err _ pos sz, of got s s1] free neg show False
        by (auto simp: ends_iff same_outside_overlay)
    next
      fix p assume p: "got = lo" "plan heap img ps Fixed = Ok p"
        "son_err (fill_mapped vm img fd p) (unload vm \<lparr> ld_plan = p, allocated = False \<rparr>) s1 = (Err e, s')"
      note res = reserved_Fixed [OF wf m(1,2) p(2)]
      from free fill [OF p(2) _ _ _ _ _ _ p(3)] res pos p(1) page exact_pages neg show False
        by (auto simp: same_outside_overlay)
    qed
  qed
qed

end

section \<open>The copying path\<close>

text \<open>Laying the bytes of a segment over mapped cells without touching protections.\<close>

definition copied_cells :: "u64 \<Rightarrow> (nat \<Rightarrow> u8) \<Rightarrow> u64 \<Rightarrow> Phdr \<Rightarrow> cells \<Rightarrow> cells" where
  "copied_cells ps f b ph c =
     overlay c (sv b ph) (seg_hi ps ph + unat b) (\<lambda>x. set_byte (seg_byte f b ph x) (c x))"

definition copied_image :: "u64 \<Rightarrow> (nat \<Rightarrow> u8) \<Rightarrow> u64 \<Rightarrow> Phdr list \<Rightarrow> nat list \<Rightarrow> cells \<Rightarrow> cells" where
  "copied_image ps f b phs is = fold (\<lambda>i. copied_cells ps f b (phs ! i)) is"

lemma copied_image_out:
  "(\<forall>i\<in>set is. x < sv b (phs ! i) \<or> seg_hi ps (phs ! i) + unat b \<le> x) \<Longrightarrow>
   copied_image ps f b phs is c x = c x"
  by (induction "is" arbitrary: c) (auto simp: copied_image_def copied_cells_def)

lemma copied_image_None: "copied_image ps f b phs is c x = None \<longleftrightarrow> c x = None"
  by (induction "is" arbitrary: c) (auto simp: copied_image_def copied_cells_def overlay_def set_byte_def)

lemma copied_image_in:
  assumes "sorted_wrt (page_order ps phs) is" and "i \<in> set is"
    and "sv b (phs ! i) \<le> x" and "x < seg_hi ps (phs ! i) + unat b" and "c x \<noteq> None"
  shows "map_option snd (copied_image ps f b phs is c x) = Some (seg_byte f b (phs ! i) x)"
  using assms
proof (induction "is" arbitrary: c)
  case (Cons j "is")
  let ?d = "copied_cells ps f b (phs ! j) c"
  show ?case
  proof (cases "i \<in> set is")
    case True
    with Cons.IH [of ?d] Cons.prems show ?thesis
      by (auto simp: copied_image_def copied_cells_def overlay_def set_byte_def)
  next
    case False
    with Cons.prems have i: "i = j" by simp
    have "seg_hi ps (phs ! j) + unat b \<le> sv b (phs ! k)" if "k \<in> set is" for k
      using Cons.prems(1) that by (simp add: sv_def)
    then have "copied_image ps f b phs is ?d x = ?d x"
      using Cons.prems(4) i by (intro copied_image_out ballI) fastforce
    then show ?thesis using Cons.prems(3-5) i
      by (auto simp: copied_image_def copied_cells_def set_byte_def)
  qed
qed simp

text \<open>
  The rest of the contract, for the copies: writing, allocating, and protection calls that change
  no byte. Clearing a range that returns was inside the address space, and any address can be
  mapped.
\<close>

locale address_space = mapping_space vm inv cells cut fbyte "\<lambda>_. True" "\<lambda>_ _. True"
  for vm :: "'s Vm" and inv cells cut fbyte +
  assumes protect_bytes:
      "inv s \<Longrightarrow> vm_protect vm a len p s = (Ok u, s') \<or> vm_protect vm a len p s = (Err e, s') \<Longrightarrow>
       inv s' \<and> (\<forall>x. map_option snd (cells s' x) = map_option snd (cells s x))"
    and write_ok:
      "inv s \<Longrightarrow> vm_write vm a bs s = (Ok u, s') \<Longrightarrow>
       inv s' \<and> cells s' = overlay (cells s) (unat a) (unat a + length bs) (\<lambda>x. set_byte (bs ! (x - unat a)) (cells s x))"
    and write_err:
      "inv s \<Longrightarrow> vm_write vm a bs s = (Err e, s') \<Longrightarrow>
       inv s' \<and> same_outside (cells s) (cells s') (unat a) (unat a + length bs)"
    and zero_inside: "vm_zero vm a len s = (Ok u, s') \<or> vm_zero vm a len s = (Err e, s') \<Longrightarrow> unat a + unat len \<le> 2 ^ 64"
    and alloc_ok:
      "inv s \<Longrightarrow> 0 < unat len \<Longrightarrow> is_power_of_two al \<Longrightarrow> vm_alloc_aligned vm al len s = (Ok got, s') \<Longrightarrow>
       (\<forall>x. unat got \<le> x \<and> x < unat got + unat len \<longrightarrow> cells s x = None) \<Longrightarrow>
       inv s' \<and> unat al dvd unat got
       \<and> (\<exists>f. cells s' = overlay (cells s) (unat got) (unat got + unat len) (\<lambda>x. Some (RW, f x)))"
    and alloc_err:
      "inv s \<Longrightarrow> vm_alloc_aligned vm al len s = (Err e, s') \<Longrightarrow> inv s' \<and> cells s' = cells s"
    and free_ok:
      "inv s \<Longrightarrow> 0 < unat len \<Longrightarrow> vm_free_aligned vm a len s = (Ok u, s') \<Longrightarrow>
       inv s' \<and> cells s' = overlay (cells s) (unat a) (unat a + unat len) (\<lambda>_. None)"
    and free_err: "vm_free_aligned vm a len s \<noteq> (Err e, s')"
begin

lemma zero_anywhere_ends:
  assumes "inv s"
  shows "ends (vm_zero vm a len) s
    (\<lambda>_ s'. inv s' \<and> cells s' = overlay (cells s) (unat a) (unat a + unat len) (\<lambda>x. set_byte 0 (cells s x))
       \<and> cut s' = cut s)
    (framed s (unat a) (unat a + unat len))"
  using zero_ok [OF assms] zero_err [OF assms] zero_inside by (intro endsI) blast+

end

locale copying = address_space vm inv cells cut fbyte + image_reader src content
  for vm :: "'s Vm" and inv cells cut fbyte src content
begin

lemma write_ends:
  assumes "inv s"
  shows "ends (vm_write vm a bs) s
    (\<lambda>_ s'. inv s' \<and> cells s' = overlay (cells s) (unat a) (unat a + length bs)
       (\<lambda>x. set_byte (bs ! (x - unat a)) (cells s x)))
    (framed s (unat a) (unat a + length bs))"
  using write_ok [OF assms] write_err [OF assms] by (intro endsI) blast+

text \<open>The loop that copies the file data, from any point of it on.\<close>

lemma copy_file_ends:
  assumes "copied \<le> p_filesz ph" and "inv s"
  shows "ends (copy_file vm src ph vaddr copied) s
    (\<lambda>_ s'. inv s' \<and> cells s' = overlay (cells s) (unat vaddr + unat copied) (unat vaddr + unat (p_filesz ph))
       (\<lambda>x. set_byte (content (unat (p_offset ph) + x - unat vaddr)) (cells s x)))
    (framed s (unat vaddr + unat copied) (unat vaddr + unat (p_filesz ph)))"
  using assms
proof (induction "unat (p_filesz ph) - unat copied" arbitrary: copied s rule: less_induct)
  case less
  let ?v = "unat vaddr" and ?c = "unat copied" and ?fs = "unat (p_filesz ph)"
  let ?byte = "\<lambda>x. content (unat (p_offset ph) + x - ?v)"
  show ?case
  proof (cases "copied < p_filesz ph")
    case False
    with less.prems show ?thesis by (simp add: copy_file.simps wp word_less_nat_alt)
  next
    case True
    define n where "n = min COPY_CHUNK (p_filesz ph - copied)"
    note step = copy_step [OF True n_def]
    have "ends (vm_write vm addr buf) s (\<lambda>_ s1. ends (copy_file vm src ph vaddr (copied + n)) s1
        (\<lambda>_ s'. inv s' \<and> cells s' = overlay (cells s) (?v + ?c) (?v + ?fs) (\<lambda>x. set_byte (?byte x) (cells s x)))
        (framed s (?v + ?c) (?v + ?fs))) (framed s (?v + ?c) (?v + ?fs))"
      if off: "unat off = unat (p_offset ph) + ?c" and addr: "unat addr = ?v + ?c"
        and buf: "read_exact_at src off (unat n) = Ok buf" for off addr buf
    proof (rule ends_weaken [OF write_ends [OF less.prems(2)]])
      have len: "length buf = unat n" using read_length [OF buf] .
      fix s1 assume s1: "inv s1 \<and> cells s1 = overlay (cells s) (unat addr) (unat addr + length buf)
         (\<lambda>x. set_byte (buf ! (x - unat addr)) (cells s x))"
      have chunk: "cells s1 = overlay (cells s) (?v + ?c) (?v + ?c + unat n) (\<lambda>x. set_byte (?byte x) (cells s x))"
        using s1 addr len off read_content [OF buf] by (auto intro!: overlay_cong simp: add.assoc)
      have "overlay (cells s1) (?v + ?c + unat n) (?v + ?fs) (\<lambda>x. set_byte (?byte x) (cells s1 x))
          = overlay (cells s) (?v + ?c) (?v + ?fs) (\<lambda>x. set_byte (?byte x) (cells s x))"
        unfolding chunk using step(3) by (auto simp: overlay_def)
      moreover have "same_outside (cells s) (cells s1) (?v + ?c) (?v + ?fs)"
        unfolding chunk using step(3) by (intro same_outside_overlay) auto
      moreover have "ends (copy_file vm src ph vaddr (copied + n)) s1
          (\<lambda>_ s'. inv s' \<and> cells s' = overlay (cells s1) (?v + unat (copied + n)) (?v + ?fs)
             (\<lambda>x. set_byte (?byte x) (cells s1 x)))
          (framed s1 (?v + unat (copied + n)) (?v + ?fs))"
        using s1 step True by (intro less.hyps) (auto simp: word_le_nat_alt word_less_nat_alt)
      ultimately show "ends (copy_file vm src ph vaddr (copied + n)) s1
        (\<lambda>_ s'. inv s' \<and> cells s' = overlay (cells s) (?v + ?c) (?v + ?fs) (\<lambda>x. set_byte (?byte x) (cells s x)))
        (framed s (?v + ?c) (?v + ?fs))"
        using step(1) by (auto simp: add.assoc same_outside_def elim!: ends_weaken)
    next
      fix s1 assume "framed s (unat addr) (unat addr + length buf) s1"
      then show "framed s (?v + ?c) (?v + ?fs) s1"
        using addr read_length [OF buf] step(3) by (auto simp: same_outside_def)
    qed
    with True less.prems(2) show ?thesis
      unfolding copy_file.simps [of vm src ph vaddr copied] n_def [symmetric]
      by (auto simp: wp Let_def n_def [symmetric] padd_outcome)
  qed
qed

lemma fill_copied_segment_ends:
  assumes pow: "is_power_of_two ps" and page: "vm_page_size vm = ps" and ok: "load_ok ps (phdrs img ! idx seg)"
    and dvd: "unat ps dvd unat (bias p)" and "inv s"
  shows "ends (fill_copied_segment vm img src p seg) s
    (\<lambda>_ s'. inv s' \<and> cells s' = copied_cells ps content (bias p) (phdrs img ! idx seg) (cells s))
    (framed s (seg_lo ps (phdrs img ! idx seg) + unat (bias p)) (seg_hi ps (phdrs img ! idx seg) + unat (bias p)))"
    (is "ends _ s (\<lambda>_. ?Q) ?E")
proof -
  let ?ph = "phdrs img ! idx seg"
  let ?v = "sv (bias p) ?ph" and ?hi = "seg_hi ps ?ph + unat (bias p)" and ?fs = "unat (p_filesz ?ph)"
  have lo: "seg_lo ps ?ph + unat (bias p) \<le> ?v" by (simp add: sv_def seg_lo_le_vaddr)
  have hi: "?v + ?fs \<le> ?hi"
    using ok vaddr_le_seg_hi [OF pow, of ?ph] by (simp add: sv_def load_ok_def)
  have zero: "ends (if zstart < mem_end then sbind (slift (psub mem_end zstart)) (vm_zero vm zstart) else sret ()) s1
      (\<lambda>_. ?Q) ?E"
    if s1: "inv s1" "cells s1 = overlay (cells s) ?v (?v + ?fs)
         (\<lambda>x. set_byte (content (unat (p_offset ?ph) + x - ?v)) (cells s x))"
      and z: "unat zstart = ?v + ?fs" "unat mem_end = ?hi" for zstart mem_end s1
  proof -
    have "overlay (cells s1) (?v + ?fs) ?hi (\<lambda>x. set_byte 0 (cells s1 x))
        = copied_cells ps content (bias p) ?ph (cells s)"
      unfolding s1(2) copied_cells_def using hi by (auto simp: overlay_def seg_byte_def fun_eq_iff)
    moreover have "same_outside (cells s) (cells s1) (seg_lo ps ?ph + unat (bias p)) ?hi"
      unfolding s1(2) using lo hi by (intro same_outside_overlay) auto
    moreover have "unat (mem_end - zstart) = ?hi - (?v + ?fs)" if "zstart < mem_end"
      using that z by (simp add: word_less_nat_alt unat_sub_ok)
    ultimately show ?thesis
      using zero_anywhere_ends [OF s1(1), of zstart "mem_end - zstart"] z hi lo s1(1)
      by (auto simp: wp psub_ok word_less_nat_alt same_outside_def elim!: ends_weaken)
  qed
  have copy: "ends (copy_file vm src ?ph vaddr 0) s
      (\<lambda>_ s1. inv s1 \<and> cells s1 = overlay (cells s) ?v (?v + ?fs)
         (\<lambda>x. set_byte (content (unat (p_offset ?ph) + x - ?v)) (cells s x))) ?E"
    if "unat vaddr = ?v" for vaddr
    using copy_file_ends [of 0 ?ph s vaddr] \<open>inv s\<close> that lo hi
    by (auto simp: same_outside_def elim!: ends_weaken)
  have tail: "ends (sbind (slift (padd vaddr (p_memsz ?ph))) (\<lambda>mend.
      sbind (slift (align_up_or mend (vm_page_size vm) ENOMEM)) (\<lambda>mem_end.
      sbind (slift (padd vaddr (p_filesz ?ph))) (\<lambda>zstart.
      if zstart < mem_end then sbind (slift (psub mem_end zstart)) (\<lambda>n. vm_zero vm zstart n) else sret ())))) s1
      (\<lambda>_. ?Q) ?E"
    if v: "unat vaddr = ?v" and s1: "inv s1 \<and> cells s1 = overlay (cells s) ?v (?v + ?fs)
         (\<lambda>x. set_byte (content (unat (p_offset ?ph) + x - ?v)) (cells s x))" for vaddr s1
  proof -
    have failed: "?E s1" using s1 lo hi by (auto simp: same_outside_def)
    have mem_end: "unat mem_end = ?hi"
      if "padd vaddr (p_memsz ?ph) = (Ok mend :: (u64, error) result)" "align_up_or mend ps ENOMEM = Ok mem_end" for mend mem_end
      using that v seg_end_biased [OF dvd, of ?ph] by (simp add: padd_outcome align_up_or_iff [OF pow] seg_end_def)
    show ?thesis
      unfolding wp page
    proof (intro conjI allI impI)
      fix mend mem_end' zstart
      assume "padd vaddr (p_memsz ?ph) = (Ok mend :: (u64, error) result)" "align_up_or mend ps ENOMEM = Ok mem_end'"
        "padd vaddr (p_filesz ?ph) = (Ok zstart :: (u64, error) result)"
      with mem_end v s1 show "ends (if zstart < mem_end' then sbind (slift (psub mem_end' zstart)) (vm_zero vm zstart)
          else sret ()) s1 (\<lambda>_. ?Q) ?E"
        by (intro zero) (auto simp: padd_outcome)
    qed (use failed in auto)
  qed
  show ?thesis
    unfolding fill_copied_segment_def ends_bind [of "slift (index_at _ _)"] ends_bind [of "slift (padd _ (bias p))"]
      ends_bind [of "copy_file _ _ _ _ _"]
  proof (simp only: ends_lift index_at_outcome, intro conjI allI impI)
    fix ph vaddr assume ph: "idx seg < length (phdrs img) \<and> ph = ?ph"
      and v: "padd (p_vaddr ph) (bias p) = (Ok vaddr :: (u64, error) result)"
    from v ph have v': "unat vaddr = ?v" by (simp add: padd_outcome sv_def)
    show "ends (copy_file vm src ph vaddr 0) s (\<lambda>_ s1.
        ends (sbind (slift (padd vaddr (p_memsz ph))) (\<lambda>mend.
      sbind (slift (align_up_or mend (vm_page_size vm) ENOMEM)) (\<lambda>mem_end.
      sbind (slift (padd vaddr (p_filesz ph))) (\<lambda>zstart.
      if zstart < mem_end then sbind (slift (psub mem_end zstart)) (\<lambda>n. vm_zero vm zstart n) else sret ())))) s1
      (\<lambda>_. ?Q) ?E) ?E"
      using ph copy [OF v'] tail [OF v'] by (auto elim!: ends_weaken)
  qed (use \<open>inv s\<close> in auto)
qed

lemma fill_copied_segments:
  assumes "is_power_of_two ps" and "vm_page_size vm = ps" and "unat ps dvd unat (bias p)"
    and "seg_plans_ok ps (bias p) (phdrs img) is segs"
    and "\<forall>i\<in>set is. load_ok ps (phdrs img ! i) \<and> lo \<le> seg_lo ps (phdrs img ! i) + unat (bias p)
      \<and> seg_hi ps (phdrs img ! i) + unat (bias p) \<le> hi" and "inv s"
  shows "ends (sfor (fill_copied_segment vm img src p) segs) s
    (\<lambda>_ s'. inv s' \<and> cells s' = copied_image ps content (bias p) (phdrs img) is (cells s)) (framed s lo hi)"
  using assms(4-6)
proof (induction "is" segs arbitrary: s rule: list_all2_induct)
  case Nil
  then show ?case by (simp add: wp copied_image_def)
next
  case (Cons i "is" seg segs)
  let ?ph = "phdrs img ! i"
  have bounds: "lo \<le> seg_lo ps ?ph + unat (bias p)" "seg_hi ps ?ph + unat (bias p) \<le> hi"
    and i: "idx seg = i" using Cons by (auto simp: seg_plan_ok_def)
  have "ends (fill_copied_segment vm img src p seg) s
    (\<lambda>_ s'. inv s' \<and> cells s' = copied_cells ps content (bias p) ?ph (cells s))
    (framed s (seg_lo ps ?ph + unat (bias p)) (seg_hi ps ?ph + unat (bias p)))"
    using fill_copied_segment_ends [OF assms(1,2) _ assms(3), of img seg s] Cons.prems i by simp
  then show ?case
    unfolding sfor.simps wp
  proof (rule ends_weaken)
    fix s1 assume s1: "inv s1 \<and> cells s1 = copied_cells ps content (bias p) ?ph (cells s)"
    with Cons.IH [of s1] Cons.prems have "ends (sfor (fill_copied_segment vm img src p) segs) s1
       (\<lambda>_ s'. inv s' \<and> cells s' = copied_image ps content (bias p) (phdrs img) is (cells s1)) (framed s1 lo hi)"
      by simp
    moreover have "same_outside (cells s) (cells s1) lo hi"
      using s1 bounds seg_lo_le_vaddr [of ps ?ph] by (auto simp: copied_cells_def same_outside_def sv_def)
    ultimately show "ends (sfor (fill_copied_segment vm img src p) segs) s1
       (\<lambda>_ s'. inv s' \<and> cells s' = copied_image ps content (bias p) (phdrs img) (i # is) (cells s)) (framed s lo hi)"
      using s1 by (auto simp: copied_image_def same_outside_def elim!: ends_weaken)
  qed (use bounds in \<open>auto simp: same_outside_def\<close>)
qed

lemma sync_ranges_loop:
  assumes "inv s"
  shows "ends (sfor (\<lambda>(addr, len). vm_icache_sync vm addr len) rs) s
    (\<lambda>_ s'. inv s' \<and> cells s' = cells s) (\<lambda>_. False)"
proof (rule ends_for [where I = "\<lambda>_ s'. inv s' \<and> cells s' = cells s"])
  fix r :: "u64 \<times> u64" and s1 assume "inv s1 \<and> cells s1 = cells s"
  then show "ends (case r of (addr, len) \<Rightarrow> vm_icache_sync vm addr len) s1
      (\<lambda>_ s'. inv s' \<and> cells s' = cells s) (\<lambda>_. False)"
    by (auto split: prod.splits intro: ends_weaken [OF sync_ends])
qed (use assms in auto)

abbreviation same_bytes :: "'s \<Rightarrow> 's \<Rightarrow> bool" where
  "same_bytes s s' \<equiv> inv s' \<and> (\<forall>x. map_option snd (cells s' x) = map_option snd (cells s x))"

lemma seg_range_no_err: "seg_range seg \<noteq> Err e"
  by (auto simp: seg_range_def Let_def outcome_simps padd_outcome split: option.splits)

lemma exec_ranges_no_err: "exec_ranges_of phs segs \<noteq> Err e"
  by (induction segs) (auto simp: outcome_simps seg_range_no_err psub_outcome split: if_splits)

lemma protect_loop:
  assumes "inv s"
  shows "ends (sfor (protect_segment vm) segs) s (\<lambda>_. same_bytes s) (\<lambda>_. False)"
proof (rule ends_for [where I = "\<lambda>_. same_bytes s"])
  fix seg s1 assume s1: "same_bytes s s1"
  have "ends (vm_protect vm a n q) s1 (\<lambda>_. same_bytes s) (same_bytes s)" for a n q
    using protect_bytes [of s1 a n q] s1 by (intro endsI) metis+
  then show "ends (protect_segment vm seg) s1 (\<lambda>_. same_bytes s) (\<lambda>_. False)"
    by (auto simp: protect_segment_def wp seg_range_no_err psub_outcome)
qed (use assms in auto)

lemma fill_copied_ends:
  assumes wf: "wf_image ps img" and page: "vm_page_size vm = ps" and ok: "plan_ok ps img p" and "inv s"
  shows "ends (fill_copied vm heap img src p) s
    (\<lambda>_ s'. inv s' \<and> (\<forall>x. map_option snd (cells s' x)
        = map_option snd (copied_image ps content (bias p) (phdrs img) (loads img) (cells s) x)))
    (framed s (unat (base p)) (unat (end_addr p)))"
proof -
  let ?E = "framed s (unat (base p)) (unat (end_addr p))"
  have "\<forall>i\<in>set (loads img). load_ok ps (phdrs img ! i)
      \<and> unat (base p) \<le> seg_lo ps (phdrs img ! i) + unat (bias p)
      \<and> seg_hi ps (phdrs img ! i) + unat (bias p) \<le> unat (end_addr p)"
    using seg_in_span [OF wf ok] wf_imageD(4) [OF wf] by blast
  moreover have "unat ps dvd unat (bias p)" "seg_plans_ok ps (bias p) (phdrs img) (loads img) (segments p)"
    using ok by (simp_all add: plan_ok_def)
  ultimately have "ends (sfor (fill_copied_segment vm img src p) (segments p)) s
    (\<lambda>_ s'. inv s' \<and> cells s' = copied_image ps content (bias p) (phdrs img) (loads img) (cells s)) ?E"
    using \<open>inv s\<close> by (intro fill_copied_segments [OF wf_imageD(1) [OF wf] page]) auto
  then show ?thesis
    unfolding fill_copied_def exec_ranges_def wp using \<open>inv s\<close>
    by (auto simp: guard_outcome exec_ranges_no_err elim!: ends_weaken
        intro!: ends_weaken [OF sync_ranges_loop] ends_weaken [OF protect_loop])
qed

lemma load_copied_bytes:
  assumes wf: "wf_image ps img" and page: "vm_page_size vm = ps" and "inv s"
    and run: "load_copied vm heap img src ps s = (Ok l, s')"
    and free: "\<forall>x. unat (reserve_addr (ld_plan l)) \<le> x
        \<and> x < unat (reserve_addr (ld_plan l)) + unat (reserve_len (ld_plan l)) \<longrightarrow> cells s x = None"
    and pos: "0 < unat (reserve_len (ld_plan l))"
  obtains c where "inv s'" and "plan_ok ps img (ld_plan l)" and "allocated l"
    and "unat (reserve_addr (ld_plan l)) \<le> unat (base (ld_plan l))"
    and "unat (end_addr (ld_plan l)) \<le> unat (reserve_addr (ld_plan l)) + unat (reserve_len (ld_plan l))"
    and "\<forall>x. (c x = None) \<longleftrightarrow> (cells s x = None) \<and> \<not> (unat (reserve_addr (ld_plan l)) \<le> x
        \<and> x < unat (reserve_addr (ld_plan l)) + unat (reserve_len (ld_plan l)))"
    and "same_outside (cells s) c (unat (reserve_addr (ld_plan l)))
        (unat (reserve_addr (ld_plan l)) + unat (reserve_len (ld_plan l)))"
    and "\<forall>x. map_option snd (cells s' x) = map_option snd
        (copied_image ps content (bias (ld_plan l)) (phdrs img) (loads img) c x)"
proof -
  from run obtain need al raw s1 where m: "reservation_len img ps = Ok need" "seg_align img ps = Ok al"
      "vm_alloc_aligned vm al need s = (Ok raw, s1)" "plan heap img ps (At raw) = Ok (ld_plan l)"
      "fill_copied vm heap img src (ld_plan l) s1 = (Ok (), s')" and l: "allocated l"
    by (auto simp: load_copied_def outcome_simps Let_def split: if_splits)
  note res = reserved_At [OF wf m(1,4)] and ok = plan_Ok [OF wf m(4)]
  obtain al' where al: "al = al'" "is_power_of_two al'" "unat ps dvd unat al'"
    using seg_align_wf [OF wf] m(2) by (metis result.inject(1))
  from alloc_ok [OF \<open>inv s\<close> _ _ m(3)] pos free res al obtain f where s1: "inv s1" "unat al dvd unat raw"
      "cells s1 = overlay (cells s) (unat raw) (unat raw + unat need) (\<lambda>x. Some (RW, f x))" by auto
  have "unat ps dvd unat r" if "At raw = At r" for r using that s1(2) al by (auto intro: dvd_trans)
  note cov = reservation_covers [OF wf ok [THEN conjunct1] ok [THEN conjunct2] this]
  from ends_Ok [OF fill_copied_ends [OF wf page ok [THEN conjunct1] s1(1)] m(5)]
  show thesis
    using ok l cov s1(3) res
    by (intro that [of "cells s1"]) (auto simp: overlay_def same_outside_def)
qed

lemma load_copied_Err:
  assumes wf: "wf_image ps img" and page: "vm_page_size vm = ps" and "inv s"
    and some: "img_lo ps img < img_hi ps img"
    and fresh: "\<And>al len got s1. is_power_of_two al \<Longrightarrow> vm_alloc_aligned vm al len s = (Ok got, s1) \<Longrightarrow>
      \<forall>x. unat got \<le> x \<and> x < unat got + unat len \<longrightarrow> cells s x = None"
    and run: "load_copied vm heap img src ps s = (Err e, s')"
  shows "cells s' = cells s \<or> (\<exists>placement v. va_span img ps = Ok v \<and> plan heap img ps placement = Err e)"
proof (rule ccontr)
  assume neg: "\<not> ?thesis"
  have refused: "vm_alloc_aligned vm al len s \<noteq> (Err e, s')" for al len
    using neg alloc_err [OF \<open>inv s\<close>] by blast
  with run neg obtain need al raw s1 p where m: "reservation_len img ps = Ok need" "seg_align img ps = Ok al"
      "vm_alloc_aligned vm al need s = (Ok raw, s1)" "plan heap img ps (At raw) = Ok p"
      "son_err (fill_copied vm heap img src p) (unload vm \<lparr> ld_plan = p, allocated = True \<rparr>) s1 = (Err e, s')"
    by (auto simp: load_copied_def sbind_Err sbind_Ok Let_def split: if_splits dest: reservation_len_span)
  note res = reserved_At [OF wf m(1,4)] and ok = plan_Ok [OF wf m(4)]
  have pos: "0 < unat need" using reservation_len_Ok [OF wf m(1)] some by (metis add_gr_0 zero_less_diff)
  obtain al' where al: "al = al'" "is_power_of_two al'" "unat ps dvd unat al'"
    using seg_align_wf [OF wf] m(2) by (metis result.inject(1))
  note free = fresh [OF al(2) [folded al(1)] m(3)]
  from alloc_ok [OF \<open>inv s\<close> pos al(2) [folded al(1)] m(3) free] obtain f where s1: "inv s1" "unat al dvd unat raw"
      "cells s1 = overlay (cells s) (unat raw) (unat raw + unat need) (\<lambda>x. Some (RW, f x))" by auto
  have "unat ps dvd unat r" if "At raw = At r" for r using that s1(2) al by (auto intro: dvd_trans)
  note cov = reservation_covers [OF wf ok [THEN conjunct1] ok [THEN conjunct2] this]
  from m(5) obtain s2 where s2: "fill_copied vm heap img src p s1 = (Err e, s2)"
    and un: "vm_free_aligned vm raw need s2 = (Ok (), s')"
    by (auto simp: son_err_outcome unload_def free_err res)
  have "framed s1 (unat (base p)) (unat (end_addr p)) s2"
    using ends_Err [OF fill_copied_ends [OF wf page ok [THEN conjunct1] s1(1)] s2] .
  then have "inv s2" "same_outside (cells s) (cells s2) (unat raw) (unat raw + unat need)"
    using s1(3) cov res by (auto simp: same_outside_def)
  with free_ok [OF this(1) pos un] restored [OF free] neg show False by auto
qed

end

end
