(* ===== verification/Program_Facts.thy ===== *)
theory Program_Facts
  imports Program Loader_Facts
begin

text \<open>
  Loading a program with its interpreter, over any address space that keeps the contract
  \<open>address_space\<close> and any opener that leaves the address space alone. The lemmas take the two load
  functions apart, say what stays unchanged, and show that a failure, of the program or of its
  interpreter, leaves the address space as it was unless the planner refused an image that had
  already been given a reservation.
\<close>

section \<open>Stages\<close>

text \<open>Every image is mapped from a descriptor, never copied.\<close>

definition maps_files :: "('s \<Rightarrow> bool) \<Rightarrow> 's Vm \<Rightarrow> 's Opener \<Rightarrow> bool" where
  "maps_files I vm opener \<longleftrightarrow> vm_can_map_files vm
     \<and> (\<forall>path s op s'. I s \<longrightarrow> op_open opener path s = (Ok op, s') \<longrightarrow> op_fd op \<noteq> None)"

text \<open>No image served occupies an empty range.\<close>

definition serves_solid :: "('s \<Rightarrow> bool) \<Rightarrow> target_arch \<Rightarrow> heap \<Rightarrow> u64 \<Rightarrow> 's Opener \<Rightarrow> bool" where
  "serves_solid I arch heap ps opener \<longleftrightarrow>
     (\<forall>path s op s' img. I s \<and> op_open opener path s = (Ok op, s') \<and> Image_parse arch heap (op_src op) ps = Ok img \<longrightarrow>
        img_lo ps img < img_hi ps img)"

definition plan_refused :: "heap \<Rightarrow> u64 \<Rightarrow> error \<Rightarrow> bool" where
  "plan_refused heap ps e \<longleftrightarrow> (\<exists>img placement v. wf_image ps img \<and> va_span img ps = Ok v \<and> plan heap img ps placement = Err e)"

lemma maps_filesE:
  assumes "maps_files I vm opener" and "I s" and "op_open opener path s = (Ok op, s')"
  obtains fd where "op_fd op = Some fd"
    and "\<And>heap img src. load_image vm heap img src (op_fd op) = load_mapped vm heap img fd (vm_page_size vm)"
proof -
  from assms obtain fd where "op_fd op = Some fd" "vm_can_map_files vm"
    unfolding maps_files_def by blast
  with that show thesis by (simp add: load_image_def)
qed

lemma entry_check_no_err: "entry_is_executable img p \<noteq> Err e"
proof -
  have "any_executable_at a ss \<noteq> Err e" for a ss
    by (induction ss) (auto simp: outcome_simps seg_range_def Let_def padd_outcome split: option.splits if_splits)
  then show ?thesis by (simp add: entry_is_executable_def outcome_simps)
qed

lemma with_opened_outcome:
  "with_opened opener path body s = (Ok x, s') \<longleftrightarrow>
     (\<exists>op s1 s2 r. op_open opener path s = (Ok op, s1) \<and> body op s1 = (Ok x, s2)
        \<and> op_drop opener op s2 = (r, s') \<and> r \<noteq> Panic)"
  "with_opened opener path body s = (Err e, s') \<longleftrightarrow>
     op_open opener path s = (Err e, s')
     \<or> (\<exists>op s1 s2 r. op_open opener path s = (Ok op, s1) \<and> body op s1 = (Err e, s2)
        \<and> op_drop opener op s2 = (r, s') \<and> r \<noteq> Panic)"
proof -
  have no_panic: "r \<noteq> Panic \<longleftrightarrow> r = Ok () \<or> (\<exists>f. r = Err f)" for r :: "(unit, error) result"
    by (cases r) auto
  show "with_opened opener path body s = (Ok x, s') \<longleftrightarrow>
     (\<exists>op s1 s2 r. op_open opener path s = (Ok op, s1) \<and> body op s1 = (Ok x, s2)
        \<and> op_drop opener op s2 = (r, s') \<and> r \<noteq> Panic)"
    "with_opened opener path body s = (Err e, s') \<longleftrightarrow>
     op_open opener path s = (Err e, s')
     \<or> (\<exists>op s1 s2 r. op_open opener path s = (Ok op, s1) \<and> body op s1 = (Err e, s2)
        \<and> op_drop opener op s2 = (r, s') \<and> r \<noteq> Panic)"
    by (auto simp: with_opened_def sbind_Ok sbind_Err sfinally_outcome no_panic)
qed

lemma load_interp_Ok:
  assumes "load_interp arch heap opener vm ps path s = (Ok (img, l), s')"
  obtains op s1 s2 r where "op_open opener path s = (Ok op, s1)" and "Image_parse arch heap (op_src op) ps = Ok img"
    and "e_type (ehdr img) = ET_DYN" and "\<not> needs_interp img"
    and "load_image vm heap img (op_src op) (op_fd op) s1 = (Ok l, s2)"
    and "op_drop opener op s2 = (r, s')"
  using assms by (auto simp: load_interp_def with_opened_outcome outcome_simps)

lemma load_program_Ok:
  assumes "load_program arch heap opener vm path s = (Ok p, s')"
  obtains op s1 s2 s3 r where "op_open opener path s = (Ok op, s1)"
    and "Image_parse arch heap (op_src op) (vm_page_size vm) = Ok (lp_image p)"
    and "\<not> exec_stack (lp_image p)"
    and "load_image vm heap (lp_image p) (op_src op) (op_fd op) s1 = (Ok (lp_main p), s2)"
    and "case lp_interp_path p of
           None \<Rightarrow> \<not> needs_interp (lp_image p) \<and> lp_interp p = None \<and> s3 = s2
         | Some ip \<Rightarrow> needs_interp (lp_image p) \<and> interp_path heap (lp_image p) (op_src op) = Ok ip
             \<and> (\<exists>v. load_interp arch heap opener vm (vm_page_size vm) ip s2 = (Ok v, s3) \<and> lp_interp p = Some v)"
    and "op_drop opener op s3 = (r, s')"
proof -
  from assms obtain op s1 img path_opt main s2 loaded_interp s3 r where
      st: "op_open opener path s = (Ok op, s1)" "Image_parse arch heap (op_src op) (vm_page_size vm) = Ok img"
      "check_stack_request img = Ok ()"
      "(if needs_interp img then rbind (interp_path heap img (op_src op)) (\<lambda>ip. Ok (Some ip)) else Ok None) = Ok path_opt"
      "load_image vm heap img (op_src op) (op_fd op) s1 = (Ok main, s2)"
      "(case path_opt of None \<Rightarrow> sret None
         | Some ip \<Rightarrow> sbind (son_err (load_interp arch heap opener vm (vm_page_size vm) ip) (unload vm main)) (\<lambda>v. sret (Some v))) s2
       = (Ok loaded_interp, s3)"
      "p = \<lparr> lp_image = img, lp_main = main, lp_interp = loaded_interp, lp_interp_path = path_opt \<rparr>"
      "op_drop opener op s3 = (r, s')"
    unfolding load_program_def Let_def with_opened_outcome
    by (auto simp: outcome_simps)
  show thesis
  proof (rule that [OF st(1) _ _ _ _ st(8)])
    show "case lp_interp_path p of
           None \<Rightarrow> \<not> needs_interp (lp_image p) \<and> lp_interp p = None \<and> s3 = s2
         | Some ip \<Rightarrow> needs_interp (lp_image p) \<and> interp_path heap (lp_image p) (op_src op) = Ok ip
             \<and> (\<exists>v. load_interp arch heap opener vm (vm_page_size vm) ip s2 = (Ok v, s3) \<and> lp_interp p = Some v)"
      using st(4,6,7) by (auto simp: outcome_simps split: option.splits if_splits)
  qed (use st in \<open>simp_all add: check_stack_request_def split: if_splits\<close>)
qed

lemma plan_refused_ENOMEM: "plan_refused heap ps e \<Longrightarrow> e = ENOMEM"
  using plan_Err by (auto simp: plan_refused_def)

text \<open>Every byte of every segment, to the end of its last page, and its protection.\<close>

definition shows_segments :: "u64 \<Rightarrow> cells \<Rightarrow> (nat \<Rightarrow> u8) \<Rightarrow> Image \<Rightarrow> u64 \<Rightarrow> bool" where
  "shows_segments ps c f img b \<longleftrightarrow>
     (\<forall>i\<in>set (loads img). \<forall>k. unat (p_vaddr (phdrs img ! i)) + k < seg_hi ps (phdrs img ! i) \<longrightarrow>
        c (unat (p_vaddr (phdrs img ! i)) + unat b + k) =
          Some (prot_of (phdrs img ! i),
            if k < unat (p_filesz (phdrs img ! i)) then f (unat (p_offset (phdrs img ! i)) + k) else 0))"

section \<open>The contract\<close>

locale program_space = mapping_space vm inv cells cut fbyte fixable exactly
  for vm :: "'s Vm" and inv cells cut fbyte fixable exactly +
  fixes opener :: "'s Opener"
  assumes open_keeps: "inv s \<Longrightarrow> op_open opener path s = (r, s') \<Longrightarrow> inv s' \<and> cells s' = cells s"
    and drop_keeps: "inv s \<Longrightarrow> op_drop opener op s = (u, s') \<Longrightarrow> inv s' \<and> cells s' = cells s"
begin

abbreviation page :: u64 where "page \<equiv> vm_page_size vm"

text \<open>What a load through file mappings takes and leaves.\<close>

lemma load_mapped_frame:
  assumes "wf_image page img" and "inv s" and solid: "img_lo page img < img_hi page img"
    and run: "load_mapped vm heap img fd page s = (Ok l, s')"
  shows "inv s'" and "allocated l = False" and "0 < unat (reserve_len (ld_plan l))"
    and "\<forall>x. unat (reserve_addr (ld_plan l)) \<le> x
        \<and> x < unat (reserve_addr (ld_plan l)) + unat (reserve_len (ld_plan l)) \<longrightarrow> cells s x = None"
    and "same_outside (cells s) (cells s') (unat (reserve_addr (ld_plan l)))
        (unat (reserve_addr (ld_plan l)) + unat (reserve_len (ld_plan l)))"
    and "exactly (unat (reserve_len (ld_plan l))) PROT_NONE"
proof -
  from run obtain placement where plan: "plan heap img page placement = Ok (ld_plan l)"
    by (auto simp: load_mapped_def outcome_simps Let_def)
  show "exactly (unat (reserve_len (ld_plan l))) PROT_NONE" 
    by (rule exact_pages [OF reserve_len_dvd [OF assms(1) plan]]) (simp add: PROT_NONE_def)
  from plan_Ok [OF assms(1) plan] solid show pos: "0 < unat (reserve_len (ld_plan l))"
    by (fastforce simp: placed_ok_def split: Placement.splits)
  note run = load_mapped_cells [OF assms(1) refl assms(2) run pos]
  show "inv s'" by (rule run)
  show "allocated l = False"
    using load_mapped_reserves [OF assms(1) refl assms(2) \<open>load_mapped vm heap img fd page s = (Ok l, s')\<close> pos] by metis
  show "\<forall>x. unat (reserve_addr (ld_plan l)) \<le> x
      \<and> x < unat (reserve_addr (ld_plan l)) + unat (reserve_len (ld_plan l)) \<longrightarrow> cells s x = None"
    by (rule run)
  show "same_outside (cells s) (cells s') (unat (reserve_addr (ld_plan l)))
      (unat (reserve_addr (ld_plan l)) + unat (reserve_len (ld_plan l)))"
    unfolding same_outside_def run(6)
  proof (intro allI impI)
    fix x assume x: "x < unat (reserve_addr (ld_plan l))
        \<or> unat (reserve_addr (ld_plan l)) + unat (reserve_len (ld_plan l)) \<le> x"
    have "\<forall>i\<in>set (loads img). x < seg_lo page (phdrs img ! i) + unat (bias (ld_plan l))
        \<or> seg_hi page (phdrs img ! i) + unat (bias (ld_plan l)) \<le> x"
      using x run(3,4) seg_in_span [OF assms(1) run(2)] by fastforce
    from image_cells_out [OF this] x
    show "image_cells page (fbyte fd) (bias (ld_plan l)) (phdrs img) (loads img)
        (overlay (cells s) (unat (reserve_addr (ld_plan l)))
          (unat (reserve_addr (ld_plan l)) + unat (reserve_len (ld_plan l))) (\<lambda>x. Some (PROT_NONE, 0))) x = cells s x"
      by simp
  qed
qed

text \<open>A loaded program: both images are in place, the interpreter was put where nothing was.\<close>

lemma load_program_mapped:
  assumes maps: "maps_files inv vm opener" and solid: "serves_solid inv arch heap page opener" and pow: "is_power_of_two page"
    and "inv s" and run: "load_program arch heap opener vm path s = (Ok p, s')"
  obtains op fd s1 s2 where "op_open opener path s = (Ok op, s1)" and "op_fd op = Some fd"
    and "Image_parse arch heap (op_src op) page = Ok (lp_image p)"
    and "wf_image page (lp_image p)" and "inv s1" and "cells s1 = cells s"
    and "load_mapped vm heap (lp_image p) fd page s1 = (Ok (lp_main p), s2)"
    and "img_lo page (lp_image p) < img_hi page (lp_image p)" and "inv s2" and "inv s'"
    and "case lp_interp p of
        None \<Rightarrow> \<not> needs_interp (lp_image p) \<and> cells s' = cells s2
      | Some (iimg, il) \<Rightarrow> needs_interp (lp_image p) \<and> e_type (ehdr iimg) = ET_DYN \<and> \<not> needs_interp iimg
          \<and> wf_image page iimg \<and> img_lo page iimg < img_hi page iimg
          \<and> (\<exists>ip iop ifd s3 s4. lp_interp_path p = Some ip \<and> op_open opener ip s2 = (Ok iop, s3)
               \<and> op_fd iop = Some ifd \<and> Image_parse arch heap (op_src iop) page = Ok iimg
               \<and> inv s3 \<and> cells s3 = cells s2 \<and> load_mapped vm heap iimg ifd page s3 = (Ok il, s4)
               \<and> cells s' = cells s4)"
proof -
  from run obtain op s1 s2 s3 r where st: "op_open opener path s = (Ok op, s1)"
      "Image_parse arch heap (op_src op) page = Ok (lp_image p)"
      "load_image vm heap (lp_image p) (op_src op) (op_fd op) s1 = (Ok (lp_main p), s2)"
      "case lp_interp_path p of
           None \<Rightarrow> \<not> needs_interp (lp_image p) \<and> lp_interp p = None \<and> s3 = s2
         | Some ip \<Rightarrow> needs_interp (lp_image p) \<and> interp_path heap (lp_image p) (op_src op) = Ok ip
             \<and> (\<exists>v. load_interp arch heap opener vm page ip s2 = (Ok v, s3) \<and> lp_interp p = Some v)"
      "op_drop opener op s3 = (r, s')" by (rule load_program_Ok)
  obtain fd where fdn: "op_fd op = Some fd" and fd: "load_mapped vm heap (lp_image p) fd page s1 = (Ok (lp_main p), s2)"
    using maps_filesE [OF maps \<open>inv s\<close> st(1)] st(3) by metis
  have wf: "wf_image page (lp_image p)" by (rule Image_parse_wf [OF pow st(2)])
  have some: "img_lo page (lp_image p) < img_hi page (lp_image p)" using solid \<open>inv s\<close> st(1,2) by (auto simp: serves_solid_def)
  note s1 = open_keeps [OF \<open>inv s\<close> st(1)]
  note loaded = load_mapped_frame [OF wf conjunct1 [OF s1] some fd]
  show thesis
  proof (cases "lp_interp_path p")
    case None
    with st(4,5) drop_keeps [of s2 op r s'] loaded(1) s1 show thesis
      by (intro that [OF st(1) fdn st(2) wf _ _ fd some]) auto
  next
    case (Some ip)
    with st(4) obtain iimg il where i: "needs_interp (lp_image p)" "lp_interp p = Some (iimg, il)"
        "load_interp arch heap opener vm page ip s2 = (Ok (iimg, il), s3)" by auto
    from load_interp_Ok [OF i(3)] obtain op' s4 s5 r' where j: "op_open opener ip s2 = (Ok op', s4)"
        "Image_parse arch heap (op_src op') page = Ok iimg" "e_type (ehdr iimg) = ET_DYN" "\<not> needs_interp iimg"
        "load_image vm heap iimg (op_src op') (op_fd op') s4 = (Ok il, s5)" "op_drop opener op' s5 = (r', s3)" .
    obtain ifd where ifn: "op_fd op' = Some ifd" and ifd: "load_mapped vm heap iimg ifd page s4 = (Ok il, s5)"
      using maps_filesE [OF maps loaded(1) j(1)] j(5) by metis
    have iwf: "wf_image page iimg" by (rule Image_parse_wf [OF pow j(2)])
    have isome: "img_lo page iimg < img_hi page iimg" using solid loaded(1) j(1,2) by (auto simp: serves_solid_def)
    note s4 = open_keeps [OF loaded(1) j(1)]
    note s5 = load_mapped_frame [OF iwf conjunct1 [OF s4] isome ifd]
    note s3 = drop_keeps [OF s5(1) j(6)]
    note fin = drop_keeps [OF conjunct1 [OF s3] st(5)]
    show thesis
      by (rule that [OF st(1) fdn st(2) wf _ _ fd some loaded(1)])
        (use Some i j(1-4) iwf isome s1 s4 ifn ifd s3 fin in auto)
  qed
qed

text \<open>An image in place: taken from free memory, all of it mapped, and showing its file.\<close>

lemma load_mapped_in_place:
  assumes wf: "wf_image page img" and "inv s" and solid: "img_lo page img < img_hi page img"
    and run: "load_mapped vm heap img fd page s = (Ok l, s')"
  shows "in_reservation l x \<Longrightarrow> cells s x = None" and "in_reservation l x \<Longrightarrow> cells s' x \<noteq> None"
    and "\<not> in_reservation l x \<Longrightarrow> cells s' x = cells s x"
    and "(\<And>x. in_reservation l x \<Longrightarrow> c x = cells s' x) \<Longrightarrow> shows_segments page c (fbyte fd) img (bias (ld_plan l))"
proof -
  note frame = load_mapped_frame [OF assms]
  note placed = load_mapped_cells [OF wf refl \<open>inv s\<close> run frame(3)]
  show "in_reservation l x \<Longrightarrow> cells s x = None" using frame(4) by blast
  show "in_reservation l x \<Longrightarrow> cells s' x \<noteq> None" unfolding placed(6) by (rule reservation_mapped [OF wf]) simp
  show "\<not> in_reservation l x \<Longrightarrow> cells s' x = cells s x" using frame(5) by (auto simp: same_outside_def not_le not_less)
  assume c: "\<And>x. in_reservation l x \<Longrightarrow> c x = cells s' x"
  show "shows_segments page c (fbyte fd) img (bias (ld_plan l))"
    unfolding shows_segments_def
  proof (intro ballI allI impI)
    fix i k assume i: "i \<in> set (loads img)" and k: "unat (p_vaddr (phdrs img ! i)) + k < seg_hi page (phdrs img ! i)"
    let ?ph = "phdrs img ! i" and ?b = "bias (ld_plan l)"
    let ?x = "unat (p_vaddr ?ph) + unat ?b + k"
    have range: "seg_lo page ?ph + unat ?b \<le> ?x" "?x < seg_hi page ?ph + unat ?b"
      using k seg_lo_le_vaddr [of page ?ph] by simp_all
    then have "in_reservation l ?x" using placed(3,4) seg_in_span [OF wf placed(2) i] by simp
    from c [OF this] image_cells_in [OF sorted_image [OF wf] i range]
    show "c ?x = Some (prot_of ?ph, if k < unat (p_filesz ?ph) then fbyte fd (unat (p_offset ?ph) + k) else 0)"
      by (simp add: placed(6) seg_byte_at)
  qed
qed

abbreviation interp_in_place :: "target_arch \<Rightarrow> heap \<Rightarrow> LoadedProgram \<Rightarrow> 's \<Rightarrow> bool" where
  "interp_in_place arch heap p s' \<equiv>
     (case lp_interp p of
        None \<Rightarrow> \<not> needs_interp (lp_image p)
      | Some (iimg, il) \<Rightarrow> needs_interp (lp_image p) \<and> e_type (ehdr iimg) = ET_DYN \<and> \<not> needs_interp iimg
          \<and> (\<exists>ip op fd s1 s2. lp_interp_path p = Some ip \<and> inv s1 \<and> op_open opener ip s1 = (Ok op, s2)
               \<and> op_fd op = Some fd \<and> Image_parse arch heap (op_src op) page = Ok iimg
               \<and> shows_segments page (cells s') (fbyte fd) iimg (bias (ld_plan il)))
          \<and> (\<forall>x. \<not> (in_reservation (lp_main p) x \<and> in_reservation il x)))"

lemma program_in_place:
  assumes maps: "maps_files inv vm opener" and solid: "serves_solid inv arch heap page opener" and pow: "is_power_of_two page"
    and "inv s" and run: "load_program arch heap opener vm path s = (Ok p, s')"
  shows "inv s'"
    and "cells s x \<noteq> None \<Longrightarrow> cells s' x = cells s x"
    and "\<exists>op fd s1. op_open opener path s = (Ok op, s1) \<and> op_fd op = Some fd
      \<and> Image_parse arch heap (op_src op) page = Ok (lp_image p)
      \<and> shows_segments page (cells s') (fbyte fd) (lp_image p) (bias (ld_plan (lp_main p)))"
    and "interp_in_place arch heap p s'"
proof -
  obtain op fd s1 s2 where st: "op_open opener path s = (Ok op, s1)" "op_fd op = Some fd"
      "Image_parse arch heap (op_src op) page = Ok (lp_image p)" "wf_image page (lp_image p)" "inv s1" "cells s1 = cells s"
      "load_mapped vm heap (lp_image p) fd page s1 = (Ok (lp_main p), s2)"
      "img_lo page (lp_image p) < img_hi page (lp_image p)" "inv s2" "inv s'"
    and intp: "case lp_interp p of
        None \<Rightarrow> \<not> needs_interp (lp_image p) \<and> cells s' = cells s2
      | Some (iimg, il) \<Rightarrow> needs_interp (lp_image p) \<and> e_type (ehdr iimg) = ET_DYN \<and> \<not> needs_interp iimg
          \<and> wf_image page iimg \<and> img_lo page iimg < img_hi page iimg
          \<and> (\<exists>ip iop ifd s3 s4. lp_interp_path p = Some ip \<and> op_open opener ip s2 = (Ok iop, s3)
               \<and> op_fd iop = Some ifd \<and> Image_parse arch heap (op_src iop) page = Ok iimg
               \<and> inv s3 \<and> cells s3 = cells s2 \<and> load_mapped vm heap iimg ifd page s3 = (Ok il, s4)
               \<and> cells s' = cells s4)"
    by (rule load_program_mapped [OF assms])
  show "inv s'" by (rule st(10))
  note main = load_mapped_in_place [OF st(4,5,8,7)]
  have was: "cells s2 x = cells s x" if "cells s x \<noteq> None" for x using main(1,3) [of x] that st(6) by metis
  have "(\<forall>x. in_reservation (lp_main p) x \<longrightarrow> cells s' x = cells s2 x) \<and> (\<forall>x. cells s x \<noteq> None \<longrightarrow> cells s' x = cells s x)
    \<and> interp_in_place arch heap p s'"
  proof (cases "lp_interp p")
    case None
    with intp was show ?thesis by auto
  next
    case (Some v)
    obtain iimg il where v: "v = (iimg, il)" by (cases v)
    from intp obtain ip iop ifd s3 s4 where i: "needs_interp (lp_image p)" "e_type (ehdr iimg) = ET_DYN"
        "\<not> needs_interp iimg" "wf_image page iimg" "img_lo page iimg < img_hi page iimg"
        "lp_interp_path p = Some ip" "op_open opener ip s2 = (Ok iop, s3)" "op_fd iop = Some ifd"
        "Image_parse arch heap (op_src iop) page = Ok iimg" "inv s3" "cells s3 = cells s2"
        "load_mapped vm heap iimg ifd page s3 = (Ok il, s4)" "cells s' = cells s4" by (auto simp: Some v)
    note il = load_mapped_in_place [OF i(4,10,5,12)]
    have apart: "\<not> (in_reservation (lp_main p) x \<and> in_reservation il x)" for x
      using main(2) [of x] il(1) [of x] i(11) by auto
    have kept: "cells s' x = cells s2 x" if "cells s2 x \<noteq> None" for x
      using il(1,3) [of x] that i(11,13) by metis
    have "shows_segments page (cells s') (fbyte ifd) iimg (bias (ld_plan il))" using il(4) i(13) by simp
    moreover have "cells s' x = cells s x" if "cells s x \<noteq> None" for x
      using kept [of x] was [of x] that by simp
    ultimately show ?thesis using Some v i apart kept main(2) st(9) by auto
  qed
  then show "cells s x \<noteq> None \<Longrightarrow> cells s' x = cells s x"
    and "interp_in_place arch heap p s'"
    and "\<exists>op fd s1. op_open opener path s = (Ok op, s1) \<and> op_fd op = Some fd
      \<and> Image_parse arch heap (op_src op) page = Ok (lp_image p)
      \<and> shows_segments page (cells s') (fbyte fd) (lp_image p) (bias (ld_plan (lp_main p)))"
    using st(1-3) main(4) [of "cells s'"] by blast+
qed

end

text \<open>Failures leave nothing behind when the clean-up itself does not fail.\<close>

locale program_host = program_space vm inv cells cut fbyte fixable exactly opener
  for vm :: "'s Vm" and inv cells cut fbyte fixable exactly opener +
  assumes unmap_no_err: "vm_unmap vm a len s \<noteq> (Err e, s')"
begin

text \<open>Unloading a mapped image gives its range back, whatever happened elsewhere since.\<close>

lemma unload_mapped:
  assumes "inv s1" and "allocated l = False" and "0 < unat (reserve_len (ld_plan l))"
    and "exactly (unat (reserve_len (ld_plan l))) PROT_NONE" and "unload vm l s1 = (u, s2)" and "u \<noteq> Panic"
  shows "inv s2" and "cells s2 = overlay (cells s1) (unat (reserve_addr (ld_plan l)))
      (unat (reserve_addr (ld_plan l)) + unat (reserve_len (ld_plan l))) (\<lambda>_. None)"
proof -
  from assms(2,5,6) have "vm_unmap vm (reserve_addr (ld_plan l)) (reserve_len (ld_plan l)) s1 = (Ok (), s2)"
    by (cases u) (auto simp: unload_def sdiscard_outcome unmap_no_err)
  from unmap_ok [OF assms(1,3,4) this] show "inv s2" "cells s2 = overlay (cells s1) (unat (reserve_addr (ld_plan l)))
      (unat (reserve_addr (ld_plan l)) + unat (reserve_len (ld_plan l))) (\<lambda>_. None)" by simp_all
qed

lemma load_interp_Err:
  assumes maps: "maps_files inv vm opener" and solid: "serves_solid inv arch heap page opener" and pow: "is_power_of_two page"
    and "inv s" and run: "load_interp arch heap opener vm page path s = (Err e, s')"
  shows "inv s' \<and> cells s' = cells s \<or> plan_refused heap page e"
proof -
  from run consider "op_open opener path s = (Err e, s')"
    | op s1 s2 r where "op_open opener path s = (Ok op, s1)" "op_drop opener op s2 = (r, s')" "s2 = s1"
    | op s1 s2 r img where "op_open opener path s = (Ok op, s1)" "op_drop opener op s2 = (r, s')"
      "Image_parse arch heap (op_src op) page = Ok img"
      "load_image vm heap img (op_src op) (op_fd op) s1 = (Err e, s2)"
    by (auto simp: load_interp_def with_opened_outcome outcome_simps)
  then show ?thesis
  proof cases
    case 3
    have wf: "wf_image page img" by (rule Image_parse_wf [OF pow 3(3)])
    obtain fd where fd: "load_mapped vm heap img fd page s1 = (Err e, s2)"
      using maps_filesE [OF maps \<open>inv s\<close> 3(1)] 3(4) by metis
    have some: "img_lo page img < img_hi page img" using solid \<open>inv s\<close> 3(1,3) by (auto simp: serves_solid_def)
    from load_mapped_Err [OF wf refl _ some unmap_no_err fd] open_keeps [OF \<open>inv s\<close> 3(1)] drop_keeps [OF _ 3(2)] wf
    show ?thesis by (auto simp: plan_refused_def)
  qed (use open_keeps [OF \<open>inv s\<close>] drop_keeps in \<open>fastforce+\<close>)
qed

lemma load_program_Err:
  assumes maps: "maps_files inv vm opener" and solid: "serves_solid inv arch heap page opener" and pow: "is_power_of_two page"
    and "inv s" and run: "load_program arch heap opener vm path s = (Err e, s')"
  shows "inv s' \<and> cells s' = cells s \<or> plan_refused heap page e"
proof -
  from run consider "op_open opener path s = (Err e, s')"
    | op s1 s2 r where "op_open opener path s = (Ok op, s1)" "op_drop opener op s2 = (r, s')" "s2 = s1"
    | op s1 s2 r img where "op_open opener path s = (Ok op, s1)" "op_drop opener op s2 = (r, s')"
      "Image_parse arch heap (op_src op) page = Ok img"
      "load_image vm heap img (op_src op) (op_fd op) s1 = (Err e, s2)"
    | op s1 s2 t s3 r img main ip u where "op_open opener path s = (Ok op, s1)" "op_drop opener op s3 = (r, s')"
      "Image_parse arch heap (op_src op) page = Ok img"
      "load_image vm heap img (op_src op) (op_fd op) s1 = (Ok main, s2)"
      "load_interp arch heap opener vm page ip s2 = (Err e, t)" "unload vm main t = (u, s3)" "u \<noteq> Panic"
    unfolding load_program_def Let_def with_opened_outcome
    by (auto simp: outcome_simps psub_outcome(2) entry_check_no_err split: option.splits)
  then show ?thesis
  proof cases
    case 3
    have wf: "wf_image page img" by (rule Image_parse_wf [OF pow 3(3)])
    obtain fd where fd: "load_mapped vm heap img fd page s1 = (Err e, s2)"
      using maps_filesE [OF maps \<open>inv s\<close> 3(1)] 3(4) by metis
    have some: "img_lo page img < img_hi page img" using solid \<open>inv s\<close> 3(1,3) by (auto simp: serves_solid_def)
    from load_mapped_Err [OF wf refl _ some unmap_no_err fd] open_keeps [OF \<open>inv s\<close> 3(1)] drop_keeps [OF _ 3(2)] wf
    show ?thesis by (auto simp: plan_refused_def)
  next
    case 4
    have wf: "wf_image page img" by (rule Image_parse_wf [OF pow 4(3)])
    obtain fd where fd: "load_mapped vm heap img fd page s1 = (Ok main, s2)"
      using maps_filesE [OF maps \<open>inv s\<close> 4(1)] 4(4) by metis
    have some: "img_lo page img < img_hi page img" using solid \<open>inv s\<close> 4(1,3) by (auto simp: serves_solid_def)
    note s1 = open_keeps [OF \<open>inv s\<close> 4(1)]
    note loaded = load_mapped_frame [OF wf conjunct1 [OF s1] some fd]
    from load_interp_Err [OF maps solid pow loaded(1) 4(5)] show ?thesis
    proof
      assume t: "inv t \<and> cells t = cells s2"
      note un = unload_mapped [OF conjunct1 [OF t] loaded(2,3,6) 4(6,7)]
      have "cells s3 = cells s1" using un(2) t loaded(4,5) by (auto simp: overlay_def same_outside_def fun_eq_iff)
      with drop_keeps [OF un(1) 4(2)] s1 show ?thesis by simp
    qed simp
  qed (use open_keeps [OF \<open>inv s\<close>] drop_keeps in \<open>fastforce+\<close>)
qed

end

end
