(* ===== verification/Fake_Vm.thy ===== *)
theory Fake_Vm
  imports Loader
begin

text \<open>
  The address space of the test suite, module \<open>vm\<close> of \<open>rust/src/testutil.rs\<close>: a model of
  Unikraft's allocator with first-fit placement, which the crate's own tests run the loader
  against. A \<open>BTreeMap\<close> is the list of its entries in key order; a query that runs over entries
  panics when one of its sums overflows, as in the source. \<open>page\<close> and \<open>can_map_files\<close> never change
  and are separate from the mutable \<open>State\<close>; the table of files the mappings are served from is a
  parameter. That the host has the memory for the contents of the regions is taken for granted.
\<close>

section \<open>Ordered maps\<close>

primrec bt_insert :: "'k::linorder \<Rightarrow> 'v \<Rightarrow> ('k \<times> 'v) list \<Rightarrow> ('k \<times> 'v) list" where
  "bt_insert k v [] = [(k, v)]"
| "bt_insert k v (p # m) =
     (if k < fst p then (k, v) # p # m
      else if k = fst p then (k, v) # m
      else p # bt_insert k v m)"

definition bt_remove :: "'k \<Rightarrow> ('k \<times> 'v) list \<Rightarrow> ('k \<times> 'v) list" where
  "bt_remove k m = filter (\<lambda>p. fst p \<noteq> k) m"

definition bt_update :: "'k \<Rightarrow> ('v \<Rightarrow> 'v) \<Rightarrow> ('k \<times> 'v) list \<Rightarrow> ('k \<times> 'v) list" where
  "bt_update k f m = map (\<lambda>p. if fst p = k then (fst p, f (snd p)) else p) m"

text \<open>\<open>range(..end)\<close>, and \<open>range(..=addr).next_back()\<close>.\<close>

definition bt_below :: "'k::linorder \<Rightarrow> ('k \<times> 'v) list \<Rightarrow> ('k \<times> 'v) list" where
  "bt_below k m = filter (\<lambda>p. fst p < k) m"

definition bt_last_upto :: "'k::linorder \<Rightarrow> ('k \<times> 'v) list \<Rightarrow> ('k \<times> 'v) option" where
  "bt_last_upto k m = (let q = filter (\<lambda>p. fst p \<le> k) m in if q = [] then None else Some (last q))"

text \<open>\<open>filter\<close> and \<open>all\<close> with a test that may panic.\<close>

primrec rfilter :: "('a \<Rightarrow> (bool, 'e) result) \<Rightarrow> 'a list \<Rightarrow> ('a list, 'e) result" where
  "rfilter f [] = Ok []"
| "rfilter f (x # xs) =
     rbind (f x) (\<lambda>b. rbind (rfilter f xs) (\<lambda>ys. Ok (if b then x # ys else ys)))"

primrec rall :: "('a \<Rightarrow> (bool, 'e) result) \<Rightarrow> 'a list \<Rightarrow> (bool, 'e) result" where
  "rall f [] = Ok True"
| "rall f (x # xs) = rbind (f x) (\<lambda>b. if b then rall f xs else Ok False)"

section \<open>State\<close>

record Region =
  r_len :: u64
  r_prot :: u32
  r_data :: bytes
  r_file :: "(i32 \<times> u64) option"

type_synonym regions = "(u64 \<times> Region) list"

datatype Op =
    OpMap u64 u64 u32
  | OpUnmap u64 u64
  | OpProtect u64 u64 u32
  | OpZero u64 u64
  | OpIcache u64 u64

record FakeVm =
  fv_page :: u64
  fv_can_map_files :: bool

record State =
  st_base :: u64
  st_regions :: regions
  st_log :: "Op list"
  st_heap :: u64

type_synonym files = "i32 \<Rightarrow> bytes option"

definition FakeVm_new :: FakeVm where
  "FakeVm_new = \<lparr> fv_page = 4096, fv_can_map_files = True \<rparr>"

definition State_new :: State where
  "State_new = \<lparr> st_base = 0x10000000, st_regions = [], st_log = [], st_heap = 0x800000000000 \<rparr>"

definition no_files :: "FakeVm \<Rightarrow> FakeVm" where
  "no_files fv = fv\<lparr> fv_can_map_files := False \<rparr>"

section \<open>Observers\<close>

definition regions_of :: "State \<Rightarrow> (u64 \<times> u64 \<times> u32) list" where
  "regions_of st = map (\<lambda>(a, r). (a, r_len r, r_prot r)) (st_regions st)"

definition fv_read :: "State \<Rightarrow> u64 \<Rightarrow> u64 \<Rightarrow> (bytes, error) result" where
  "fv_read st addr n =
    (case bt_last_upto addr (st_regions st) of
       None \<Rightarrow> Panic
     | Some (start, r) \<Rightarrow>
         rbind (padd addr n) (\<lambda>e.
         rbind (padd start (r_len r)) (\<lambda>re.
         if \<not> e \<le> re then Panic else
         rbind (psub addr start) (\<lambda>off. slice (r_data r) (unat off) (unat n)))))"

definition prot_at :: "State \<Rightarrow> u64 \<Rightarrow> (u32, error) result" where
  "prot_at st addr =
    (case bt_last_upto addr (st_regions st) of
       None \<Rightarrow> Panic
     | Some (start, r) \<Rightarrow>
         rbind (padd start (r_len r)) (\<lambda>re. if addr < re then Ok (r_prot r) else Panic))"

definition is_mapped :: "State \<Rightarrow> u64 \<Rightarrow> (bool, error) result" where
  "is_mapped st addr =
    (case bt_last_upto addr (st_regions st) of
       None \<Rightarrow> Ok False
     | Some (start, r) \<Rightarrow> rbind (padd start (r_len r)) (\<lambda>re. Ok (addr < re)))"

section \<open>Carving and placing\<close>

text \<open>The keys of the regions that reach into \<open>[addr, end)\<close>.\<close>

definition region_hits :: "u64 \<Rightarrow> u64 \<Rightarrow> regions \<Rightarrow> (u64 list, error) result" where
  "region_hits addr end_at m =
    rbind (rfilter (\<lambda>p. rbind (padd (fst p) (r_len (snd p))) (\<lambda>e. Ok (addr < e))) (bt_below end_at m))
      (\<lambda>hs. Ok (map fst hs))"

text \<open>The body of the loop of \<open>punch\<close>, then \<open>punch\<close>.\<close>

definition punch_one :: "u64 \<Rightarrow> u64 \<Rightarrow> u64 \<Rightarrow> regions \<Rightarrow> (regions, error) result" where
  "punch_one addr end_at s m =
    (case map_of m s of
       None \<Rightarrow> Panic
     | Some r \<Rightarrow>
         rbind (padd s (r_len r)) (\<lambda>e.
         rbind
           (if s < addr then
              rbind (psub addr s) (\<lambda>n.
              rbind (slice (r_data r) 0 (unat n)) (\<lambda>d.
              Ok (bt_insert s \<lparr> r_len = n, r_prot = r_prot r, r_data = d, r_file = r_file r \<rparr>
                    (bt_remove s m))))
            else Ok (bt_remove s m)) (\<lambda>m1.
         if end_at < e then
           rbind (psub end_at s) (\<lambda>off.
           rbind (psub e end_at) (\<lambda>n.
           if length (r_data r) < unat off then Panic else
           rbind
             (case r_file r of
                None \<Rightarrow> Ok None
              | Some (fd, fo) \<Rightarrow> rbind (padd fo off) (\<lambda>fo'. Ok (Some (fd, fo')))) (\<lambda>fl.
           Ok (bt_insert end_at \<lparr> r_len = n, r_prot = r_prot r, r_data = drop (unat off) (r_data r),
                 r_file = fl \<rparr> m1))))
         else Ok m1)))"

primrec punch_all :: "u64 \<Rightarrow> u64 \<Rightarrow> u64 list \<Rightarrow> regions \<Rightarrow> (regions, error) result" where
  "punch_all addr end_at [] m = Ok m"
| "punch_all addr end_at (s # ss) m = rbind (punch_one addr end_at s m) (punch_all addr end_at ss)"

definition punch :: "u64 \<Rightarrow> u64 \<Rightarrow> regions \<Rightarrow> (regions, error) result" where
  "punch addr len m =
    rbind (padd addr len) (\<lambda>end_at.
    rbind (region_hits addr end_at m) (\<lambda>hits.
    punch_all addr end_at hits m))"

primrec first_fit_from :: "u64 \<Rightarrow> regions \<Rightarrow> u64 \<Rightarrow> (u64, error) result" where
  "first_fit_from len [] cur = Ok cur"
| "first_fit_from len (p # m) cur =
     rbind (padd (fst p) (r_len (snd p))) (\<lambda>e.
     if e \<le> cur then first_fit_from len m cur
     else rbind (padd cur len) (\<lambda>c.
          if c \<le> fst p then Ok cur else first_fit_from len m e))"

definition first_fit :: "State \<Rightarrow> u64 \<Rightarrow> (u64, error) result" where
  "first_fit st len = first_fit_from len (st_regions st) (st_base st)"

definition would_place :: "State \<Rightarrow> u64 \<Rightarrow> (u64, error) result" where
  "would_place st len = first_fit st len"

section \<open>The operations\<close>

definition push_op :: "Op \<Rightarrow> State \<Rightarrow> State" where
  "push_op op st = st\<lparr> st_log := st_log st @ [op] \<rparr>"

text \<open>Where a mapping goes, and the regions once the place is cleared.\<close>

definition choose_place :: "State \<Rightarrow> Where \<Rightarrow> u64 \<Rightarrow> (u64 \<times> regions, error) result" where
  "choose_place st at len =
    (case at of
       Anywhere \<Rightarrow> rbind (first_fit st len) (\<lambda>a. Ok (a, st_regions st))
     | Hint a \<Rightarrow>
         rbind (padd a len) (\<lambda>e.
         rbind (rall (\<lambda>p. rbind (padd (fst p) (r_len (snd p))) (\<lambda>pe.
                   if pe \<le> a then Ok True
                   else rbind (padd a len) (\<lambda>e. Ok (e \<le> fst p)))) (bt_below e (st_regions st))) (\<lambda>free.
         if free then Ok (a, st_regions st)
         else rbind (first_fit st len) (\<lambda>a. Ok (a, st_regions st))))
     | Exact a \<Rightarrow> rbind (punch a len (st_regions st)) (\<lambda>m. Ok (a, m)))"

text \<open>What a fresh mapping shows: zeros, or the file from the offset on, padded with zeros.\<close>

definition map_data :: "files \<Rightarrow> MapSrc \<Rightarrow> u64 \<Rightarrow> (bytes, error) result" where
  "map_data fls src len =
    (case src of
       Anon \<Rightarrow> Ok (replicate (unat len) 0)
     | File fd off \<Rightarrow>
         (case fls fd of
            None \<Rightarrow> Panic
          | Some body \<Rightarrow>
              let n = min (unat len) (length body - unat off) in
              rbind (slice body (unat off) n) (\<lambda>bs.
              Ok (bs @ replicate (unat len - n) 0))))"

definition map_file :: "MapSrc \<Rightarrow> (i32 \<times> u64) option" where
  "map_file src = (case src of Anon \<Rightarrow> None | File fd off \<Rightarrow> Some (fd, off))"

definition fake_map ::
  "FakeVm \<Rightarrow> files \<Rightarrow> Where \<Rightarrow> u64 \<Rightarrow> u32 \<Rightarrow> MapSrc \<Rightarrow> (State, u64, error) action" where
  "fake_map fv fls at len p src = (\<lambda>st.
    if fv_page fv = 0 \<or> len mod fv_page fv \<noteq> 0 then (Panic, st) else
    (case rbind (choose_place st at len) (\<lambda>(addr, m).
            if addr mod fv_page fv \<noteq> 0 then Panic else
            rbind (map_data fls src len) (\<lambda>d. Ok (addr, m, d))) of
       Ok (addr, m, d) \<Rightarrow>
         (Ok addr,
          push_op (OpMap addr len p)
            (st\<lparr> st_regions := bt_insert addr \<lparr> r_len = len, r_prot = p, r_data = d, r_file = map_file src \<rparr> m \<rparr>))
     | Err e \<Rightarrow> (Err e, st)
     | Panic \<Rightarrow> (Panic, st)))"

definition fake_unmap :: "u64 \<Rightarrow> u64 \<Rightarrow> (State, unit, error) action" where
  "fake_unmap addr len = (\<lambda>st.
    case punch addr len (st_regions st) of
      Ok m \<Rightarrow> (Ok (), push_op (OpUnmap addr len) (st\<lparr> st_regions := m \<rparr>))
    | Err e \<Rightarrow> (Err e, st)
    | Panic \<Rightarrow> (Panic, st))"

text \<open>Every region the range touches gets the protection, as a whole.\<close>

definition fake_protect :: "u64 \<Rightarrow> u64 \<Rightarrow> u32 \<Rightarrow> (State, unit, error) action" where
  "fake_protect addr len p = (\<lambda>st.
    case rbind (padd addr len) (\<lambda>end_at. region_hits addr end_at (st_regions st)) of
      Ok hits \<Rightarrow>
        if hits = [] then (Panic, st)
        else (Ok (), push_op (OpProtect addr len p)
               (st\<lparr> st_regions := fold (\<lambda>s. bt_update s (\<lambda>r. r\<lparr> r_prot := p \<rparr>)) hits (st_regions st) \<rparr>))
    | Err e \<Rightarrow> (Err e, st)
    | Panic \<Rightarrow> (Panic, st))"

text \<open>
  \<open>write\<close> and \<open>zero\<close> find the region that starts last at or below the address, check that the
  bytes stay inside it and that it is writable, and put them there.
\<close>

definition store_at :: "regions \<Rightarrow> u64 \<Rightarrow> u64 \<Rightarrow> bytes \<Rightarrow> (regions, error) result" where
  "store_at m addr n bs =
    (case bt_last_upto addr m of
       None \<Rightarrow> Panic
     | Some (start, r) \<Rightarrow>
         rbind (padd addr n) (\<lambda>e.
         rbind (padd start (r_len r)) (\<lambda>re.
         if \<not> e \<le> re then Panic
         else if r_prot r AND PROT_WRITE = 0 then Panic
         else rbind (psub addr start) (\<lambda>off.
           if length (r_data r) < unat off + length bs then Panic
           else Ok (bt_update start (\<lambda>r. r\<lparr> r_data :=
             take (unat off) (r_data r) @ bs @ drop (unat off + length bs) (r_data r) \<rparr>) m)))))"

definition fake_write :: "u64 \<Rightarrow> bytes \<Rightarrow> (State, unit, error) action" where
  "fake_write addr bs = (\<lambda>st.
    case store_at (st_regions st) addr (of_nat (length bs)) bs of
      Ok m \<Rightarrow> (Ok (), st\<lparr> st_regions := m \<rparr>)
    | Err e \<Rightarrow> (Err e, st)
    | Panic \<Rightarrow> (Panic, st))"

definition fake_zero :: "u64 \<Rightarrow> u64 \<Rightarrow> (State, unit, error) action" where
  "fake_zero addr len = (\<lambda>st.
    case store_at (st_regions st) addr len (replicate (unat len) 0) of
      Ok m \<Rightarrow> (Ok (), push_op (OpZero addr len) (st\<lparr> st_regions := m \<rparr>))
    | Err e \<Rightarrow> (Err e, st)
    | Panic \<Rightarrow> (Panic, st))"

definition fake_icache_sync :: "u64 \<Rightarrow> u64 \<Rightarrow> (State, unit, error) action" where
  "fake_icache_sync addr len = (\<lambda>st. (Ok (), push_op (OpIcache addr len) st))"

definition fake_alloc_aligned :: "u64 \<Rightarrow> u64 \<Rightarrow> (State, u64, error) action" where
  "fake_alloc_aligned al len = (\<lambda>st.
    case rbind (padd (st_heap st) al) (\<lambda>h.
         rbind (psub h 1) (\<lambda>h1.
         rbind (psub al 1) (\<lambda>mask.
         let addr = h1 AND NOT mask in
         rbind (padd addr len) (\<lambda>h'. Ok (addr, h'))))) of
      Ok (addr, h') \<Rightarrow>
        (Ok addr,
         push_op (OpMap addr len RW)
           (st\<lparr> st_heap := h',
                st_regions := bt_insert addr
                  \<lparr> r_len = len, r_prot = RW, r_data = replicate (unat len) 0, r_file = None \<rparr>
                  (st_regions st) \<rparr>))
    | Err e \<Rightarrow> (Err e, st)
    | Panic \<Rightarrow> (Panic, st))"

definition fake_free_aligned :: "u64 \<Rightarrow> u64 \<Rightarrow> (State, unit, error) action" where
  "fake_free_aligned addr len = (\<lambda>st.
    case punch addr len (st_regions st) of
      Ok m \<Rightarrow> (Ok (), push_op (OpUnmap addr len) (st\<lparr> st_regions := m \<rparr>))
    | Err e \<Rightarrow> (Err e, st)
    | Panic \<Rightarrow> (Panic, st))"

text \<open>The implementation of the \<open>Vm\<close> trait.\<close>

definition fake_vm :: "FakeVm \<Rightarrow> files \<Rightarrow> State Vm" where
  "fake_vm fv fls =
    \<lparr> vm_page_size = fv_page fv, vm_map = fake_map fv fls, vm_unmap = fake_unmap,
      vm_protect = fake_protect, vm_write = fake_write, vm_zero = fake_zero,
      vm_icache_sync = fake_icache_sync, vm_can_map_files = fv_can_map_files fv,
      vm_alloc_aligned = fake_alloc_aligned, vm_free_aligned = fake_free_aligned \<rparr>"

text \<open>\<open>install\<close> and \<open>find_fd\<close> on the table of files.\<close>

definition install :: "i32 \<Rightarrow> bytes \<Rightarrow> files \<Rightarrow> files" where
  "install fd body fls = fls(fd \<mapsto> body)"

end
