(* ===== verification/Fake_Vm_Facts.thy ===== *)
theory Fake_Vm_Facts
  imports Fake_Vm Loader_Facts
begin

text \<open>
  The address space of the test suite meets the contract \<open>address_space\<close>. The invariant of its map
  of regions: keys ascend, every region has as many bytes as its length says and at least one,
  and regions do not overlap. Carving a range, placing a mapping and changing a region are
  described by their effect on the cells, and the interpretation \<open>fake\<close> discharges the laws, so
  that every lemma about loading holds of the loader run against it.
\<close>

section \<open>Regions as cells\<close>

abbreviation region_end :: "u64 \<times> Region \<Rightarrow> nat" where
  "region_end p \<equiv> unat (fst p) + unat (r_len (snd p))"

definition holds_addr :: "nat \<Rightarrow> u64 \<times> Region \<Rightarrow> bool" where
  "holds_addr x p \<longleftrightarrow> unat (fst p) \<le> x \<and> x < region_end p"

definition region_ok :: "u64 \<times> Region \<Rightarrow> bool" where
  "region_ok p \<longleftrightarrow> 0 < unat (r_len (snd p)) \<and> length (r_data (snd p)) = unat (r_len (snd p))"

definition regions_ok :: "regions \<Rightarrow> bool" where
  "regions_ok m \<longleftrightarrow> sorted_wrt (<) (map fst m) \<and> (\<forall>p\<in>set m. region_ok p)
     \<and> (\<forall>p\<in>set m. \<forall>q\<in>set m. fst p < fst q \<longrightarrow> region_end p \<le> unat (fst q))"

definition region_cell :: "nat \<Rightarrow> u64 \<times> Region \<Rightarrow> u32 \<times> u8" where
  "region_cell x p = (r_prot (snd p), r_data (snd p) ! (x - unat (fst p)))"

definition region_cells :: "regions \<Rightarrow> cells" where
  "region_cells m x = map_option (region_cell x) (find (holds_addr x) m)"

definition region_cut :: "regions \<Rightarrow> nat \<Rightarrow> bool" where
  "region_cut m x \<longleftrightarrow> (\<forall>p\<in>set m. x \<le> unat (fst p) \<or> region_end p \<le> x)"

lemma regions_ok_subset:
  assumes "regions_ok m" and "sorted_wrt (<) (map fst m')" and "set m' \<subseteq> set m"
  shows "regions_ok m'"
  using assms unfolding regions_ok_def by (meson subsetD)

lemma key_unique:
  fixes m :: "('k::linorder \<times> 'v) list"
  assumes "sorted_wrt (<) (map fst m)" and "p \<in> set m" and "q \<in> set m" and "fst p = fst q"
  shows "p = q"
proof -
  have "distinct (map fst m)" by (rule strict_sorted_iff [THEN iffD1, THEN conjunct2, OF assms(1)])
  with assms(2-4) show ?thesis by (auto simp: distinct_map inj_on_def)
qed

lemma holder_unique:
  assumes "regions_ok m" and "p \<in> set m" and "q \<in> set m" and "holds_addr x p" and "holds_addr x q"
  shows "p = q"
proof (rule key_unique [OF _ assms(2,3)])
  show "sorted_wrt (<) (map fst m)" using assms(1) by (simp add: regions_ok_def)
  show "fst p = fst q"
  proof (rule ccontr)
    assume "fst p \<noteq> fst q"
    then have "region_end p \<le> unat (fst q) \<or> region_end q \<le> unat (fst p)"
      using assms(1-3) by (auto simp: regions_ok_def neq_iff)
    with assms(4,5) show False by (auto simp: holds_addr_def)
  qed
qed

lemma region_cells_None: "region_cells m x = None \<longleftrightarrow> (\<forall>p\<in>set m. \<not> holds_addr x p)"
  by (auto simp: region_cells_def find_None_iff)

lemma region_cells_holder:
  assumes "regions_ok m" and "p \<in> set m" and "holds_addr x p"
  shows "region_cells m x = Some (region_cell x p)"
proof -
  obtain q where q: "find (holds_addr x) m = Some q"
    using assms(2,3) find_None_iff [of "holds_addr x" m] by (cases "find (holds_addr x) m") blast+
  then have "q \<in> set m" "holds_addr x q" by (auto simp: find_Some_iff)
  with holder_unique [OF assms(1) assms(2) _ assms(3)] q show ?thesis by (simp add: region_cells_def)
qed

text \<open>Two maps have the same cells at \<open>x\<close> when the same region holds \<open>x\<close> in both.\<close>

lemma region_cells_cong:
  assumes "regions_ok m" and "regions_ok m'"
    and "\<And>p. holds_addr x p \<Longrightarrow> p \<in> set m \<longleftrightarrow> p \<in> set m'"
  shows "region_cells m x = region_cells m' x"
proof (cases "region_cells m x")
  case None
  with assms(3) show ?thesis by (metis region_cells_None)
next
  case (Some c)
  then obtain p where "p \<in> set m" "holds_addr x p"
    by (metis option.distinct(1) region_cells_None)
  with assms show ?thesis by (metis region_cells_holder)
qed

section \<open>Inserting and removing\<close>

lemma bt_insert_set:
  "sorted_wrt (<) (map fst m) \<Longrightarrow> set (bt_insert k v m) = insert (k, v) {p \<in> set m. fst p \<noteq> k}"
  by (induction m) (auto simp: neq_iff)

lemma bt_insert_sorted: "sorted_wrt (<) (map fst m) \<Longrightarrow> sorted_wrt (<) (map fst (bt_insert k v m))"
  by (induction m) (auto simp: bt_insert_set)

lemma bt_remove_ok:
  assumes "regions_ok m" and "(s, r) \<in> set m"
  shows "regions_ok (bt_remove s m)" and "set (bt_remove s m) = set m - {(s, r)}"
    and "region_cells (bt_remove s m) x = (if holds_addr x (s, r) then None else region_cells m x)"
proof -
  have sorted: "sorted_wrt (<) (map fst m)" using assms(1) by (simp add: regions_ok_def)
  then have "sorted_wrt (<) (map fst (bt_remove s m))"
    by (simp add: bt_remove_def sorted_wrt_filter sorted_wrt_map)
  moreover have "set (bt_remove s m) \<subseteq> set m" by (auto simp: bt_remove_def)
  ultimately show ok: "regions_ok (bt_remove s m)" by (rule regions_ok_subset [OF assms(1)])
  show set: "set (bt_remove s m) = set m - {(s, r)}"
    using key_unique [OF sorted assms(2)] unfolding bt_remove_def by fastforce
  show "region_cells (bt_remove s m) x = (if holds_addr x (s, r) then None else region_cells m x)"
  proof (cases "holds_addr x (s, r)")
    case True
    with holder_unique [OF assms(1) assms(2)] set show ?thesis
      by (auto simp: region_cells_None)
  next
    case False
    then show ?thesis using set region_cells_cong [OF ok assms(1)] by auto
  qed
qed

text \<open>A region put where nothing is mapped.\<close>

lemma bt_insert_free:
  assumes ok: "regions_ok m" and r: "region_ok (k, r)"
    and free: "\<forall>x. unat k \<le> x \<and> x < unat k + unat (r_len r) \<longrightarrow> region_cells m x = None"
  shows "regions_ok (bt_insert k r m)" and "set (bt_insert k r m) = insert (k, r) (set m)"
    and "region_cells (bt_insert k r m) =
      overlay (region_cells m) (unat k) (unat k + unat (r_len r)) (\<lambda>x. Some (region_cell x (k, r)))"
proof -
  have sorted: "sorted_wrt (<) (map fst m)" using ok by (simp add: regions_ok_def)
  have apart: "region_end p \<le> unat k \<or> unat k + unat (r_len r) \<le> unat (fst p)" if "p \<in> set m" for p
  proof -
    have pos: "0 < unat (r_len (snd p))" "0 < unat (r_len r)"
      using that ok r by (auto simp: regions_ok_def region_ok_def)
    have "\<not> holds_addr x p" if "unat k \<le> x \<and> x < unat k + unat (r_len r)" for x
      using free that \<open>p \<in> set m\<close> by (auto simp: region_cells_None)
    from this [of "unat k"] this [of "unat (fst p)"] pos show ?thesis
      by (auto simp: holds_addr_def)
  qed
  then have "fst p \<noteq> k" if "p \<in> set m" for p
    using that ok r by (fastforce simp: regions_ok_def region_ok_def)
  then show set: "set (bt_insert k r m) = insert (k, r) (set m)"
    using bt_insert_set [OF sorted] by auto
  show ok': "regions_ok (bt_insert k r m)"
    unfolding regions_ok_def set using ok r apart bt_insert_sorted [OF sorted]
    by (auto simp: regions_ok_def word_less_nat_alt) fastforce+
  show "region_cells (bt_insert k r m) =
      overlay (region_cells m) (unat k) (unat k + unat (r_len r)) (\<lambda>x. Some (region_cell x (k, r)))"
  proof
    fix x
    show "region_cells (bt_insert k r m) x =
      overlay (region_cells m) (unat k) (unat k + unat (r_len r)) (\<lambda>x. Some (region_cell x (k, r))) x"
    proof (cases "holds_addr x (k, r)")
      case True
      with region_cells_holder [OF ok', of "(k, r)" x] set show ?thesis
        by (auto simp: holds_addr_def overlay_def)
    next
      case False
      then have "region_cells (bt_insert k r m) x = region_cells m x"
        using set by (intro region_cells_cong [OF ok' ok]) auto
      with False show ?thesis by (auto simp: holds_addr_def overlay_def)
    qed
  qed
qed

section \<open>Carving\<close>

lemma rfilter_Ok:
  "rfilter f xs = Ok ys \<Longrightarrow> ys = filter (\<lambda>x. f x = Ok True) xs \<and> (\<forall>x\<in>set xs. \<exists>b. f x = Ok b)"
  by (induction xs arbitrary: ys) (auto simp: outcome_simps)

lemma region_hits_Ok:
  assumes "region_hits addr end_at m = Ok hs"
  shows "hs = map fst (filter (\<lambda>p. fst p < end_at \<and> unat addr < region_end p) m)"
proof -
  let ?f = "\<lambda>p. rbind (padd (fst p) (r_len (snd p))) (\<lambda>e. Ok (addr < e)) :: (bool, error) result"
  obtain ys where ys: "rfilter ?f (bt_below end_at m) = Ok ys" "hs = map fst ys"
    using assms by (auto simp: region_hits_def outcome_simps)
  have "?f p = Ok True \<longleftrightarrow> unat addr < region_end p" if p: "p \<in> set (bt_below end_at m)" for p
  proof -
    obtain e where e: "padd (fst p) (r_len (snd p)) = (Ok e :: (u64, error) result)"
      using rfilter_Ok [OF ys(1)] p by (fastforce simp: rbind_Ok)
    then have "unat e = region_end p" by (simp add: padd_outcome)
    with e show ?thesis by (simp add: word_less_nat_alt)
  qed
  then have "ys = filter (\<lambda>p. unat addr < region_end p) (bt_below end_at m)"
    using rfilter_Ok [OF ys(1)] by (auto intro: filter_cong)
  with ys(2) show ?thesis by (simp add: bt_below_def conj_commute)
qed

text \<open>Every region of the one map lies inside a region of the other.\<close>

definition carved_from :: "regions \<Rightarrow> regions \<Rightarrow> bool" where
  "carved_from m m' \<longleftrightarrow> (\<forall>p\<in>set m'. \<exists>q\<in>set m. unat (fst q) \<le> unat (fst p) \<and> region_end p \<le> region_end q)"

lemma carved_from_refl [simp]: "carved_from m m"
  by (auto simp: carved_from_def)

lemma carved_from_trans: "carved_from m1 m2 \<Longrightarrow> carved_from m2 m3 \<Longrightarrow> carved_from m1 m3"
  unfolding carved_from_def by (meson order_trans)

lemma carved_step:
  assumes "carved_from m m1" and "(s, r) \<in> set m"
    and "\<forall>p\<in>set m'. p \<in> set m1 \<or> unat s \<le> unat (fst p) \<and> region_end p \<le> region_end (s, r)"
  shows "carved_from m m'"
  unfolding carved_from_def
proof
  fix p assume "p \<in> set m'"
  then consider "p \<in> set m1" | "unat s \<le> unat (fst p)" "region_end p \<le> region_end (s, r)"
    using assms(3) by blast
  then show "\<exists>q\<in>set m. unat (fst q) \<le> unat (fst p) \<and> region_end p \<le> region_end q"
    using assms(1,2) by cases (auto simp: carved_from_def intro: bexI [of _ "(s, r)"])
qed

lemma carved_cut: "carved_from m m' \<Longrightarrow> region_cut m x \<Longrightarrow> region_cut m' x"
  unfolding carved_from_def region_cut_def by (meson order_trans)

lemma map_of_region: "regions_ok m \<Longrightarrow> map_of m s = Some r \<longleftrightarrow> (s, r) \<in> set m"
  by (intro map_of_eq_Some_iff) (auto simp: regions_ok_def strict_sorted_iff)

text \<open>A piece of a region that has been taken out, put back.\<close>

lemma insert_piece:
  assumes ok: "regions_ok m" and r: "region_ok (s, r)"
    and piece: "unat s \<le> unat k" "unat k + unat (r_len pc) \<le> region_end (s, r)" "0 < unat (r_len pc)"
      "r_prot pc = r_prot r" "r_data pc = take (unat (r_len pc)) (drop (unat k - unat s) (r_data r))"
    and free: "\<forall>x. unat k \<le> x \<and> x < unat k + unat (r_len pc) \<longrightarrow> region_cells m x = None"
  shows "regions_ok (bt_insert k pc m)" and "set (bt_insert k pc m) = insert (k, pc) (set m)"
    and "region_cells (bt_insert k pc m) =
      overlay (region_cells m) (unat k) (unat k + unat (r_len pc)) (\<lambda>x. Some (region_cell x (s, r)))"
proof -
  have "region_ok (k, pc)" using r piece by (auto simp: region_ok_def)
  note ins = bt_insert_free [OF ok this free]
  show "regions_ok (bt_insert k pc m)" "set (bt_insert k pc m) = insert (k, pc) (set m)"
    using ins by auto
  have "region_cell x (k, pc) = region_cell x (s, r)"
    if "unat k \<le> x" "x < unat k + unat (r_len pc)" for x
    using r piece that by (auto simp: region_cell_def region_ok_def)
  then show "region_cells (bt_insert k pc m) =
      overlay (region_cells m) (unat k) (unat k + unat (r_len pc)) (\<lambda>x. Some (region_cell x (s, r)))"
    unfolding ins(3) by (auto simp: overlay_def)
qed

text \<open>The part of a region in front of the hole, then the part behind it.\<close>

lemma punch_left:
  assumes ok: "regions_ok m" and r: "(s, r) \<in> set m" and hit: "unat addr < region_end (s, r)"
    and run: "(if s < addr then
              rbind (psub addr s) (\<lambda>n.
              rbind (slice (r_data r) 0 (unat n)) (\<lambda>d.
              Ok (bt_insert s \<lparr> r_len = n, r_prot = r_prot r, r_data = d, r_file = r_file r \<rparr>
                    (bt_remove s m))))
            else Ok (bt_remove s m)) = (Ok m1 :: (regions, error) result)"
  shows "regions_ok m1" and "set m - {(s, r)} \<subseteq> set m1" and "carved_from m m1"
    and "region_cells m1 = overlay (region_cells (bt_remove s m)) (unat s) (unat addr) (\<lambda>x. Some (region_cell x (s, r)))"
proof -
  have rok: "region_ok (s, r)" using ok r by (simp add: regions_ok_def)
  note rem = bt_remove_ok [OF ok r]
  have "regions_ok m1 \<and> set m - {(s, r)} \<subseteq> set m1 \<and> carved_from m m1
    \<and> region_cells m1 = overlay (region_cells (bt_remove s m)) (unat s) (unat addr) (\<lambda>x. Some (region_cell x (s, r)))"
  proof (cases "s < addr")
    case False
    with run have "m1 = bt_remove s m" by simp
    with False rem(1,2) show ?thesis by (auto simp: carved_from_def word_less_nat_alt)
  next
    case True
    then have len: "psub addr s = (Ok (addr - s) :: (u64, error) result)"
        "unat (addr - s) = unat addr - unat s" "unat s < unat addr"
      by (simp_all add: psub_ok unat_sub_ok word_less_nat_alt)
    let ?pc = "\<lparr> r_len = addr - s, r_prot = r_prot r, r_data = take (unat (addr - s)) (r_data r), r_file = r_file r \<rparr>"
    from run True len have m1: "m1 = bt_insert s ?pc (bt_remove s m)"
      by (auto simp: outcome_simps)
    have "regions_ok (bt_insert s ?pc (bt_remove s m))"
      "set (bt_insert s ?pc (bt_remove s m)) = insert (s, ?pc) (set (bt_remove s m))"
      "region_cells (bt_insert s ?pc (bt_remove s m)) = overlay (region_cells (bt_remove s m)) (unat s)
        (unat s + unat (r_len ?pc)) (\<lambda>x. Some (region_cell x (s, r)))"
      by (rule insert_piece [OF rem(1) rok]; use len hit rem(3) in \<open>simp add: holds_addr_def\<close>)+
    moreover have "unat s + unat (r_len ?pc) = unat addr" using len by simp
    moreover have "carved_from m (bt_insert s ?pc (bt_remove s m))"
      using calculation rem(2) hit by (intro carved_step [OF carved_from_refl r]) auto
    ultimately show ?thesis unfolding m1 using rem(2) by auto
  qed
  then show "regions_ok m1" "set m - {(s, r)} \<subseteq> set m1" "carved_from m m1"
    "region_cells m1 = overlay (region_cells (bt_remove s m)) (unat s) (unat addr) (\<lambda>x. Some (region_cell x (s, r)))"
    by auto
qed

lemma punch_right:
  assumes ok: "regions_ok m" and r: "region_ok (s, r)" and e: "unat e = region_end (s, r)"
    and s: "s < end_at"
    and free: "\<forall>x. unat end_at \<le> x \<and> x < unat e \<longrightarrow> region_cells m x = None"
    and run: "(if end_at < e then
           rbind (psub end_at s) (\<lambda>off.
           rbind (psub e end_at) (\<lambda>n.
           if length (r_data r) < unat off then Panic else
           rbind
             (case r_file r of
                None \<Rightarrow> Ok None
              | Some (fd, fo) \<Rightarrow> rbind (padd fo off) (\<lambda>fo'. Ok (Some (fd, fo')))) (\<lambda>fl.
           Ok (bt_insert end_at \<lparr> r_len = n, r_prot = r_prot r, r_data = drop (unat off) (r_data r),
                 r_file = fl \<rparr> m))))
         else Ok m) = (Ok m' :: (regions, error) result)"
  shows "regions_ok m'" and "set m \<subseteq> set m'"
    and "\<forall>p\<in>set m'. p \<in> set m \<or> unat s \<le> unat (fst p) \<and> region_end p \<le> region_end (s, r)"
    and "region_cells m' = overlay (region_cells m) (unat end_at) (unat e) (\<lambda>x. Some (region_cell x (s, r)))"
proof -
  have "regions_ok m' \<and> set m \<subseteq> set m'
    \<and> (\<forall>p\<in>set m'. p \<in> set m \<or> unat s \<le> unat (fst p) \<and> region_end p \<le> region_end (s, r))
    \<and> region_cells m' = overlay (region_cells m) (unat end_at) (unat e) (\<lambda>x. Some (region_cell x (s, r)))"
  proof (cases "end_at < e")
    case False
    with run ok show ?thesis by (auto simp: word_less_nat_alt)
  next
    case True
    then have lt: "unat s < unat end_at" "unat end_at < unat e" using s by (simp_all add: word_less_nat_alt)
    then have len: "unat (end_at - s) = unat end_at - unat s" "unat (e - end_at) = unat e - unat end_at"
      by (simp_all add: unat_sub_ok)
    with run True lt obtain fl where m': "m' = bt_insert end_at \<lparr> r_len = e - end_at, r_prot = r_prot r,
        r_data = drop (unat (end_at - s)) (r_data r), r_file = fl \<rparr> m"
      by (auto simp: outcome_simps psub_ok split: if_splits)
    let ?pc = "\<lparr> r_len = e - end_at, r_prot = r_prot r, r_data = drop (unat (end_at - s)) (r_data r), r_file = fl \<rparr>"
    have "regions_ok (bt_insert end_at ?pc m)"
      "set (bt_insert end_at ?pc m) = insert (end_at, ?pc) (set m)"
      "region_cells (bt_insert end_at ?pc m) = overlay (region_cells m) (unat end_at)
        (unat end_at + unat (r_len ?pc)) (\<lambda>x. Some (region_cell x (s, r)))"
      by (rule insert_piece [OF ok r]; use len lt e r free in \<open>simp add: region_ok_def\<close>)+
    moreover have "unat end_at + unat (r_len ?pc) = unat e" using len lt by simp
    ultimately show ?thesis unfolding m' using lt e by auto
  qed
  then show "regions_ok m'" "set m \<subseteq> set m'"
    "\<forall>p\<in>set m'. p \<in> set m \<or> unat s \<le> unat (fst p) \<and> region_end p \<le> region_end (s, r)"
    "region_cells m' = overlay (region_cells m) (unat end_at) (unat e) (\<lambda>x. Some (region_cell x (s, r)))"
    by auto
qed

lemma punch_one_Ok:
  assumes ok: "regions_ok m" and r: "(s, r) \<in> set m"
    and run: "punch_one addr end_at s m = Ok m'" and le: "addr \<le> end_at"
    and hit: "s < end_at" "unat addr < region_end (s, r)"
  shows "regions_ok m'" and "set m - {(s, r)} \<subseteq> set m'" and "carved_from m m'"
    and "region_cells m' = (\<lambda>x. if unat addr \<le> x \<and> x < unat end_at \<and> holds_addr x (s, r)
           then None else region_cells m x)"
proof -
  have rok: "region_ok (s, r)" using ok r by (simp add: regions_ok_def)
  have "map_of m s = Some r" using map_of_region [OF ok] r by simp
  with run obtain e m1 where e: "padd s (r_len r) = (Ok e :: (u64, error) result)"
    and left: "(if s < addr then
              rbind (psub addr s) (\<lambda>n.
              rbind (slice (r_data r) 0 (unat n)) (\<lambda>d.
              Ok (bt_insert s \<lparr> r_len = n, r_prot = r_prot r, r_data = d, r_file = r_file r \<rparr>
                    (bt_remove s m))))
            else Ok (bt_remove s m)) = (Ok m1 :: (regions, error) result)"
    and right: "(if end_at < e then
           rbind (psub end_at s) (\<lambda>off.
           rbind (psub e end_at) (\<lambda>n.
           if length (r_data r) < unat off then Panic else
           rbind
             (case r_file r of
                None \<Rightarrow> Ok None
              | Some (fd, fo) \<Rightarrow> rbind (padd fo off) (\<lambda>fo'. Ok (Some (fd, fo')))) (\<lambda>fl.
           Ok (bt_insert end_at \<lparr> r_len = n, r_prot = r_prot r, r_data = drop (unat off) (r_data r),
                 r_file = fl \<rparr> m1))))
         else Ok m1) = (Ok m' :: (regions, error) result)"
    unfolding punch_one_def by (auto simp only: option.case rbind_Ok)
  have e': "unat e = region_end (s, r)" using e by (simp add: padd_outcome)
  note l = punch_left [OF ok r hit(2) left] and gone = bt_remove_ok(3) [OF ok r]
    and mine = region_cells_holder [OF ok r]
  have free: "\<forall>x. unat end_at \<le> x \<and> x < unat e \<longrightarrow> region_cells m1 x = None"
    unfolding l(4) using gone e' hit(1) le by (auto simp: overlay_def holds_addr_def word_less_nat_alt word_le_nat_alt)
  note r' = punch_right [OF l(1) rok e' hit(1) free right]
  show "regions_ok m'" "set m - {(s, r)} \<subseteq> set m'" using r'(1,2) l(2) by auto
  show "carved_from m m'" by (rule carved_step [OF l(3) r r'(3)])
  show "region_cells m' = (\<lambda>x. if unat addr \<le> x \<and> x < unat end_at \<and> holds_addr x (s, r)
           then None else region_cells m x)"
    unfolding r'(4) l(4) using gone mine e' hit
    by (auto simp: overlay_def holds_addr_def fun_eq_iff word_less_nat_alt)
qed

lemma punch_all_Ok:
  assumes "punch_all addr end_at ss m = Ok m'" and "regions_ok m" and "addr \<le> end_at" and "distinct ss"
    and "\<forall>s\<in>set ss. s < end_at \<and> (\<exists>r. (s, r) \<in> set m \<and> unat addr < region_end (s, r))"
  shows "regions_ok m' \<and> carved_from m m'
    \<and> region_cells m' = (\<lambda>x. if unat addr \<le> x \<and> x < unat end_at
         \<and> (\<exists>p\<in>set m. fst p \<in> set ss \<and> holds_addr x p) then None else region_cells m x)"
  using assms
proof (induction ss arbitrary: m)
  case Nil
  then show ?case by auto
next
  case (Cons s ss)
  then obtain r m1 where r: "(s, r) \<in> set m" "unat addr < region_end (s, r)" "s < end_at"
    and m1: "punch_one addr end_at s m = Ok m1" "punch_all addr end_at ss m1 = Ok m'"
    by (auto simp: outcome_simps)
  note one = punch_one_Ok [OF Cons.prems(2) r(1) m1(1) Cons.prems(3) r(3,2)]
  have sorted: "sorted_wrt (<) (map fst m)" using Cons.prems(2) by (simp add: regions_ok_def)
  have keep: "p \<in> set m1" if "p \<in> set m" "fst p \<noteq> s" for p using that one(2) by auto
  then have "\<forall>t\<in>set ss. t < end_at \<and> (\<exists>r. (t, r) \<in> set m1 \<and> unat addr < region_end (t, r))"
    using Cons.prems(4,5) by fastforce
  with Cons.IH [OF m1(2) one(1) Cons.prems(3)] Cons.prems(4) have
    all: "regions_ok m'" "carved_from m1 m'"
      "region_cells m' = (\<lambda>x. if unat addr \<le> x \<and> x < unat end_at
         \<and> (\<exists>p\<in>set m1. fst p \<in> set ss \<and> holds_addr x p) then None else region_cells m1 x)"
    by auto
  have "region_cells m' x = (if unat addr \<le> x \<and> x < unat end_at
         \<and> (\<exists>p\<in>set m. fst p \<in> set (s # ss) \<and> holds_addr x p) then None else region_cells m x)" for x
  proof (cases "unat addr \<le> x \<and> x < unat end_at")
    case inside: True
    show ?thesis
    proof (cases "\<exists>p\<in>set m. fst p \<in> set (s # ss) \<and> holds_addr x p")
      case True
      then obtain p where p: "p \<in> set m" "fst p \<in> set (s # ss)" "holds_addr x p" by blast
      then have "p = (s, r) \<or> p \<in> set m1 \<and> fst p \<in> set ss"
        using keep [OF p(1)] key_unique [OF sorted p(1) r(1)] p(2) by (cases "fst p = s") auto
      then show ?thesis using True inside p(3) all(3) one(4) by auto
    next
      case False
      then have "\<not> holds_addr x (s, r)" using r(1) by auto
      then have same: "region_cells m1 x = region_cells m x" using one(4) by auto
      have "\<not> (fst p \<in> set ss \<and> holds_addr x p)" if "p \<in> set m1" for p
      proof
        assume p: "fst p \<in> set ss \<and> holds_addr x p"
        then obtain q where q: "(fst p, q) \<in> set m" using Cons.prems(5) by auto
        then have "(fst p, q) \<in> set m1" using keep [OF q] p Cons.prems(4) by auto
        with key_unique [OF _ that this] one(1) have "p = (fst p, q)" by (simp add: regions_ok_def)
        with q p False show False by (metis list.set_intros(2) fst_conv)
      qed
      with False same all(3) show ?thesis by auto
    qed
  qed (use all(3) one(4) in auto)
  with all one(3) show ?case by (auto intro: carved_from_trans)
qed

lemma punch_Ok:
  assumes ok: "regions_ok m" and run: "punch addr len m = Ok m'"
  shows "regions_ok m'" and "carved_from m m'"
    and "region_cells m' = overlay (region_cells m) (unat addr) (unat addr + unat len) (\<lambda>_. None)"
proof -
  obtain end_at hits where e: "unat end_at = unat addr + unat len"
    and hits: "region_hits addr end_at m = Ok hits" and all: "punch_all addr end_at hits m = Ok m'"
    using run by (auto simp: punch_def outcome_simps padd_outcome)
  have hs: "hits = map fst (filter (\<lambda>p. fst p < end_at \<and> unat addr < region_end p) m)"
    using region_hits_Ok [OF hits] .
  have "distinct (map fst m)" using ok by (simp add: regions_ok_def strict_sorted_iff)
  then have "distinct hits" unfolding hs by (rule distinct_map_filter)
  moreover have "\<forall>s\<in>set hits. s < end_at \<and> (\<exists>r. (s, r) \<in> set m \<and> unat addr < region_end (s, r))"
    unfolding hs by auto
  moreover have "addr \<le> end_at" using e by (simp add: word_le_nat_alt)
  ultimately have main: "regions_ok m' \<and> carved_from m m'
    \<and> region_cells m' = (\<lambda>x. if unat addr \<le> x \<and> x < unat end_at
         \<and> (\<exists>p\<in>set m. fst p \<in> set hits \<and> holds_addr x p) then None else region_cells m x)"
    using punch_all_Ok [OF all ok] by blast
  then show "regions_ok m'" "carved_from m m'" by auto
  have hit: "fst p \<in> set hits" if "p \<in> set m" "holds_addr x p" "unat addr \<le> x" "x < unat end_at" for p x
    unfolding hs set_map by (rule imageI) (use that in \<open>simp add: holds_addr_def word_less_nat_alt\<close>)
  have "region_cells m x = None" if "\<not> (\<exists>p\<in>set m. fst p \<in> set hits \<and> holds_addr x p)"
      "unat addr \<le> x" "x < unat end_at" for x
    using that hit by (auto simp: region_cells_None)
  with main e show "region_cells m' = overlay (region_cells m) (unat addr) (unat addr + unat len) (\<lambda>_. None)"
    by (auto simp: overlay_def fun_eq_iff)
qed

text \<open>No region straddles an end of a range that is free.\<close>

lemma free_cut:
  assumes "regions_ok m" and "a < b" and "\<forall>x. a \<le> x \<and> x < b \<longrightarrow> region_cells m x = None"
  shows "region_cut m a" and "region_cut m b"
proof -
  have no: "\<not> holds_addr x p" if "p \<in> set m" "a \<le> x" "x < b" for x p
    using assms(3) that by (auto simp: region_cells_None)
  show "region_cut m a" using no [of _ a] assms(2) by (fastforce simp: region_cut_def holds_addr_def)
  show "region_cut m b" using no [of _ "b - 1"] assms(2)
    by (force simp: region_cut_def holds_addr_def)
qed

section \<open>Placing\<close>

definition apart :: "u64 \<Rightarrow> u64 \<Rightarrow> u64 \<times> Region \<Rightarrow> bool" where
  "apart a len p \<longleftrightarrow> region_end p \<le> unat a \<or> unat a + unat len \<le> unat (fst p)"

lemma apart_free:
  "\<forall>p\<in>set m. apart a len p \<Longrightarrow> unat a \<le> x \<Longrightarrow> x < unat a + unat len \<Longrightarrow> region_cells m x = None"
  by (fastforce simp: region_cells_None holds_addr_def apart_def)

lemma first_fit_free:
  assumes "first_fit_from len m cur = Ok a"
    and "sorted_wrt (\<lambda>p q. region_end p \<le> unat (fst q)) m"
  shows "cur \<le> a \<and> (\<forall>p\<in>set m. apart a len p)"
  using assms unfolding apart_def
proof (induction m arbitrary: cur)
  case (Cons p m)
  then obtain e where e: "padd (fst p) (r_len (snd p)) = (Ok e :: (u64, error) result)"
    by (auto simp: outcome_simps)
  then have end_eq: "unat e = region_end p" by (simp add: padd_outcome)
  show ?case
  proof (cases "e \<le> cur")
    case True
    with Cons e end_eq show ?thesis by (fastforce simp: word_le_nat_alt)
  next
    case False
    with Cons.prems e obtain c where c: "padd cur len = (Ok c :: (u64, error) result)"
      and rest: "(if c \<le> fst p then Ok cur else first_fit_from len m e) = Ok a"
      by (auto simp: outcome_simps)
    from c have c': "unat c = unat cur + unat len" by (simp add: padd_outcome)
    show ?thesis
    proof (cases "c \<le> fst p")
      case True
      with rest c' Cons.prems(2) end_eq show ?thesis by (fastforce simp: word_le_nat_alt)
    next
      case False
      with Cons.IH [of e] Cons.prems(2) rest end_eq \<open>\<not> e \<le> cur\<close> show ?thesis
        by (auto simp: word_le_nat_alt)
    qed
  qed
qed simp

lemma regions_ok_sorted:
  assumes "regions_ok m" shows "sorted_wrt (\<lambda>p q. region_end p \<le> unat (fst q)) m"
proof -
  have "sorted_wrt (\<lambda>p q. fst p < fst q) m" using assms by (simp add: regions_ok_def sorted_wrt_map)
  then show ?thesis by (rule sorted_wrt_mono_rel [rotated]) (use assms in \<open>auto simp: regions_ok_def\<close>)
qed

lemma rall_True: "rall f xs = Ok True \<Longrightarrow> \<forall>x\<in>set xs. f x = Ok True"
  by (induction xs) (auto simp: outcome_simps split: if_splits)

text \<open>Whatever \<open>Anywhere\<close> and \<open>Hint\<close> choose is free.\<close>

lemma choose_free:
  assumes ok: "regions_ok (st_regions st)" and at: "at = Anywhere \<or> at = Hint h"
    and run: "choose_place st at len = Ok (a, m)"
  shows "m = st_regions st"
    and "unat a \<le> x \<Longrightarrow> x < unat a + unat len \<Longrightarrow> region_cells m x = None"
proof -
  have fit: "\<forall>p\<in>set (st_regions st). apart a len p"
    if "first_fit st len = Ok a"
    using first_fit_free regions_ok_sorted [OF ok] that by (auto simp: first_fit_def)
  have hint: "\<forall>p\<in>set (st_regions st). apart h len p"
    if e: "padd h len = (Ok e :: (u64, error) result)"
      and all: "rall (\<lambda>p. rbind (padd (fst p) (r_len (snd p))) (\<lambda>pe.
                   if pe \<le> h then Ok True
                   else rbind (padd h len) (\<lambda>e. Ok (e \<le> fst p)))) (bt_below e (st_regions st))
             = (Ok True :: (bool, error) result)" for e
  proof
    fix p assume p: "p \<in> set (st_regions st)"
    from e have e': "unat e = unat h + unat len" by (simp add: padd_outcome)
    show "apart h len p"
    proof (cases "fst p < e")
      case True
      with p have "p \<in> set (bt_below e (st_regions st))" by (simp add: bt_below_def)
      with rall_True [OF all] e show ?thesis
        by (fastforce simp: apart_def outcome_simps padd_outcome word_le_nat_alt split: if_splits)
    qed (simp add: apart_def e' word_less_nat_alt)
  qed
  have "m = st_regions st \<and> (\<forall>p\<in>set (st_regions st). apart a len p)"
    using at run fit hint by (auto simp: choose_place_def outcome_simps split: if_splits)
  then show "m = st_regions st"
    and "unat a \<le> x \<Longrightarrow> x < unat a + unat len \<Longrightarrow> region_cells m x = None"
    using apart_free by auto
qed

section \<open>Changing regions in place\<close>

lemma update_regions:
  assumes ok: "regions_ok m" and keys: "\<And>p. fst (g p) = fst p" and lens: "\<And>p. r_len (snd (g p)) = r_len (snd p)"
    and data: "\<And>p. p \<in> set m \<Longrightarrow> length (r_data (snd (g p))) = length (r_data (snd p))"
  shows "regions_ok (map g m)"
    and "region_cells (map g m) x = map_option (\<lambda>p. region_cell x (g p)) (find (holds_addr x) m)"
    and "region_cut (map g m) = region_cut m"
proof -
  have "map fst (map g m) = map fst m" using keys by simp
  then have "sorted_wrt (<) (map fst (map g m))" using ok by (metis regions_ok_def)
  then show "regions_ok (map g m)"
    using ok data by (auto simp: regions_ok_def region_ok_def keys lens)
  have "find (holds_addr x) (map g m) = map_option g (find (holds_addr x) m)"
    by (induction m) (auto simp: holds_addr_def keys lens)
  then show "region_cells (map g m) x = map_option (\<lambda>p. region_cell x (g p)) (find (holds_addr x) m)"
    by (simp add: region_cells_def option.map_comp comp_def)
  show "region_cut (map g m) = region_cut m"
    by (rule ext) (simp add: region_cut_def keys lens)
qed

lemma set_map_filter_iff: "k \<in> set (map f (filter P m)) \<longleftrightarrow> (\<exists>q\<in>set m. f q = k \<and> P q)"
  by auto

lemma fold_protect:
  "fold (\<lambda>s. bt_update s (\<lambda>r. r\<lparr> r_prot := p \<rparr>)) hs m =
     map (\<lambda>q. if fst q \<in> set hs then (fst q, (snd q)\<lparr> r_prot := p \<rparr>) else q) m"
  by (induction hs arbitrary: m) (auto simp: bt_update_def)

lemma protect_regions:
  fixes m hs p
  defines "m' \<equiv> fold (\<lambda>s. bt_update s (\<lambda>r. r\<lparr> r_prot := p \<rparr>)) hs m"
  assumes ok: "regions_ok m"
  shows "regions_ok m'" and "map_option snd (region_cells m' x) = map_option snd (region_cells m x)"
    and "region_cells m' x = map_option (\<lambda>q. (if fst q \<in> set hs then p else r_prot (snd q),
           r_data (snd q) ! (x - unat (fst q)))) (find (holds_addr x) m)"
proof -
  let ?g = "\<lambda>q. if fst q \<in> set hs then (fst q, (snd q)\<lparr> r_prot := p \<rparr>) else q"
  have m': "m' = map ?g m" by (simp add: m'_def fold_protect)
  note up = update_regions [OF ok, of ?g]
  show "regions_ok m'" unfolding m' by (rule up(1)) auto
  have cells: "region_cells m' x = map_option (\<lambda>q. region_cell x (?g q)) (find (holds_addr x) m)"
    unfolding m' by (rule up(2)) auto
  then show "region_cells m' x = map_option (\<lambda>q. (if fst q \<in> set hs then p else r_prot (snd q),
           r_data (snd q) ! (x - unat (fst q)))) (find (holds_addr x) m)"
    by (cases "find (holds_addr x) m") (auto simp: region_cell_def)
  then show "map_option snd (region_cells m' x) = map_option snd (region_cells m x)"
    by (cases "find (holds_addr x) m") (auto simp: region_cells_def region_cell_def)
qed

text \<open>Between cuts a change of protection is exact.\<close>

lemma protect_exact:
  assumes ok: "regions_ok m" and pos: "unat a < unat b" and cut: "region_cut m (unat a)" "region_cut m (unat b)"
    and hits: "region_hits a b m = Ok hs"
  shows "region_cells (fold (\<lambda>s. bt_update s (\<lambda>r. r\<lparr> r_prot := p \<rparr>)) hs m)
     = overlay (region_cells m) (unat a) (unat b) (\<lambda>x. set_prot p (region_cells m x))"
proof
  fix x
  show "region_cells (fold (\<lambda>s. bt_update s (\<lambda>r. r\<lparr> r_prot := p \<rparr>)) hs m) x
     = overlay (region_cells m) (unat a) (unat b) (\<lambda>x. set_prot p (region_cells m x)) x"
  proof (cases "find (holds_addr x) m")
    case None
    then show ?thesis using protect_regions(3) [OF ok, of p hs x]
      by (simp add: region_cells_def overlay_def)
  next
    case (Some q)
    then have q: "q \<in> set m" "holds_addr x q" by (auto simp: find_Some_iff)
    have "fst q \<in> set hs \<longleftrightarrow> fst q < b \<and> unat a < region_end q"
    proof -
      have "fst q \<in> set hs \<longleftrightarrow> (\<exists>q'\<in>set m. fst q' = fst q \<and> fst q' < b \<and> unat a < region_end q')"
        unfolding region_hits_Ok [OF hits] set_map_filter_iff ..
      then show ?thesis using q(1) key_unique [OF _ q(1)] ok by (metis regions_ok_def)
    qed
    then have "fst q \<in> set hs \<longleftrightarrow> unat a \<le> x \<and> x < unat b"
      using cut q pos by (fastforce simp: region_cut_def holds_addr_def word_less_nat_alt)
    with Some show ?thesis
      unfolding protect_regions(3) [OF ok, of p hs x] by (simp add: region_cells_def overlay_def region_cell_def)
  qed
qed

lemma bt_last_upto_in: "bt_last_upto k m = Some p \<Longrightarrow> p \<in> set m \<and> fst p \<le> k"
  by (auto simp: bt_last_upto_def Let_def split: if_splits dest: last_in_set)

lemma store_at_Ok:
  assumes ok: "regions_ok m" and run: "store_at m addr n bs = Ok m'"
  shows "regions_ok m'" and "region_cut m' = region_cut m"
    and "region_cells m' = overlay (region_cells m) (unat addr) (unat addr + length bs)
      (\<lambda>x. set_byte (bs ! (x - unat addr)) (region_cells m x))"
proof -
  obtain start r where r: "(start, r) \<in> set m" "unat start \<le> unat addr"
      "unat (addr - start) + length bs \<le> length (r_data r)"
    and m': "m' = bt_update start (\<lambda>r. r\<lparr> r_data := take (unat (addr - start)) (r_data r) @ bs
        @ drop (unat (addr - start) + length bs) (r_data r) \<rparr>) m"
    using run by (auto simp: store_at_def outcome_simps psub_outcome not_less word_le_nat_alt unat_sub_ok
        dest!: bt_last_upto_in split: option.splits if_splits)
  let ?g = "\<lambda>p. if fst p = start then (fst p, (snd p)\<lparr> r_data := take (unat (addr - start)) (r_data (snd p)) @ bs
        @ drop (unat (addr - start) + length bs) (r_data (snd p)) \<rparr>) else p"
  have off: "unat (addr - start) = unat addr - unat start" using r(2) by (simp add: unat_sub_ok)
  have mine: "p = (start, r)" if "p \<in> set m" "fst p = start" for p
    using that key_unique [OF _ that(1) r(1)] ok by (simp add: regions_ok_def)
  have len: "length (r_data (snd (?g p))) = length (r_data (snd p))" if "p \<in> set m" for p
  proof (cases "fst p = start")
    case True
    then have "p = (start, r)" by (rule mine [OF that])
    with r(3) show ?thesis by simp
  qed simp
  have m'': "m' = map ?g m" unfolding m' bt_update_def ..
  note up = update_regions [OF ok, of ?g]
  show "regions_ok m'" "region_cut m' = region_cut m"
    unfolding m'' by (rule up; use len in simp)+
  show "region_cells m' = overlay (region_cells m) (unat addr) (unat addr + length bs)
      (\<lambda>x. set_byte (bs ! (x - unat addr)) (region_cells m x))"
  proof
    fix x
    have cells: "region_cells m' x = map_option (\<lambda>q. region_cell x (?g q)) (find (holds_addr x) m)"
      unfolding m'' by (rule up(2); use len in simp)
    show "region_cells m' x = overlay (region_cells m) (unat addr) (unat addr + length bs)
      (\<lambda>x. set_byte (bs ! (x - unat addr)) (region_cells m x)) x"
    proof (cases "find (holds_addr x) m")
      case None
      with cells show ?thesis by (simp add: region_cells_def overlay_def)
    next
      case (Some q)
      then have q: "q \<in> set m" "holds_addr x q" by (auto simp: find_Some_iff)
      have dlen: "length (r_data r) = unat (r_len r)" using ok r(1) by (auto simp: regions_ok_def region_ok_def)
      show ?thesis
      proof (cases "fst q = start")
        case True
        with mine q(1) have "q = (start, r)" by blast
        with cells Some q(2) off r dlen show ?thesis
          by (auto simp: region_cells_def overlay_def region_cell_def holds_addr_def nth_append set_byte_def)
      next
        case False
        have "\<not> (unat addr \<le> x \<and> x < unat addr + length bs)"
        proof
          assume "unat addr \<le> x \<and> x < unat addr + length bs"
          then have "holds_addr x (start, r)" using r(2,3) off dlen unfolding holds_addr_def by force
          with holder_unique [OF ok q(1) r(1) q(2)] False show False by simp
        qed
        with cells Some False show ?thesis by (auto simp: region_cells_def overlay_def)
      qed
    qed
  qed
qed

section \<open>The contract\<close>

definition fake_inv :: "State \<Rightarrow> bool" where
  "fake_inv st \<longleftrightarrow> regions_ok (st_regions st)"

definition fake_cells :: "State \<Rightarrow> cells" where
  "fake_cells st = region_cells (st_regions st)"

definition fake_cut :: "State \<Rightarrow> nat \<Rightarrow> bool" where
  "fake_cut st = region_cut (st_regions st)"

definition file_byte :: "files \<Rightarrow> i32 \<Rightarrow> nat \<Rightarrow> u8" where
  "file_byte fls fd k = (case fls fd of None \<Rightarrow> 0 | Some body \<Rightarrow> if k < length body then body ! k else 0)"

lemmas fake_defs = fake_inv_def fake_cells_def fake_cut_def

lemma push_op_regions [simp]: "st_regions (push_op op st) = st_regions st"
  by (simp add: push_op_def)

lemma fake_vm_ops [simp]:
  "vm_page_size (fake_vm fv fls) = fv_page fv" "vm_map (fake_vm fv fls) = fake_map fv fls"
  "vm_unmap (fake_vm fv fls) = fake_unmap" "vm_protect (fake_vm fv fls) = fake_protect"
  "vm_write (fake_vm fv fls) = fake_write" "vm_zero (fake_vm fv fls) = fake_zero"
  "vm_icache_sync (fake_vm fv fls) = fake_icache_sync" "vm_can_map_files (fake_vm fv fls) = fv_can_map_files fv"
  "vm_alloc_aligned (fake_vm fv fls) = fake_alloc_aligned" "vm_free_aligned (fake_vm fv fls) = fake_free_aligned"
  by (simp_all add: fake_vm_def)

lemma map_data_Ok:
  assumes "map_data fls src len = Ok d"
  shows "length d = unat len" and "k < unat len \<Longrightarrow> d ! k = src_byte (file_byte fls) src k"
proof -
  have "length d = unat len \<and> (\<forall>k < unat len. d ! k = src_byte (file_byte fls) src k)"
    using assms
    by (cases src) (auto simp: map_data_def src_byte_def file_byte_def outcome_simps Let_def nth_append
        split: option.splits)
  then show "length d = unat len" "k < unat len \<Longrightarrow> d ! k = src_byte (file_byte fls) src k" by auto
qed

text \<open>Placing a fresh region in a range that is free.\<close>

lemma place_region:
  fixes p :: u32 and fl :: "(i32 \<times> u64) option"
  assumes ok: "regions_ok m" and pos: "0 < unat len" and d: "map_data fls src len = Ok d"
    and free: "\<forall>x. unat a \<le> x \<and> x < unat a + unat len \<longrightarrow> region_cells m x = None"
  defines "m' \<equiv> bt_insert a \<lparr> r_len = len, r_prot = p, r_data = d, r_file = fl \<rparr> m"
  shows "regions_ok m'" and "region_cut m' (unat a)" and "region_cut m' (unat a + unat len)"
    and "\<forall>x. region_cut m x \<and> (x \<le> unat a \<or> unat a + unat len \<le> x) \<longrightarrow> region_cut m' x"
    and "region_cells m' = overlay (region_cells m) (unat a) (unat a + unat len)
      (\<lambda>x. Some (p, src_byte (file_byte fls) src (x - unat a)))"
proof -
  let ?r = "\<lparr> r_len = len, r_prot = p, r_data = d, r_file = fl \<rparr>"
  have "region_ok (a, ?r)" using pos map_data_Ok(1) [OF d] by (simp add: region_ok_def)
  note ins = bt_insert_free [OF ok this] free
  have ins': "regions_ok m'" "set m' = insert (a, ?r) (set m)"
      "region_cells m' = overlay (region_cells m) (unat a) (unat a + unat len) (\<lambda>x. Some (region_cell x (a, ?r)))"
    using ins free by (simp_all add: m'_def)
  show "regions_ok m'" by (rule ins'(1))
  show "\<forall>x. region_cut m x \<and> (x \<le> unat a \<or> unat a + unat len \<le> x) \<longrightarrow> region_cut m' x"
    using ins'(2) by (auto simp: region_cut_def)
  then show "region_cut m' (unat a)" "region_cut m' (unat a + unat len)"
    using free_cut [OF ok _ free] pos by auto
  show "region_cells m' = overlay (region_cells m) (unat a) (unat a + unat len)
      (\<lambda>x. Some (p, src_byte (file_byte fls) src (x - unat a)))"
    unfolding ins'(3) using map_data_Ok(2) [OF d] by (intro overlay_cong) (auto simp: region_cell_def)
qed

lemma fake_map_Ok:
  assumes "fake_map fv fls at len p src st = (Ok got, st')"
  obtains m d where "choose_place st at len = Ok (got, m)" and "map_data fls src len = Ok d"
    and "unat (fv_page fv) dvd unat got"
    and "st_regions st' = bt_insert got \<lparr> r_len = len, r_prot = p, r_data = d, r_file = map_file src \<rparr> m"
proof -
  from assms obtain m d where "choose_place st at len = Ok (got, m)" "map_data fls src len = Ok d"
      "got mod fv_page fv = 0"
      "st_regions st' = bt_insert got \<lparr> r_len = len, r_prot = p, r_data = d, r_file = map_file src \<rparr> m"
    by (auto simp: fake_map_def outcome_simps split: if_splits result.splits prod.splits)
  moreover from this(3) have "unat (fv_page fv) dvd unat got"
    by (metis dvd_eq_mod_eq_0 unat_0 unat_mod)
  ultimately show thesis using that by blast
qed

text \<open>Nothing in this address space fails: it works or it panics.\<close>

lemma rfilter_no_err: "(\<And>x. f x \<noteq> Err e) \<Longrightarrow> rfilter f xs \<noteq> Err e"
  by (induction xs) (auto simp: outcome_simps)

lemma rall_no_err: "(\<And>x. f x \<noteq> Err e) \<Longrightarrow> rall f xs \<noteq> Err e"
  by (induction xs) (auto simp: outcome_simps split: if_splits)

lemma region_hits_no_err: "region_hits a b m \<noteq> Err e"
  by (auto simp: region_hits_def outcome_simps padd_outcome rfilter_no_err)

lemma punch_no_err: "punch a len m \<noteq> Err e"
proof -
  have po: "punch_one a b s m \<noteq> Err e" for a b s m
    by (auto simp: punch_one_def outcome_simps padd_outcome psub_outcome split: option.splits if_splits)
  have "punch_all a b ss m \<noteq> Err e" for a b ss m
    by (induction ss arbitrary: m) (auto simp: outcome_simps po)
  then show ?thesis
    by (auto simp: punch_def outcome_simps padd_outcome region_hits_no_err)
qed

lemma first_fit_no_err: "first_fit_from len m cur \<noteq> Err e"
  by (induction m arbitrary: cur) (auto simp: outcome_simps padd_outcome split: if_splits)

lemma choose_no_err: "choose_place st at len \<noteq> Err e"
proof -
  have "rall (\<lambda>p. rbind (padd (fst p) (r_len (snd p))) (\<lambda>pe.
                   if pe \<le> a then Ok True
                   else rbind (padd a len) (\<lambda>e. Ok (e \<le> fst p)))) xs \<noteq> Err e" for a xs
    by (rule rall_no_err) (auto simp: outcome_simps padd_outcome)
  then show ?thesis
    by (cases "at") (auto simp: choose_place_def first_fit_def outcome_simps padd_outcome punch_no_err first_fit_no_err)
qed

lemma fake_no_err:
  "fake_map fv fls at len p src st \<noteq> (Err e, st')"
  "fake_unmap a len st \<noteq> (Err e, st')" "fake_protect a len p st \<noteq> (Err e, st')"
  "fake_write a bs st \<noteq> (Err e, st')" "fake_zero a len st \<noteq> (Err e, st')"
  "fake_icache_sync a len st \<noteq> (Err e, st')" "fake_alloc_aligned al len st \<noteq> (Err e, st')"
  "fake_free_aligned a len st \<noteq> (Err e, st')"
proof -
  have "map_data fls src len \<noteq> Err e"
    by (auto simp: map_data_def outcome_simps Let_def split: MapSrc.splits option.splits)
  then show "fake_map fv fls at len p src st \<noteq> (Err e, st')"
    by (auto simp: fake_map_def outcome_simps choose_no_err split: if_splits result.splits prod.splits)
  have "store_at m a n bs \<noteq> Err e" for m n bs
    by (auto simp: store_at_def outcome_simps padd_outcome psub_outcome split: option.splits if_splits)
  then show "fake_write a bs st \<noteq> (Err e, st')" "fake_zero a len st \<noteq> (Err e, st')"
    by (auto simp: fake_write_def fake_zero_def split: result.splits)
qed (auto simp: fake_unmap_def fake_protect_def fake_icache_sync_def fake_alloc_aligned_def
    fake_free_aligned_def punch_no_err region_hits_no_err outcome_simps padd_outcome psub_outcome Let_def
    split: result.splits prod.splits if_splits)

lemma fake_map_exact:
  assumes "fake_inv s" and "0 < unat len" and "fake_map fv fls (Exact a) len p src s = (Ok got, s')"
  shows "fake_inv s'
    \<and> fake_cells s' = overlay (fake_cells s) (unat a) (unat a + unat len)
        (\<lambda>x. Some (p, src_byte (file_byte fls) src (x - unat a)))
    \<and> fake_cut s' (unat a) \<and> fake_cut s' (unat a + unat len)
    \<and> (\<forall>x. fake_cut s x \<and> (x \<le> unat a \<or> unat a + unat len \<le> x) \<longrightarrow> fake_cut s' x)"
proof -
  obtain m d where m: "choose_place s (Exact a) len = Ok (got, m)" and d: "map_data fls src len = Ok d"
    and s': "st_regions s' = bt_insert got \<lparr> r_len = len, r_prot = p, r_data = d, r_file = map_file src \<rparr> m"
    using fake_map_Ok [OF assms(3)] by metis
  from m have p: "got = a" "punch a len (st_regions s) = Ok m" by (auto simp: choose_place_def outcome_simps)
  note punched = punch_Ok [OF assms(1) [unfolded fake_inv_def] p(2)]
  have "\<forall>x. unat a \<le> x \<and> x < unat a + unat len \<longrightarrow> region_cells m x = None" using punched(3) by simp
  note placed = place_region [OF punched(1) assms(2) d this, of p "map_file src"]
  have "overlay (region_cells m) (unat a) (unat a + unat len) f
      = overlay (region_cells (st_regions s)) (unat a) (unat a + unat len) f" for f
    unfolding punched(3) by (auto simp: overlay_def)
  with placed carved_cut [OF punched(2)] s' p(1) show ?thesis by (auto simp: fake_defs)
qed

lemma fake_map_free:
  assumes "fake_inv s" and "0 < unat len" and "at = Anywhere \<or> at = Hint h"
    and "fake_map fv fls at len p src s = (Ok got, s')"
  shows "fake_inv s' \<and> unat (fv_page fv) dvd unat got
    \<and> (\<forall>x. unat got \<le> x \<and> x < unat got + unat len \<longrightarrow> fake_cells s x = None)
    \<and> fake_cells s' = overlay (fake_cells s) (unat got) (unat got + unat len)
        (\<lambda>x. Some (p, src_byte (file_byte fls) src (x - unat got)))"
proof -
  obtain m d where m: "choose_place s at len = Ok (got, m)" and d: "map_data fls src len = Ok d"
    and dvd: "unat (fv_page fv) dvd unat got"
    and s': "st_regions s' = bt_insert got \<lparr> r_len = len, r_prot = p, r_data = d, r_file = map_file src \<rparr> m"
    using fake_map_Ok [OF assms(4)] by metis
  note free = choose_free [OF assms(1) [unfolded fake_inv_def] assms(3) m]
  have "\<forall>x. unat got \<le> x \<and> x < unat got + unat len \<longrightarrow> region_cells (st_regions s) x = None"
    using free by auto
  note placed = place_region [OF assms(1) [unfolded fake_inv_def] assms(2) d this, of p "map_file src"]
  from placed(1,5) free dvd s' show ?thesis by (auto simp: fake_defs)
qed

lemma fake_alloc_ok:
  assumes "fake_inv s" and "0 < unat len" and pow: "is_power_of_two al"
    and run: "fake_alloc_aligned al len s = (Ok got, s')"
    and free: "\<forall>x. unat got \<le> x \<and> x < unat got + unat len \<longrightarrow> fake_cells s x = None"
  shows "fake_inv s' \<and> unat al dvd unat got
    \<and> (\<exists>f. fake_cells s' = overlay (fake_cells s) (unat got) (unat got + unat len) (\<lambda>x. Some (RW, f x)))"
proof -
  from run obtain h where got: "got = h AND NOT (al - 1)"
    and s': "st_regions s' = bt_insert got
       \<lparr> r_len = len, r_prot = RW, r_data = replicate (unat len) 0, r_file = None \<rparr> (st_regions s)"
    by (auto simp: fake_alloc_aligned_def outcome_simps Let_def psub_one [OF pow]
        split: result.splits prod.splits)
  have "map_data (\<lambda>_. None) Anon len = Ok (replicate (unat len) 0)" by (simp add: map_data_def)
  note placed = place_region [OF assms(1) [unfolded fake_inv_def] assms(2) this
      free [unfolded fake_cells_def], of RW None]
  have "unat al dvd unat got" unfolding got unat_and_high [OF pow] by simp
  with placed(1,5) s' show ?thesis unfolding fake_defs by metis
qed

text \<open>The laws of the contract, discharged for the fake.\<close>

interpretation fake: address_space "fake_vm fv fls" fake_inv fake_cells fake_cut "file_byte fls"
  for fv fls
proof (unfold_locales, unfold fake_vm_ops, goal_cases)
  case (2 s len a p src got s')
  then show ?case by (intro fake_map_exact)
next
  case (4 s len at h p src got s')
  then show ?case using fake_map_free by simp
next
  case (6 s len a u s')
  then show ?case using punch_Ok [of "st_regions s" a len]
    by (auto simp: fake_unmap_def fake_defs split: result.splits)
next
  case (7 s len p a u s')
  then obtain e hs where "padd a len = (Ok e :: (u64, error) result)" "region_hits a e (st_regions s) = Ok hs"
      "st_regions s' = fold (\<lambda>t. bt_update t (\<lambda>r. r\<lparr> r_prot := p \<rparr>)) hs (st_regions s)"
    by (auto simp: fake_protect_def outcome_simps split: result.splits if_splits)
  with 7 protect_exact [of "st_regions s" a e hs p] protect_regions(1) [of "st_regions s" p hs] show ?case
    by (auto simp: fake_defs padd_outcome)
next
  case (9 s a len u s')
  then obtain m where "store_at (st_regions s) a len (replicate (unat len) 0) = Ok m" "st_regions s' = m"
    by (auto simp: fake_zero_def split: result.splits)
  with 9 store_at_Ok [of "st_regions s" a len "replicate (unat len) 0" m] show ?case
    by (auto simp: fake_defs intro!: overlay_cong)
next
  case (11 s a len u s')
  then show ?case by (auto simp: fake_icache_sync_def fake_defs)
next
  case (13 s a len p u s' e)
  then obtain hs where "st_regions s' = fold (\<lambda>t. bt_update t (\<lambda>r. r\<lparr> r_prot := p \<rparr>)) hs (st_regions s)"
    using fake_no_err(3) by (auto simp: fake_protect_def outcome_simps split: result.splits if_splits)
  with 13(1) protect_regions [of "st_regions s" p hs] show ?case by (auto simp: fake_defs)
next
  case (14 s a bs u s')
  then show ?case using store_at_Ok [of "st_regions s" a "of_nat (length bs)" bs]
    by (auto simp: fake_write_def fake_defs split: result.splits)
next
  case (16 a len s u s' e)
  then obtain m where "store_at (st_regions s) a len (replicate (unat len) 0) = Ok m"
    using fake_no_err(5) by (auto simp: fake_zero_def split: result.splits)
  then show ?case by (auto simp: store_at_def outcome_simps padd_outcome less_imp_le split: option.splits)
next
  case (17 s len al got s')
  then show ?case by (intro fake_alloc_ok)
next
  case (19 s len a u s')
  then show ?case using punch_Ok [of "st_regions s" a len]
    by (auto simp: fake_free_aligned_def fake_defs split: result.splits)
qed (auto simp: fake_no_err)

end
