(* ===== verification/Fake_Fs.thy ===== *)
theory Fake_Fs
  imports Program_Facts Fake_Vm_Facts
begin

text \<open>
  The file system the tests of \<open>rust/src/program.rs\<close> load programs from: a map from paths to
  contents, and the table of descriptors of \<open>rust/src/testutil.rs\<close>, here the list of its entries in
  key order, in which the descriptor of a file is looked up by its content. With the address space
  of the tests it keeps the contract \<open>program_host\<close>.
\<close>

record FakeFs =
  ff_files :: "bytes \<Rightarrow> bytes option"
  ff_mappable :: bool

definition FakeFs_new :: "bool \<Rightarrow> FakeFs" where
  "FakeFs_new mappable = \<lparr> ff_files = (\<lambda>_. None), ff_mappable = mappable \<rparr>"

text \<open>
  Adding a file installs it under its descriptor when the file system is mappable. The table is a
  map ordered by its signed keys.
\<close>

primrec fd_insert :: "i32 \<Rightarrow> bytes \<Rightarrow> (i32 \<times> bytes) list \<Rightarrow> (i32 \<times> bytes) list" where
  "fd_insert fd data [] = [(fd, data)]"
| "fd_insert fd data (e # table) =
     (if sint fd < sint (fst e) then (fd, data) # e # table
      else if fd = fst e then (fd, data) # table
      else e # fd_insert fd data table)"

definition FakeFs_add ::
  "bytes \<Rightarrow> bytes \<Rightarrow> i32 \<Rightarrow> FakeFs \<times> (i32 \<times> bytes) list \<Rightarrow> FakeFs \<times> (i32 \<times> bytes) list" where
  "FakeFs_add path data fd = (\<lambda>(fs, table).
     (fs\<lparr> ff_files := (ff_files fs)(path \<mapsto> data) \<rparr>,
      if ff_mappable fs then fd_insert fd data table else table))"

definition find_fd :: "(i32 \<times> bytes) list \<Rightarrow> bytes \<Rightarrow> i32 option" where
  "find_fd table data = map_option fst (List.find (\<lambda>kv. snd kv = data) table)"

definition fake_opener :: "FakeFs \<Rightarrow> (i32 \<times> bytes) list \<Rightarrow> State Opener" where
  "fake_opener fs table =
    \<lparr> op_open = (\<lambda>path. slift
        (rbind (ok_or (ff_files fs path) ENOENT) (\<lambda>data.
         Ok \<lparr> op_src = slice_source data, op_fd = (if ff_mappable fs then find_fd table data else None), op_owned = None \<rparr>))),
      op_drop = (\<lambda>_. sret ()) \<rparr>"

lemma map_of_fd_insert: "map_of (fd_insert fd data table) = (map_of table)(fd \<mapsto> data)"
  by (induction table) (auto simp: fun_eq_iff)

interpretation fake_host: program_host "fake_vm fv (map_of table)" fake_inv fake_cells fake_cut
    "file_byte (map_of table)" "\<lambda>_. True" "\<lambda>_ _. True" "fake_opener fs table" for fv table fs
  by unfold_locales (auto simp: fake_opener_def fake_no_err)

section \<open>A file system ready for mapping\<close>

text \<open>Every file has a descriptor, and no image in it occupies an empty range.\<close>

definition fs_ready :: "target_arch \<Rightarrow> heap \<Rightarrow> FakeVm \<Rightarrow> FakeFs \<Rightarrow> (i32 \<times> bytes) list \<Rightarrow> bool" where
  "fs_ready arch heap fv fs table \<longleftrightarrow>
     is_power_of_two (fv_page fv) \<and> fv_can_map_files fv \<and> ff_mappable fs \<and> distinct (map fst table)
     \<and> (\<forall>path data. ff_files fs path = Some data \<longrightarrow> data \<in> snd ` set table
          \<and> (\<forall>img. Image_parse arch heap (slice_source data) (fv_page fv) = Ok img \<longrightarrow>
               img_lo (fv_page fv) img < img_hi (fv_page fv) img))"

lemma find_fd_Some:
  assumes "data \<in> snd ` set table" and "distinct (map fst table)"
  obtains fd where "find_fd table data = Some fd" and "map_of table fd = Some data"
proof -
  from assms(1) obtain kv where "List.find (\<lambda>kv. snd kv = data) table = Some kv"
    by (metis (mono_tags, lifting) find_None_iff imageE option.exhaust)
  moreover from this have "kv \<in> set table" "snd kv = data" by (auto simp: find_Some_iff)
  ultimately show thesis
    using that [of "fst kv"] assms(2) by (cases kv) (auto simp: find_fd_def)
qed

lemma fake_open_Ok:
  assumes "fs_ready arch heap fv fs table" and "op_open (fake_opener fs table) path st = (Ok op, st')"
  obtains data fd where "ff_files fs path = Some data" and "op_src op = slice_source data" and "op_fd op = Some fd"
    and "map_of table fd = Some data" and "st' = st"
proof -
  from assms(2) obtain data where data: "ff_files fs path = Some data" "op_src op = slice_source data"
      "op_fd op = (if ff_mappable fs then find_fd table data else None)" "st' = st"
    by (auto simp: fake_opener_def outcome_simps)
  from assms(1) data(1) have "data \<in> snd ` set table" "distinct (map fst table)" "ff_mappable fs"
    by (auto simp: fs_ready_def)
  with find_fd_Some [OF this(1,2)] data that show thesis by metis
qed

lemma fake_ready:
  assumes "fs_ready arch heap fv fs table"
  shows "maps_files fake_inv (fake_vm fv (map_of table)) (fake_opener fs table)"
    and "serves_solid fake_inv arch heap (vm_page_size (fake_vm fv (map_of table))) (fake_opener fs table)"
    and "is_power_of_two (vm_page_size (fake_vm fv (map_of table)))"
proof -
  show "maps_files fake_inv (fake_vm fv (map_of table)) (fake_opener fs table)"
    unfolding maps_files_def
  proof (intro conjI allI impI)
    show "vm_can_map_files (fake_vm fv (map_of table))" using assms by (simp add: fs_ready_def)
    show "op_fd op \<noteq> None" if "op_open (fake_opener fs table) path s = (Ok op, s')" for path s op s'
      using fake_open_Ok [OF assms that] by (metis option.distinct(1))
  qed
  show "serves_solid fake_inv arch heap (vm_page_size (fake_vm fv (map_of table))) (fake_opener fs table)"
    unfolding serves_solid_def
  proof (intro allI impI, elim conjE)
    fix path s op s' img
    assume "op_open (fake_opener fs table) path s = (Ok op, s')"
      "Image_parse arch heap (op_src op) (vm_page_size (fake_vm fv (map_of table))) = Ok img"
    with fake_open_Ok [OF assms this(1)] assms
    show "img_lo (vm_page_size (fake_vm fv (map_of table))) img < img_hi (vm_page_size (fake_vm fv (map_of table))) img"
      by (metis (no_types, lifting) fs_ready_def fake_vm_ops(1))
  qed
  show "is_power_of_two (vm_page_size (fake_vm fv (map_of table)))"
    using assms by (simp add: fs_ready_def fake_vm_ops)
qed

end
