(* ===== verification/Loading.thy ===== *)
theory Loading
  imports Fake_Vm_Facts Sample
begin

text \<open>
  The properties of loading, stated of the loader run against the address space of the test
  suite. They are the facts of the locales \<open>address_space\<close> and \<open>copying\<close>, reached through the
  interpretations \<open>fake\<close> and \<open>fake_copy\<close>, with their statements written out: what a loaded image
  shows, what is left alone, that a reservation is never given up during a load and never handed
  out twice, and what happens when a load fails.
\<close>

interpretation fake_copy: copying "fake_vm fv fls" fake_inv fake_cells fake_cut "file_byte fls"
    "slice_source data" "(!) data"
  for fv fls data
  by unfold_locales

section \<open>A run on the sample image\<close>

definition sample_fv :: FakeVm where "sample_fv = \<lparr> fv_page = 64, fv_can_map_files = True \<rparr>"

definition sample_files :: files where
  "sample_files = install 4 ld_elf (install 3 sample_elf (\<lambda>_. None))"

definition sample_state :: State where
  "sample_state = \<lparr> st_base = 4160, st_regions = [], st_log = [], st_heap = 65536 \<rparr>"

definition sample_loaded :: Loaded where
  "sample_loaded = \<lparr> ld_plan = sample_plan, allocated = False \<rparr>"

definition sample_regions :: regions where
  "sample_regions =
    [(4160, \<lparr> r_len = 64, r_prot = 0, r_data = replicate 64 0, r_file = None \<rparr>),
     (4224, \<lparr> r_len = 256, r_prot = 5, r_data = take 240 sample_elf @ replicate 16 0, r_file = Some (3, 0) \<rparr>),
     (4480, \<lparr> r_len = 64, r_prot = 0, r_data = replicate 64 0, r_file = None \<rparr>),
     (4544, \<lparr> r_len = 64, r_prot = 3, r_data = take 56 (drop 192 sample_elf) @ replicate 8 0,
        r_file = Some (3, 192) \<rparr>),
     (4608, \<lparr> r_len = 128, r_prot = 3, r_data = replicate 128 0, r_file = None \<rparr>)]"

definition sample_loaded_state :: State where
  "sample_loaded_state =
    \<lparr> st_base = 4160, st_regions = sample_regions,
      st_log = [OpMap 4160 576 0, OpMap 4224 256 7, OpZero 4464 16, OpProtect 4224 256 5, OpMap 4544 64 3,
        OpZero 4600 8, OpMap 4608 128 3, OpIcache 4464 16],
      st_heap = 65536 \<rparr>"

lemma sample_reserve:
  "va_span sample_image 64 = Ok (0, 512)" "reservation_len sample_image 64 = Ok 576"
  by (simp_all add: reservation_len_def sample_defs word_eval layout_eval)

lemma sample_facts:
  "e_type (ehdr sample_image) = ET_DYN" "length (phdrs sample_image) = 3"
  "is_exec (phdrs sample_image ! 2)" "\<not> is_exec (phdrs sample_image ! 1)"
  by (simp_all add: sample_defs is_exec_def elf_const_defs)

lemmas fake_eval = fake_map_def fake_zero_def fake_protect_def fake_icache_sync_def fake_unmap_def
  choose_place_def punch_def region_hits_def bt_below_def punch_one_def bt_remove_def bt_update_def
  bt_last_upto_def first_fit_def map_data_def map_file_def store_at_def push_op_def slice_def

lemma sample_no_sync:
  fixes vm :: "State Vm"
  shows "sync_zeroed vm sample_image \<lparr> idx = 1, file_map = f, zero_map = z, anon_map = a, prot = q,
      needs_write_window = w \<rparr> = sret ()"
  by (rule ext) (simp add: sync_zeroed_def sample_facts del: One_nat_def)

lemmas fill_eval = fill_mapped_def fill_mapped_segment_def index_at_def sample_facts seg_range_def word_eval
  sbind_def fake_eval Let_def sample_files_def install_def prot_defs sample_fv_def sample_no_sync

lemma sample_fill:
  "fill_mapped (fake_vm sample_fv sample_files) sample_image 3 sample_plan
     \<lparr> st_base = 4160,
       st_regions = [(4160, \<lparr> r_len = 576, r_prot = 0, r_data = replicate 576 0, r_file = None \<rparr>)],
       st_log = [OpMap 4160 576 0], st_heap = 65536 \<rparr> = (Ok (), sample_loaded_state)"
  by (simp add: fill_eval sample_plan_def del: One_nat_def)
    (simp add: sync_zeroed_def sample_facts sbind_def fake_eval sample_loaded_state_def sample_regions_def)

lemma sample_load:
  "load_image (fake_vm sample_fv sample_files) any_heap sample_image src (Some 3) sample_state
     = (Ok sample_loaded, sample_loaded_state)"
proof -
  have map: "fake_map sample_fv sample_files Anywhere 576 PROT_NONE Anon sample_state = (Ok 4160,
     \<lparr> st_base = 4160,
       st_regions = [(4160, \<lparr> r_len = 576, r_prot = 0, r_data = replicate 576 0, r_file = None \<rparr>)],
       st_log = [OpMap 4160 576 0], st_heap = 65536 \<rparr>)"
    by (simp add: fake_eval sample_fv_def sample_state_def prot_defs)
  have page: "fv_page sample_fv = 64" "fv_can_map_files sample_fv" by (simp_all add: sample_fv_def)
  show ?thesis
    by (simp add: load_image_def load_mapped_def sample_reserve sample_facts sbind_def map page
        sample_plan_At son_err_def sample_fill Let_def sample_loaded_def)
qed

lemma sample_inv: "fake_inv sample_state" "fv_page sample_fv = 64" "fv_can_map_files sample_fv"
  by (simp_all add: fake_inv_def regions_ok_def sample_state_def sample_fv_def)

section \<open>A second image after it\<close>

definition linker_plan :: LoadPlan where
  "linker_plan =
    \<lparr> bias = 4736, reserve_addr = 4736, reserve_len = 576, base = 4736, end_addr = 5248, align = 128,
      segments =
        [\<lparr> idx = 2, file_map = Some \<lparr> fm_addr = 4736, fm_len = 256, fm_off = 0 \<rparr>,
           zero_map = Some \<lparr> am_addr = 4976, am_len = 16 \<rparr>, anon_map = None,
           prot = 5, needs_write_window = True \<rparr>,
         \<lparr> idx = 1, file_map = Some \<lparr> fm_addr = 5056, fm_len = 64, fm_off = 192 \<rparr>,
           zero_map = Some \<lparr> am_addr = 5112, am_len = 8 \<rparr>,
           anon_map = Some \<lparr> am_addr = 5120, am_len = 128 \<rparr>, prot = 3,
           needs_write_window = False \<rparr>],
      entry = 4936 \<rparr>"

definition ld_loaded :: Loaded where
  "ld_loaded = \<lparr> ld_plan = linker_plan, allocated = False \<rparr>"

lemma ld_facts:
  "e_type (ehdr ld_image) = ET_DYN" "length (phdrs ld_image) = 3"
  "is_exec (phdrs ld_image ! 2)" "\<not> is_exec (phdrs ld_image ! 1)"
  "va_span ld_image 64 = Ok (0, 512)" "reservation_len ld_image 64 = Ok 576"
  by (simp_all add: reservation_len_def ld_defs word_eval layout_eval)

lemma ld_wf: "wf_image 64 ld_image"
  using Image_parse_wf [OF power_of_two_samples(1) ld_parse] .

lemma ld_no_sync:
  fixes vm :: "State Vm"
  shows "sync_zeroed vm ld_image \<lparr> idx = 1, file_map = f, zero_map = z, anon_map = a, prot = q,
      needs_write_window = w \<rparr> = sret ()"
  by (rule ext) (simp add: sync_zeroed_def ld_facts del: One_nat_def)

lemma ld_load:
  obtains st2 where "load_image (fake_vm sample_fv sample_files) any_heap ld_image src (Some 4)
      sample_loaded_state = (Ok ld_loaded, st2)"
proof -
  have planned: "plan any_heap ld_image 64 (At 4736) = Ok linker_plan"
    by (simp add: ld_defs word_eval layout_eval linker_plan_def)
  obtain st1 where map: "fake_map sample_fv sample_files Anywhere 576 PROT_NONE Anon sample_loaded_state = (Ok 4736, st1)"
      "st_regions st1 = sample_regions @ [(4736, \<lparr> r_len = 576, r_prot = 0, r_data = replicate 576 0, r_file = None \<rparr>)]"
    by (simp add: fake_eval sample_fv_def sample_loaded_state_def sample_regions_def prot_defs word_eval)
  have "fst (fill_mapped (fake_vm sample_fv sample_files) ld_image 4 linker_plan st1) = Ok ()"
    by (simp add: fill_eval ld_facts ld_no_sync linker_plan_def map(2) sample_regions_def del: One_nat_def)
      (simp add: sync_zeroed_def ld_facts sbind_def fake_eval)
  then obtain st2 where fill: "fill_mapped (fake_vm sample_fv sample_files) ld_image 4 linker_plan st1 = (Ok (), st2)"
    by (metis prod.collapse)
  show thesis
    by (rule that [of st2]) (simp add: load_image_def load_mapped_def ld_facts sbind_def map(1) sample_inv
        planned son_err_def fill Let_def ld_loaded_def)
qed

section \<open>Shared facts\<close>

lemma load_image_mapped:
  "fv_can_map_files fv \<Longrightarrow>
   load_image (fake_vm fv fls) heap img src (Some fd) = load_mapped (fake_vm fv fls) heap img fd (fv_page fv)"
  by (simp add: load_image_def)

lemmas mapped_load = fake.load_mapped_cells [OF _ fake_vm_ops(1)]

lemma mapped_segment_cell:
  assumes "wf_image (fv_page fv) img" and "fake_inv st"
    and "load_mapped (fake_vm fv fls) heap img fd (fv_page fv) st = (Ok l, st')"
    and "0 < unat (reserve_len (ld_plan l))" and "i \<in> set (loads img)"
    and "seg_lo (fv_page fv) (phdrs img ! i) + unat (bias (ld_plan l)) \<le> x"
    and "x < seg_hi (fv_page fv) (phdrs img ! i) + unat (bias (ld_plan l))"
  shows "fake_cells st' x = Some (prot_of (phdrs img ! i), seg_byte (file_byte fls fd) (bias (ld_plan l)) (phdrs img ! i) x)"
  unfolding mapped_load(6) [OF assms(1-4)]
  by (rule image_cells_in [OF sorted_image [OF assms(1)] assms(5-7)])

text \<open>After a load the whole reservation is mapped, before it none of it was, the rest is as it was.\<close>

lemma mapped_reservation:
  assumes "wf_image (fv_page fv) img" and "fake_inv st" and "fv_can_map_files fv"
    and "load_image (fake_vm fv fls) heap img src (Some fd) st = (Ok l, st')"
    and "0 < unat (reserve_len (ld_plan l))"
  shows "fake_inv st'" and "in_reservation l x \<Longrightarrow> fake_cells st x = None"
    and "in_reservation l x \<Longrightarrow> fake_cells st' x \<noteq> None"
    and "\<not> in_reservation l x \<Longrightarrow> fake_cells st' x = fake_cells st x"
    and "in_reservation l x \<Longrightarrow>
      \<forall>i\<in>set (loads img). \<not> (seg_lo (fv_page fv) (phdrs img ! i) + unat (bias (ld_plan l)) \<le> x
        \<and> x < seg_hi (fv_page fv) (phdrs img ! i) + unat (bias (ld_plan l))) \<Longrightarrow>
      fake_cells st' x = Some (PROT_NONE, 0)"
proof -
  note run = mapped_load [OF assms(1,2) assms(4) [unfolded load_image_mapped [OF assms(3)]] assms(5)]
  let ?c = "overlay (fake_cells st) (unat (reserve_addr (ld_plan l)))
      (unat (reserve_addr (ld_plan l)) + unat (reserve_len (ld_plan l))) (\<lambda>x. Some (PROT_NONE, 0))"
  show "fake_inv st'" by (rule run(1))
  show "fake_cells st x = None" if "in_reservation l x" using run(5) that by blast
  show "fake_cells st' x \<noteq> None" if "in_reservation l x"
    unfolding run(6) using that by (intro reservation_mapped [OF assms(1)]) simp
  have out: "fake_cells st' x = ?c x"
    if "\<forall>i\<in>set (loads img). \<not> (seg_lo (fv_page fv) (phdrs img ! i) + unat (bias (ld_plan l)) \<le> x
        \<and> x < seg_hi (fv_page fv) (phdrs img ! i) + unat (bias (ld_plan l)))"
    unfolding run(6) using that by (intro image_cells_out) (auto simp: not_le not_less)
  show "fake_cells st' x = fake_cells st x" if outside: "\<not> in_reservation l x"
  proof -
    have "fake_cells st' x = ?c x"
      using outside run(3,4) seg_in_span [OF assms(1) run(2)] by (intro out) fastforce
    also have "\<dots> = fake_cells st x" using outside by (auto simp: overlay_def)
    finally show ?thesis .
  qed
  show "fake_cells st' x = Some (PROT_NONE, 0)" if "in_reservation l x"
      "\<forall>i\<in>set (loads img). \<not> (seg_lo (fv_page fv) (phdrs img ! i) + unat (bias (ld_plan l)) \<le> x
        \<and> x < seg_hi (fv_page fv) (phdrs img ! i) + unat (bias (ld_plan l)))"
    using out [OF that(2)] that(1) by simp
qed

lemma sample_reservation: "in_reservation sample_loaded x \<longleftrightarrow> 4160 \<le> x \<and> x < 4736"
    "0 < unat (reserve_len (ld_plan sample_loaded))"
  by (simp_all add: sample_loaded_def sample_plan_def)

lemma sample_unload:
  "unload (fake_vm sample_fv sample_files) sample_loaded sample_loaded_state
     = (Ok (), sample_loaded_state\<lparr> st_regions := [],
          st_log := st_log sample_loaded_state @ [OpUnmap 4160 576] \<rparr>)"
  by (simp add: unload_def sdiscard_def sample_loaded_def sample_plan_def fake_eval sample_loaded_state_def
      sample_regions_def word_eval Let_def)

section \<open>Properties\<close>

text \<open>
  C1. A loaded image shows what its file says: after a successful load through file mappings, byte
  \<open>k\<close> of every loadable segment is at \<open>p_vaddr\<close> plus the bias plus \<open>k\<close> and equals the file's byte at
  \<open>p_offset + k\<close> below \<open>p_filesz\<close> and zero from there up to the end of the segment's last page, so
  that neither later file bytes nor stale memory become visible; and every byte of the segment's
  pages has exactly the protection its flags ask for, also where the loader had to write.
\<close>

theorem mapped_image_shows_the_file:
  assumes "wf_image (fv_page fv) img" and "fake_inv st" and "fv_can_map_files fv"
    and "load_image (fake_vm fv fls) heap img src (Some fd) st = (Ok l, st')"
    and "0 < unat (reserve_len (ld_plan l))" and "i \<in> set (loads img)"
  shows "(\<forall>k. unat (p_vaddr (phdrs img ! i)) + k < seg_hi (fv_page fv) (phdrs img ! i) \<longrightarrow>
      fake_cells st' (unat (p_vaddr (phdrs img ! i)) + unat (bias (ld_plan l)) + k) =
        Some (prot_of (phdrs img ! i),
          if k < unat (p_filesz (phdrs img ! i)) then file_byte fls fd (unat (p_offset (phdrs img ! i)) + k) else 0))
    \<and> (\<forall>x. seg_lo (fv_page fv) (phdrs img ! i) + unat (bias (ld_plan l)) \<le> x
          \<and> x < seg_hi (fv_page fv) (phdrs img ! i) + unat (bias (ld_plan l)) \<longrightarrow>
        map_option fst (fake_cells st' x) = Some (prot_of (phdrs img ! i)))"
proof -
  note at = mapped_segment_cell [OF assms(1,2) assms(4) [unfolded load_image_mapped [OF assms(3)]] assms(5,6)]
  show ?thesis
    using at seg_lo_le_vaddr [of "fv_page fv" "phdrs img ! i"]
    by (auto simp: seg_byte_at trans_le_add1)
qed

theorem mapped_image_shows_the_file_witness:
  "fake_cells sample_loaded_state 4595 = Some (3, 4) \<and> fake_cells sample_loaded_state 4600 = Some (3, 0)
   \<and> map_option fst (fake_cells sample_loaded_state 4544) = Some 3"
proof -
  have i: "1 \<in> set (loads sample_image)" "phdrs sample_image ! 1 = sample_phdr PT_LOAD 6 240 368 8 96 64"
    by (simp_all add: sample_image_def sample_phdrs_def)
  have "unat (p_vaddr (phdrs sample_image ! 1)) = 368" "seg_hi 64 (phdrs sample_image ! 1) = 512"
    "seg_lo 64 (phdrs sample_image ! 1) = 320" "unat (p_filesz (phdrs sample_image ! 1)) = 8"
    "unat (p_offset (phdrs sample_image ! 1)) = 240" "prot_of (phdrs sample_image ! 1) = 3"
    "unat (bias (ld_plan sample_loaded)) = 4224" "0 < unat (reserve_len (ld_plan sample_loaded))"
    unfolding i(2)
    by (simp_all add: sample_phdr_def seg_hi_def seg_lo_def ceil_to_def floor_to_def sample_plan_def
        sample_loaded_def layout_eval)
  moreover have "file_byte sample_files 3 243 = 4"
    by (simp add: file_byte_def sample_files_def install_def sample_elf_def nth_append)
  ultimately show ?thesis
    using mapped_image_shows_the_file [of sample_fv sample_image sample_state sample_files any_heap undefined 3
        sample_loaded sample_loaded_state 1, unfolded sample_inv(2)] sample_wf sample_inv sample_load i(1)
    by (auto dest: spec [of _ 3] spec [of _ 8] spec [of _ "4544 :: nat"])
qed



text \<open>
  C32. Unloading undoes loading: releasing an image that was loaded through file mappings returns
  every byte of the address space to what it was before the load.
\<close>

theorem unload_undoes_load:
  assumes "wf_image (fv_page fv) img" and "fake_inv st" and "fv_can_map_files fv"
    and "load_image (fake_vm fv fls) heap img src (Some fd) st = (Ok l, st1)"
    and "0 < unat (reserve_len (ld_plan l))"
    and "unload (fake_vm fv fls) l st1 = (Ok (), st2)"
  shows "fake_cells st2 = fake_cells st"
proof -
  note res = mapped_reservation [OF assms(1-5)]
  have "allocated l = False"
    using fake.load_mapped_reserves [OF assms(1) fake_vm_ops(1) assms(2)
        assms(4) [unfolded load_image_mapped [OF assms(3)]] assms(5)] by metis
  then have "fake_unmap (reserve_addr (ld_plan l)) (reserve_len (ld_plan l)) st1 = (Ok (), st2)"
    using assms(6) by (simp add: unload_def sdiscard_outcome fake_no_err)
  with fake.unmap_ok [OF res(1) assms(5)] have "fake_cells st2 = overlay (fake_cells st1)
      (unat (reserve_addr (ld_plan l))) (unat (reserve_addr (ld_plan l)) + unat (reserve_len (ld_plan l))) (\<lambda>_. None)"
    by simp
  also have "\<dots> = fake_cells st"
    using res(2,4) by (auto simp: overlay_def fun_eq_iff)
  finally show ?thesis .
qed

theorem unload_undoes_load_witness:
  "fake_cells (sample_loaded_state\<lparr> st_regions := [], st_log := st_log sample_loaded_state @ [OpUnmap 4160 576] \<rparr>)
     = fake_cells sample_state"
proof -
  from unload_undoes_load [OF _ sample_inv(1,3) sample_load sample_reservation(2) sample_unload]
  show ?thesis using sample_wf sample_inv(2) by simp
qed

text \<open>
  Two images never overlap: of two images loaded one after the other through file mappings,
  the reservations are disjoint, holes and alignment slack included.
\<close>

theorem two_images_are_disjoint:
  assumes "fake_inv st" and "fv_can_map_files fv"
    and "wf_image (fv_page fv) img" and "load_image (fake_vm fv fls) heap img src (Some fd) st = (Ok l, st1)"
    and "0 < unat (reserve_len (ld_plan l))"
    and "wf_image (fv_page fv) img'" and "load_image (fake_vm fv fls) heap img' src' (Some fd') st1 = (Ok l', st2)"
    and "0 < unat (reserve_len (ld_plan l'))"
  shows "\<not> (in_reservation l x \<and> in_reservation l' x)"
  using mapped_reservation(3) [OF assms(3,1,2,4,5)]
    mapped_reservation(2) [OF assms(6) mapped_reservation(1) [OF assms(3,1,2,4,5)] assms(2,7,8)]
  by blast

theorem two_images_are_disjoint_witness:
  "\<not> (in_reservation sample_loaded 4730 \<and> in_reservation ld_loaded 4730)"
proof -
  obtain st2 where "load_image (fake_vm sample_fv sample_files) any_heap ld_image (slice_source ld_elf) (Some 4)
      sample_loaded_state = (Ok ld_loaded, st2)" by (rule ld_load)
  from two_images_are_disjoint [OF sample_inv(1,3) _ sample_load sample_reservation(2) _ this]
  show ?thesis using sample_wf ld_wf sample_inv(2) by (simp add: ld_loaded_def linker_plan_def)
qed

text \<open>
  Nothing else can be placed inside a loaded image: the address at which the first-fit
  allocator would put the next mapping of any size keeps clear of the whole reservation.
\<close>

theorem later_mapping_stays_outside:
  assumes "wf_image (fv_page fv) img" and "fake_inv st" and "fv_can_map_files fv"
    and "load_image (fake_vm fv fls) heap img src (Some fd) st = (Ok l, st')"
    and "0 < unat (reserve_len (ld_plan l))"
    and "would_place st' len = Ok a" and "unat a \<le> x" and "x < unat a + unat len"
  shows "\<not> in_reservation l x"
proof
  assume "in_reservation l x"
  then have "fake_cells st' x \<noteq> None" by (rule mapped_reservation(3) [OF assms(1-5)])
  moreover have "choose_place st' Anywhere len = Ok (a, st_regions st')"
    using assms(6) by (simp add: choose_place_def would_place_def)
  from choose_free(2) [OF mapped_reservation(1) [OF assms(1-5), unfolded fake_inv_def] _ this assms(7,8)]
  have "fake_cells st' x = None" by (simp add: fake_cells_def)
  ultimately show False by simp
qed

theorem later_mapping_stays_outside_witness: "\<not> in_reservation sample_loaded 4740"
proof -
  have "would_place sample_loaded_state 64 = Ok 4736"
    by (simp add: would_place_def first_fit_def sample_loaded_state_def sample_regions_def word_eval)
  from later_mapping_stays_outside [OF _ sample_inv(1,3) sample_load sample_reservation(2) this, of 4740]
  show ?thesis using sample_wf sample_inv(2) by simp
qed

end
