(* ===== verification/Fake_Stack.thy ===== *)
theory Fake_Stack
  imports Auxv
begin

text \<open>
  The stack of the test suite, \<open>FakeStack\<close> of \<open>rust/src/testutil.rs\<close>, and the reader the tests of
  \<open>rust/src/auxv.rs\<close> use on it, which walks a laid-out stack the way the start-up code of a libc
  does. A read out of range and a write outside the stack panic. \<open>FakeStack::new\<close> has already
  panicked when \<open>base + len\<close> overflows, and no operation changes either, so \<open>top\<close> is their sum.
\<close>

record FakeStack =
  fs_base :: u64
  fs_mem :: bytes
  fs_low :: u64

definition FakeStack_new :: "u64 \<Rightarrow> nat \<Rightarrow> (FakeStack, error) result" where
  "FakeStack_new bs len =
    rbind (padd bs (of_nat len)) (\<lambda>top.
    Ok \<lparr> fs_base = bs, fs_mem = replicate len 0xAA, fs_low = top \<rparr>)"

definition fs_read :: "FakeStack \<Rightarrow> u64 \<Rightarrow> nat \<Rightarrow> (bytes, error) result" where
  "fs_read fs addr n = rbind (psub addr (fs_base fs)) (\<lambda>o_at. slice (fs_mem fs) (unat o_at) n)"

definition u64_at :: "FakeStack \<Rightarrow> u64 \<Rightarrow> (u64, error) result" where
  "u64_at fs addr = rbind (fs_read fs addr 8) (\<lambda>b. Ok (from_le_bytes b))"

definition cstr_at :: "FakeStack \<Rightarrow> u64 \<Rightarrow> (bytes, error) result" where
  "cstr_at fs addr =
    rbind (psub addr (fs_base fs)) (\<lambda>o_at.
    if length (fs_mem fs) < unat o_at then Panic
    else let rest = drop (unat o_at) (fs_mem fs) in
      case position (\<lambda>b. b = 0) rest of
        None \<Rightarrow> Panic
      | Some n \<Rightarrow> Ok (take n rest))"

definition fs_top :: "FakeStack \<Rightarrow> u64" where
  "fs_top fs = fs_base fs + of_nat (length (fs_mem fs))"

definition fs_write :: "u64 \<Rightarrow> bytes \<Rightarrow> (FakeStack, unit, error) action" where
  "fs_write addr data = (\<lambda>fs.
    if addr < fs_base fs then (Panic, fs)
    else case padd addr (of_nat (length data)) of
      Ok e \<Rightarrow>
        if fs_top fs < e then (Panic, fs)
        else let fs = fs\<lparr> fs_low := min (fs_low fs) addr \<rparr>;
                 o_at = unat (addr - fs_base fs)
             in if length (fs_mem fs) < o_at + length data then (Panic, fs)
                else (Ok (), fs\<lparr> fs_mem := take o_at (fs_mem fs) @ data @ drop (o_at + length data) (fs_mem fs) \<rparr>)
    | Err er \<Rightarrow> (Err er, fs)
    | Panic \<Rightarrow> (Panic, fs))"

definition fake_stack :: "FakeStack StackWriter" where
  "fake_stack = \<lparr> sw_top = fs_top, sw_bottom = fs_base, sw_write = fs_write \<rparr>"

section \<open>Reading a stack back\<close>

lemma u64_at_range:
  assumes "u64_at fs addr = Ok v"
  shows "unat (fs_base fs) \<le> unat addr" and "unat addr + 8 \<le> unat (fs_base fs) + length (fs_mem fs)"
  using assms by (auto simp: u64_at_def fs_read_def outcome_simps psub_outcome)

text \<open>The three loops of the tests' \<open>parse\<close>: over \<open>argc\<close> pointers, up to the null pointer, up to \<open>AT_NULL\<close>.\<close>

primrec parse_argv :: "FakeStack \<Rightarrow> nat \<Rightarrow> u64 \<Rightarrow> (bytes list \<times> u64, error) result" where
  "parse_argv fs 0 at = Ok ([], at)"
| "parse_argv fs (Suc n) at =
     rbind (u64_at fs at) (\<lambda>a.
     rbind (cstr_at fs a) (\<lambda>s.
     rbind (padd at 8) (\<lambda>at'.
     rbind (parse_argv fs n at') (\<lambda>(ss, fin).
     Ok (s # ss, fin)))))"

function parse_envp :: "FakeStack \<Rightarrow> u64 \<Rightarrow> (bytes list \<times> u64, error) result" where
  "parse_envp fs at =
     rbind (u64_at fs at) (\<lambda>a.
     if a = 0 then Ok ([], at)
     else rbind (cstr_at fs a) (\<lambda>s.
          rbind (padd at 8) (\<lambda>at'.
          rbind (parse_envp fs at') (\<lambda>(ss, fin).
          Ok (s # ss, fin)))))"
  by pat_completeness auto
termination
  by (relation "measure (\<lambda>(fs, at). unat (fs_base fs) + length (fs_mem fs) - unat at)")
    (auto simp: padd_outcome dest!: u64_at_range)

function parse_auxv :: "FakeStack \<Rightarrow> u64 \<Rightarrow> ((u64 \<times> u64) list, error) result" where
  "parse_auxv fs at =
     rbind (u64_at fs at) (\<lambda>k.
     rbind (padd at 8) (\<lambda>val_at.
     rbind (u64_at fs val_at) (\<lambda>v.
     rbind (padd at 16) (\<lambda>at'.
     if k = AT_NULL then Ok []
     else rbind (parse_auxv fs at') (\<lambda>kvs. Ok ((k, v) # kvs))))))"
  by pat_completeness auto
termination
  by (relation "measure (\<lambda>(fs, at). unat (fs_base fs) + length (fs_mem fs) - unat at)")
    (auto simp: padd_outcome dest!: u64_at_range)

declare parse_envp.simps [simp del] parse_auxv.simps [simp del]

record Parsed =
  pr_argv :: "bytes list"
  pr_envp :: "bytes list"
  pr_auxv :: "(u64 \<times> u64) list"

definition parse_stack :: "FakeStack \<Rightarrow> u64 \<Rightarrow> (Parsed, error) result" where
  "parse_stack fs sp =
    rbind (u64_at fs sp) (\<lambda>argc.
    rbind (padd sp 8) (\<lambda>at.
    rbind (parse_argv fs (unat argc) at) (\<lambda>(argv, at).
    rbind (u64_at fs at) (\<lambda>z.
    if z \<noteq> 0 then Panic else
    rbind (padd at 8) (\<lambda>at.
    rbind (parse_envp fs at) (\<lambda>(envp, at).
    rbind (padd at 8) (\<lambda>at.
    rbind (parse_auxv fs at) (\<lambda>auxv.
    Ok \<lparr> pr_argv = argv, pr_envp = envp, pr_auxv = auxv \<rparr>))))))))"

text \<open>\<open>get\<close> of the tests: the first entry with a key.\<close>

definition parsed_get :: "Parsed \<Rightarrow> u64 \<Rightarrow> u64 option" where
  "parsed_get p key = map_option snd (List.find (\<lambda>kv. fst kv = key) (pr_auxv p))"

text \<open>\<open>auxv_value\<close>: skip the pointers, then search the vector.\<close>

function skip_pointers :: "FakeStack \<Rightarrow> u64 \<Rightarrow> (u64, error) result" where
  "skip_pointers fs at =
     rbind (u64_at fs at) (\<lambda>a.
     if a = 0 then Ok at else rbind (padd at 8) (skip_pointers fs))"
  by pat_completeness auto
termination
  by (relation "measure (\<lambda>(fs, at). unat (fs_base fs) + length (fs_mem fs) - unat at)")
    (auto simp: padd_outcome dest!: u64_at_range)

function find_entry :: "FakeStack \<Rightarrow> u64 \<Rightarrow> u64 \<Rightarrow> (u64 option, error) result" where
  "find_entry fs key at =
     rbind (u64_at fs at) (\<lambda>k.
     rbind (padd at 8) (\<lambda>val_at.
     rbind (u64_at fs val_at) (\<lambda>v.
     rbind (padd at 16) (\<lambda>at'.
     if k = AT_NULL then Ok None
     else if k = key then Ok (Some v)
     else find_entry fs key at'))))"
  by pat_completeness auto
termination
  by (relation "measure (\<lambda>(fs, key, at). unat (fs_base fs) + length (fs_mem fs) - unat at)")
    (auto simp: padd_outcome dest!: u64_at_range)

declare skip_pointers.simps [simp del] find_entry.simps [simp del]

definition auxv_value :: "FakeStack \<Rightarrow> u64 \<Rightarrow> u64 \<Rightarrow> (u64 option, error) result" where
  "auxv_value fs sp key =
    rbind (u64_at fs sp) (\<lambda>argc.
    rbind (padd sp 8) (\<lambda>p.
    rbind (padd argc 1) (\<lambda>n.
    rbind (pmul n 8) (\<lambda>d.
    rbind (padd p d) (\<lambda>at.
    rbind (skip_pointers fs at) (\<lambda>at.
    rbind (padd at 8) (\<lambda>at.
    find_entry fs key at)))))))"

end
