(* ===== verification/Stack_Facts.thy ===== *)
theory Stack_Facts
  imports Fake_Stack
begin

text \<open>
  What the layout of the initial stack guarantees. The locale \<open>stack_writer\<close> states what \<open>build_stack\<close>
  relies on in a writer (a write inside the stack succeeds and stores exactly its bytes), and the
  lemmas in it follow the layout from the size policy to the pointer block. They give, for every
  writer that keeps the contract: no panic, nothing outside the stack written, only the documented
  errors, success whenever there is room, and a block that the start-up code can read back.
\<close>

section \<open>Memory\<close>

definition store :: "(nat \<Rightarrow> u8) \<Rightarrow> nat \<Rightarrow> bytes \<Rightarrow> nat \<Rightarrow> u8" where
  "store m a d = (\<lambda>x. if a \<le> x \<and> x < a + length d then d ! (x - a) else m x)"

definition holds_at :: "(nat \<Rightarrow> u8) \<Rightarrow> nat \<Rightarrow> bytes \<Rightarrow> bool" where
  "holds_at m a d \<longleftrightarrow> (\<forall>k<length d. m (a + k) = d ! k)"

definition placed :: "(nat \<Rightarrow> u8) \<Rightarrow> nat \<Rightarrow> nat \<Rightarrow> u64 \<Rightarrow> bytes \<Rightarrow> bool" where
  "placed m lo hi a d \<longleftrightarrow> lo \<le> unat a \<and> unat a + length d \<le> hi \<and> holds_at m (unat a) d"

lemma holds_at_store: "holds_at (store m a d) a d"
  by (simp add: holds_at_def store_def)

lemma holds_at_append: "holds_at m a (d @ e) \<longleftrightarrow> holds_at m a d \<and> holds_at m (a + length d) e"
proof -
  have "(\<forall>k<length d + length e. m (a + k) = (d @ e) ! k) \<longleftrightarrow>
      (\<forall>k<length d. m (a + k) = d ! k) \<and> (\<forall>k<length e. m (a + length d + k) = e ! k)"
    by (auto simp: nth_append add.assoc) (metis add.assoc add_diff_inverse_nat nat_add_left_cancel_less)
  then show ?thesis by (simp add: holds_at_def)
qed

lemma placed_frame:
  "placed m lo hi a d \<Longrightarrow> (\<And>x. lo \<le> x \<Longrightarrow> x < hi \<Longrightarrow> m' x = m x) \<Longrightarrow> lo' \<le> lo \<Longrightarrow> hi \<le> hi' \<Longrightarrow>
     placed m' lo' hi' a d"
  by (auto simp: placed_def holds_at_def)

lemma unat_minus_of_nat: "n \<le> unat a \<Longrightarrow> unat (a - of_nat n :: u64) = unat a - n"
  by (metis le_unat_uoi unat_sub_ok)

lemma unat_plus_of_nat: "unat a + n < 2 ^ 64 \<Longrightarrow> unat (a + of_nat n :: u64) = unat a + n"
  by (simp add: unat_word_ariths unat_of_nat)

lemma stack_align_16: "stack_align_down v SP_ALIGN = Ok (v AND - 16)"
  by (simp add: stack_align_down_def SP_ALIGN_def psub_def checked_sub_def)

lemma unat_align_16: "unat (v AND - 16 :: u64) = unat v div 16 * 16"
proof -
  have "is_power_of_two 16" unfolding is_power_of_two_iff by (rule exI [of _ 4]) simp
  from unat_and_high [OF this, of v] show ?thesis by (simp add: floor_to_def)
qed

section \<open>The size policy\<close>

primrec strings_len :: "bytes list \<Rightarrow> nat" where
  "strings_len [] = 0"
| "strings_len (s # ss) = length s + 1 + strings_len ss"

lemma strings_len_append [simp]: "strings_len (ss @ ts) = strings_len ss + strings_len ts"
  by (induction ss) simp_all

lemma strings_len_rev [simp]: "strings_len (rev ss) = strings_len ss"
  by (induction ss) simp_all

lemma arg_env_size_spec:
  "arg_env_size ss len =
     (if len + strings_len ss + 8 * length ss < 2 ^ 64 \<or> ss = []
      then Ok (len + strings_len ss + 8 * length ss) else Err E2BIG)"
  by (induction ss arbitrary: len) auto

definition over_budget :: "bytes list \<Rightarrow> bytes list \<Rightarrow> nat \<Rightarrow> bool" where
  "over_budget argv envp stack_size \<longleftrightarrow>
     max ARG_MAX_LEN (stack_size div 4) < strings_len (argv @ envp) + 8 * length (argv @ envp)"

lemma check_arg_env_size_iff:
  "check_arg_env_size argv envp stack_size =
     (if over_budget argv envp (unat stack_size) then Err E2BIG
      else Ok (strings_len (argv @ envp) + 8 * length (argv @ envp)))"
proof -
  have "max ARG_MAX_LEN (unat stack_size div 4) < 2 ^ 64"
    using le_less_trans [OF div_le_dividend unat_lt_64, of stack_size 4] by (simp add: ARG_MAX_LEN_def)
  then show ?thesis
    by (auto simp: check_arg_env_size_def arg_env_size_spec Let_def over_budget_def)
qed

section \<open>What a laid-out stack is\<close>

definition stack_words :: "u64 \<Rightarrow> u64 list \<Rightarrow> u64 list \<Rightarrow> (u64 \<times> u64) list \<Rightarrow> u64 list" where
  "stack_words argc argv_at envp_at av =
     argc # argv_at @ 0 # envp_at @ 0 # concat (map (\<lambda>(k, v). [k, v]) av)"

abbreviation words_bytes :: "u64 list \<Rightarrow> bytes" where
  "words_bytes vs \<equiv> concat (map to_le_bytes vs)"

abbreviation cstrs_placed :: "(nat \<Rightarrow> u8) \<Rightarrow> nat \<Rightarrow> nat \<Rightarrow> u64 list \<Rightarrow> bytes list \<Rightarrow> bool" where
  "cstrs_placed m lo hi as ss \<equiv> list_all2 (\<lambda>a s. placed m lo hi a (s @ [0])) as ss"

definition blobs_placed ::
  "(nat \<Rightarrow> u8) \<Rightarrow> nat \<Rightarrow> nat \<Rightarrow> AuxvSpec \<Rightarrow> u64 option \<Rightarrow> u64 \<Rightarrow> u64 \<Rightarrow> bool" where
  "blobs_placed m lo hi aux platform_at execfn_at random_at \<longleftrightarrow>
     (case platform_at of
        None \<Rightarrow> ax_platform aux = []
      | Some a \<Rightarrow> ax_platform aux \<noteq> [] \<and> placed m lo hi a (ax_platform aux @ [0]))
     \<and> placed m lo hi execfn_at (ax_execfn aux @ [0]) \<and> placed m lo hi random_at (ax_random aux)"

text \<open>
  The start-up block: the words the source's picture shows, from \<open>argc\<close> up, with every pointer
  leading to its NUL-terminated string, to the platform and file names and to the random bytes,
  all of them above the words and below \<open>hi\<close>.
\<close>

definition startup_at :: "(nat \<Rightarrow> u8) \<Rightarrow> nat \<Rightarrow> nat \<Rightarrow> bytes list \<Rightarrow> bytes list \<Rightarrow> AuxvSpec \<Rightarrow> bool" where
  "startup_at m sp hi argv envp aux \<longleftrightarrow>
     (\<exists>argv_at envp_at platform_at execfn_at random_at words.
        words = stack_words (of_nat (length argv)) argv_at envp_at
          (auxv_entries aux random_at platform_at (Some execfn_at))
        \<and> holds_at m sp (words_bytes words)
        \<and> cstrs_placed m (sp + 8 * length words) hi argv_at argv
        \<and> cstrs_placed m (sp + 8 * length words) hi envp_at envp
        \<and> blobs_placed m (sp + 8 * length words) hi aux platform_at execfn_at random_at)"

definition stack_need :: "bytes list \<Rightarrow> bytes list \<Rightarrow> AuxvSpec \<Rightarrow> nat" where
  "stack_need argv envp aux =
     length (ax_platform aux) + length (ax_execfn aux) + length (ax_random aux) + 17
     + (strings_len argv + strings_len envp) + ((3 + length argv + length envp) * 8 + 21 * 16) + 16"

lemma length_words_bytes [simp]: "length (words_bytes vs) = 8 * length vs"
  by (induction vs) simp_all

lemma length_concat_pairs: "length (concat (map (\<lambda>(k, v). [k, v]) av)) = 2 * length av"
  by (induction av) (simp_all add: case_prod_beta)

lemma length_stack_words:
  "8 * length (stack_words argc argv_at envp_at av) =
     (1 + length argv_at + 1 + length envp_at + 1) * 8 + length av * 16"
  by (simp add: stack_words_def length_concat_pairs)

lemma length_auxv_entries: "length (auxv_entries aux r p e) \<le> 21"
  by (simp add: auxv_entries_def split: option.split)

lemma store_Nil [simp]: "store m a [] = m"
  by (auto simp: store_def fun_eq_iff)

lemma store_store: "store (store m a d) (a + length d) e = store m a (d @ e)"
  by (auto simp: store_def fun_eq_iff nth_append)

lemma sfor_pairs:
  "sfor (\<lambda>(k, v). sbind (f k) (\<lambda>_. f v)) av = sfor f (concat (map (\<lambda>(k, v). [k, v]) av))"
  by (induction av) (simp_all add: sbind_assoc case_prod_beta)

lemma put_block_words: "put_block W argc argv_at envp_at av = sfor (put_word W) (stack_words argc argv_at envp_at av)"
  by (simp add: put_block_def stack_words_def sfor_append sfor_pairs sbind_assoc)

section \<open>The contract of a stack writer\<close>

text \<open>
  \<open>inside\<close>: the stack is still the same one and nothing outside it has changed. \<open>pushed\<close>: moreover
  only the bytes between the two stack pointers may have changed.
\<close>

definition inside :: "'s StackWriter \<Rightarrow> ('s \<Rightarrow> bool) \<Rightarrow> ('s \<Rightarrow> nat \<Rightarrow> u8) \<Rightarrow> 's \<Rightarrow> 's \<Rightarrow> bool" where
  "inside W ok smem s s' \<longleftrightarrow>
     ok s' \<and> sw_top W s' = sw_top W s \<and> sw_bottom W s' = sw_bottom W s
     \<and> (\<forall>x. x < unat (sw_bottom W s) \<or> unat (sw_top W s) \<le> x \<longrightarrow> smem s' x = smem s x)"

definition pushed :: "'s StackWriter \<Rightarrow> ('s \<Rightarrow> bool) \<Rightarrow> ('s \<Rightarrow> nat \<Rightarrow> u8) \<Rightarrow> 's Pusher \<Rightarrow> 's Pusher \<Rightarrow> bool" where
  "pushed W ok smem p p' \<longleftrightarrow>
     inside W ok smem (p_w p) (p_w p') \<and> unat (p_sp p') \<le> unat (p_sp p)
     \<and> (\<forall>x. x < unat (p_sp p') \<or> unat (p_sp p) \<le> x \<longrightarrow> smem (p_w p') x = smem (p_w p) x)"

definition ready :: "'s StackWriter \<Rightarrow> ('s \<Rightarrow> bool) \<Rightarrow> 's Pusher \<Rightarrow> bool" where
  "ready W ok p \<longleftrightarrow> ok (p_w p) \<and> unat (p_sp p) \<le> unat (sw_top W (p_w p))"

lemma inside_trans: "inside W ok smem s s' \<Longrightarrow> inside W ok smem s' s'' \<Longrightarrow> inside W ok smem s s''"
  by (simp add: inside_def)

lemma pushed_trans: "pushed W ok smem p p' \<Longrightarrow> pushed W ok smem p' p'' \<Longrightarrow> pushed W ok smem p p''"
  by (auto simp: pushed_def intro: inside_trans)

lemma pushed_inside: "pushed W ok smem p p' \<Longrightarrow> inside W ok smem (p_w p) (p_w p')"
  by (simp add: pushed_def)

lemma pushed_ready: "pushed W ok smem p p' \<Longrightarrow> ready W ok p \<Longrightarrow> ready W ok p'"
  by (auto simp: pushed_def ready_def inside_def)

lemma pushed_bottom: "pushed W ok smem p p' \<Longrightarrow> sw_bottom W (p_w p') = sw_bottom W (p_w p)"
  by (simp add: pushed_def inside_def)

lemma pushed_top: "pushed W ok smem p p' \<Longrightarrow> sw_top W (p_w p') = sw_top W (p_w p)"
  by (simp add: pushed_def inside_def)

lemma pushed_sp: "ready W ok p \<Longrightarrow> a \<le> p_sp p \<Longrightarrow> pushed W ok smem p (p\<lparr> p_sp := a \<rparr>)"
  by (simp add: pushed_def inside_def ready_def word_le_nat_alt)

text \<open>What has been placed above the stack pointer stays.\<close>

lemma placed_pushed:
  assumes "placed (smem (p_w p)) (unat (p_sp p)) hi a d" and "pushed W ok smem p p'"
  shows "placed (smem (p_w p')) (unat (p_sp p')) hi a d"
  using assms by (intro placed_frame [OF assms(1)]) (auto simp: pushed_def)

lemma placed_wider: "placed m lo hi a d \<Longrightarrow> hi \<le> hi' \<Longrightarrow> placed m lo hi' a d"
  by (simp add: placed_def)

lemma startup_at_wider: "startup_at m sp hi argv envp aux \<Longrightarrow> hi \<le> hi' \<Longrightarrow> startup_at m sp hi' argv envp aux"
  unfolding startup_at_def
  by (elim exE conjE, intro exI conjI, assumption)
    (auto elim!: list_all2_mono intro: placed_wider simp: blobs_placed_def split: option.splits)

locale stack_writer =
  fixes W :: "'s StackWriter" and ok :: "'s \<Rightarrow> bool" and smem :: "'s \<Rightarrow> nat \<Rightarrow> u8"
  assumes range: "ok s \<Longrightarrow> unat (sw_bottom W s) \<le> unat (sw_top W s)"
    and write_ok: "ok s \<Longrightarrow> unat (sw_bottom W s) \<le> unat a \<Longrightarrow> unat a + length d \<le> unat (sw_top W s) \<Longrightarrow>
      \<exists>s'. sw_write W a d s = (Ok (), s') \<and> ok s' \<and> sw_top W s' = sw_top W s
        \<and> sw_bottom W s' = sw_bottom W s \<and> smem s' = store (smem s) (unat a) d"
begin

lemma with_writer_yields:
  assumes "ok (p_w p)" and "unat (sw_bottom W (p_w p)) \<le> unat a"
    and "unat a + length d \<le> unat (sw_top W (p_w p))"
    and "\<And>w. ok w \<Longrightarrow> sw_top W w = sw_top W (p_w p) \<Longrightarrow> sw_bottom W w = sw_bottom W (p_w p) \<Longrightarrow>
      smem w = store (smem (p_w p)) (unat a) d \<Longrightarrow> Q () (p\<lparr> p_w := w \<rparr>)"
  shows "yields (with_writer (sw_write W a d)) p Q E"
  using write_ok [OF assms(1-3)] assms(4) by (auto simp: yields_def with_writer_def)

lemma push_bytes_yields:
  assumes "ready W ok p"
  shows "yields (push_bytes W d) p
    (\<lambda>a p'. pushed W ok smem p p' \<and> p_sp p' = a \<and> unat a + length d = unat (p_sp p)
       \<and> placed (smem (p_w p')) (unat (p_sp p')) (unat (p_sp p)) a d)
    (\<lambda>e p'. e = E2BIG \<and> inside W ok smem (p_w p) (p_w p')
       \<and> unat (p_sp p) < unat (sw_bottom W (p_w p)) + length d)"
proof (cases "unat (p_sp p) < length d")
  case True
  with assms show ?thesis by (simp add: yields_def push_bytes_def inside_def ready_def)
next
  case False
  define a where "a = p_sp p - of_nat (length d)"
  have a: "unat a + length d = unat (p_sp p)"
    using False by (simp add: a_def unat_minus_of_nat)
  have ok: "ok (p_w p)" and top: "unat a + length d \<le> unat (sw_top W (p_w p))"
    using assms a by (simp_all add: ready_def)
  have "yields (sbind (set_sp a) (\<lambda>_.
       sbind (slift (guard (a < sw_bottom W (p_w p)) E2BIG)) (\<lambda>_.
       sbind (with_writer (sw_write W a d)) (\<lambda>_.
       sret a)))) p
    (\<lambda>a p'. pushed W ok smem p p' \<and> p_sp p' = a \<and> unat a + length d = unat (p_sp p)
       \<and> placed (smem (p_w p')) (unat (p_sp p')) (unat (p_sp p)) a d)
    (\<lambda>e p'. e = E2BIG \<and> inside W ok smem (p_w p) (p_w p')
       \<and> unat (p_sp p) < unat (sw_bottom W (p_w p)) + length d)"
  proof (cases "a < sw_bottom W (p_w p)")
    case True
    with a ok show ?thesis
      by (simp add: wp) (simp add: yields_def set_sp_def sbind_def inside_def word_less_nat_alt)
  next
    case False
    then have bot: "unat (sw_bottom W (p_w p)) \<le> unat a" by (simp add: word_less_nat_alt)
    obtain w where w: "sw_write W a d (p_w p) = (Ok (), w)" "ok w" "sw_top W w = sw_top W (p_w p)"
        "sw_bottom W w = sw_bottom W (p_w p)" "smem w = store (smem (p_w p)) (unat a) d"
      using write_ok [OF ok bot top] by blast
    have "placed (smem w) (unat a) (unat (p_sp p)) a d"
      using w(5) a by (simp add: placed_def holds_at_store)
    moreover have "pushed W ok smem p (p\<lparr> p_sp := a, p_w := w \<rparr>)"
      using w a top bot by (auto simp: pushed_def inside_def store_def)
    ultimately show ?thesis
      using False a by (simp add: yields_def sbind_def set_sp_def with_writer_def w(1))
  qed
  then show ?thesis using False by (simp add: yields_def push_bytes_def Let_def a_def)
qed

lemma push_cstr_yields:
  assumes "ready W ok p"
  shows "yields (push_cstr W s) p
    (\<lambda>a p'. pushed W ok smem p p' \<and> unat (p_sp p') + (length s + 1) = unat (p_sp p)
       \<and> placed (smem (p_w p')) (unat (p_sp p')) (unat (p_sp p)) a (s @ [0]))
    (\<lambda>e p'. e = E2BIG \<and> inside W ok smem (p_w p) (p_w p')
       \<and> unat (p_sp p) < unat (sw_bottom W (p_w p)) + (length s + 1))"
  unfolding push_cstr_def yields_bind
proof (rule yields_weaken [OF push_bytes_yields [OF assms]], goal_cases)
  case (1 z p1)
  then have step: "pushed W ok smem p p1" "unat (p_sp p1) + 1 = unat (p_sp p)"
    and nul: "placed (smem (p_w p1)) (unat (p_sp p1)) (unat (p_sp p)) (p_sp p1) [0]"
    by auto
  show ?case
  proof (cases "s = []")
    case True
    with step nul show ?thesis by (simp add: yields_def)
  next
    case False
    have "yields (push_bytes W s) p1
      (\<lambda>a p'. pushed W ok smem p p' \<and> unat (p_sp p') + (length s + 1) = unat (p_sp p)
         \<and> placed (smem (p_w p')) (unat (p_sp p')) (unat (p_sp p)) a (s @ [0]))
      (\<lambda>e p'. e = E2BIG \<and> inside W ok smem (p_w p) (p_w p')
         \<and> unat (p_sp p) < unat (sw_bottom W (p_w p)) + (length s + 1))"
    proof (rule yields_weaken [OF push_bytes_yields [OF pushed_ready [OF step(1) assms]]], goal_cases)
      case (1 a p2)
      moreover from 1 have "placed (smem (p_w p2)) (unat (p_sp p2)) (unat (p_sp p)) (p_sp p1) [0]"
        using placed_pushed [where smem = smem, OF nul] by blast
      ultimately show ?case
        using step pushed_trans [OF step(1)] by (auto simp: placed_def holds_at_append)
    next
      case (2 e p2)
      with step show ?case
        using inside_trans [OF pushed_inside [OF step(1)]] by (auto simp: pushed_bottom)
    qed
    with False show ?thesis by simp
  qed
next
  case (2 e p1)
  then show ?case by auto
qed

lemma push_cstrs_yields:
  assumes "ready W ok p"
  shows "yields (push_cstrs W ss) p
    (\<lambda>as p'. pushed W ok smem p p' \<and> unat (p_sp p') + strings_len ss = unat (p_sp p)
       \<and> list_all2 (\<lambda>a s. placed (smem (p_w p')) (unat (p_sp p')) (unat (p_sp p)) a (s @ [0])) as ss)
    (\<lambda>e p'. e = E2BIG \<and> inside W ok smem (p_w p) (p_w p')
       \<and> unat (p_sp p) < unat (sw_bottom W (p_w p)) + strings_len ss)"
  using assms
proof (induction ss arbitrary: p)
  case Nil
  then show ?case by (simp add: wp ready_def pushed_def inside_def)
next
  case (Cons s ss)
  show ?case
    unfolding push_cstrs.simps yields_bind
  proof (rule yields_weaken [OF push_cstr_yields [OF Cons.prems]], goal_cases)
    case (1 a p1)
    then have step: "pushed W ok smem p p1" "unat (p_sp p1) + (length s + 1) = unat (p_sp p)"
      and here: "placed (smem (p_w p1)) (unat (p_sp p1)) (unat (p_sp p)) a (s @ [0])"
      by simp_all
    show ?case
    proof (rule yields_weaken [OF Cons.IH [OF pushed_ready [OF step(1) Cons.prems]]], goal_cases)
      case (1 as p2)
      moreover from 1 step(2) have "list_all2
          (\<lambda>a s. placed (smem (p_w p2)) (unat (p_sp p2)) (unat (p_sp p)) a (s @ [0])) as ss"
        by (auto elim!: list_all2_mono intro: placed_wider)
      ultimately show ?case
        using step pushed_trans [OF step(1)] placed_pushed [where smem = smem, OF here] by (auto simp: wp)
    next
      case (2 e p2)
      with step show ?case
        using inside_trans [OF pushed_inside [OF step(1)]] by (auto simp: pushed_bottom)
    qed
  next
    case (2 e p1)
    then show ?case by auto
  qed
qed

lemma pusher_align_yields:
  assumes "ready W ok p"
  shows "yields (pusher_align SP_ALIGN) p
    (\<lambda>_ p'. pushed W ok smem p p' \<and> p_w p' = p_w p \<and> unat (p_sp p) < unat (p_sp p') + 16) E"
proof -
  have "unat (p_sp p) div 16 * 16 \<le> unat (p_sp p)" "unat (p_sp p) < unat (p_sp p) div 16 * 16 + 16" by linarith+
  then show ?thesis
    using pushed_sp [OF assms, of "p_sp p AND - 16"]
    by (simp add: yields_def pusher_align_def stack_align_16 set_sp_def unat_align_16 word_le_nat_alt)
qed

lemma put_words_yields:
  assumes "ok s" and "unat (sw_bottom W s) \<le> unat at" and "unat at + 8 * length vs \<le> unat (sw_top W s)"
  shows "yields (sfor (put_word W) vs) (s, at)
    (\<lambda>_ (s', _). ok s' \<and> sw_top W s' = sw_top W s \<and> sw_bottom W s' = sw_bottom W s
       \<and> smem s' = store (smem s) (unat at) (words_bytes vs)) E"
  using assms
proof (induction vs arbitrary: s at)
  case Nil
  then show ?case by (simp add: wp)
next
  case (Cons v vs)
  obtain s1 where s1: "sw_write W at (to_le_bytes v) s = (Ok (), s1)" "ok s1" "sw_top W s1 = sw_top W s"
      "sw_bottom W s1 = sw_bottom W s" "smem s1 = store (smem s) (unat at) (to_le_bytes v)"
    using write_ok [OF Cons.prems(1,2), of "to_le_bytes v"] Cons.prems(3) by auto
  have "unat at + 8 \<le> unat (sw_top W s)" using Cons.prems(3) by simp
  from le_unat_lt [OF this] have at: "padd at 8 = Ok (at + 8)" "unat (at + 8) = unat at + 8"
    by (simp_all add: padd_ok unat_add_ok)
  have "yields (sfor (put_word W) vs) (s1, at + 8)
    (\<lambda>_ (s', _). ok s' \<and> sw_top W s' = sw_top W s1 \<and> sw_bottom W s' = sw_bottom W s1
       \<and> smem s' = store (smem s1) (unat (at + 8)) (words_bytes vs)) E"
    using Cons.prems s1 at(2) by (intro Cons.IH) simp_all
  then have "yields (sfor (put_word W) vs) (s1, at + 8)
    (\<lambda>_ (s', _). ok s' \<and> sw_top W s' = sw_top W s \<and> sw_bottom W s' = sw_bottom W s
       \<and> smem s' = store (smem s) (unat at) (words_bytes (v # vs))) E"
    by (rule yields_weaken) (auto simp: s1 at(2) store_store [where d = "to_le_bytes v", simplified])
  moreover have "put_word W v (s, at) = (Ok (), (s1, at + 8))"
    by (simp add: put_word_def s1(1) at(1))
  ultimately show ?case by (simp add: yields_def sbind_def)
qed

text \<open>The space a layout needs at most, alignment included.\<close>

lemma write_block_yields:
  assumes "ready W ok p" and "length argv_at = length argv" and "length envp_at = length envp"
    and "8 * (length argv + length envp) < 2 ^ 63" and "length av \<le> 21"
    and words: "words = stack_words (of_nat (length argv)) argv_at envp_at av"
  shows "yields (write_block W argv envp argv_at envp_at av) p
    (\<lambda>l p'. inside W ok smem (p_w p) (p_w p') \<and> argc_at l = sl_sp l \<and> low_water l = sl_sp l
       \<and> 16 dvd unat (sl_sp l) \<and> unat (sw_bottom W (p_w p)) \<le> unat (sl_sp l)
       \<and> unat (sl_sp l) + 8 * length words \<le> unat (p_sp p)
       \<and> holds_at (smem (p_w p')) (unat (sl_sp l)) (words_bytes words)
       \<and> (\<forall>x. x < unat (sl_sp l) \<or> unat (sl_sp l) + 8 * length words \<le> x \<longrightarrow> smem (p_w p') x = smem (p_w p) x))
    (\<lambda>e p'. e = E2BIG \<and> inside W ok smem (p_w p) (p_w p')
       \<and> unat (p_sp p) < unat (sw_bottom W (p_w p)) + 8 * length words + 16)"
proof -
  define block where "block = 8 * length words"
  have block: "block_len (length argv) (length envp) (length av) = Ok block"
    using assms(2-5) by (simp add: block_len_def block_def words length_stack_words Let_def)
  have ok: "ok (p_w p)" "unat (p_sp p) \<le> unat (sw_top W (p_w p))" using assms(1) by (simp_all add: ready_def)
  then have here: "inside W ok smem (p_w p) (p_w p)" by (simp add: inside_def)
  define sp where "sp = (p_sp p - of_nat block) AND - 16"
  show ?thesis
  proof (cases "unat (p_sp p) < block \<or> sp < sw_bottom W (p_w p)")
    case True
    then have "write_block W argv envp argv_at envp_at av p = (Err E2BIG, p)"
      by (auto simp: write_block_def block sbind_def stack_align_16 guard_def sp_def [symmetric])
    moreover have "unat (p_sp p) < unat (sw_bottom W (p_w p)) + block + 16"
      using True by (cases "unat (p_sp p) < block")
        (simp_all add: sp_def word_less_nat_alt unat_align_16 unat_minus_of_nat)
    ultimately show ?thesis
      using here by (simp add: yields_def block_def [symmetric])
  next
    case False
    then have sp: "16 dvd unat sp" "unat sp + block \<le> unat (p_sp p)" "unat (sw_bottom W (p_w p)) \<le> unat sp"
      by (auto simp: sp_def word_less_nat_alt unat_align_16 unat_minus_of_nat not_less)
    have "yields (sfor (put_word W) words) (p_w p, sp)
      (\<lambda>_ (s', _). ok s' \<and> sw_top W s' = sw_top W (p_w p) \<and> sw_bottom W s' = sw_bottom W (p_w p)
         \<and> smem s' = store (smem (p_w p)) (unat sp) (words_bytes words)) (\<lambda>_ _. False)"
      using ok sp by (intro put_words_yields) (simp_all add: block_def)
    then obtain s' a where s': "sfor (put_word W) words (p_w p, sp) = (Ok (), (s', a))" "ok s'"
        "sw_top W s' = sw_top W (p_w p)" "sw_bottom W s' = sw_bottom W (p_w p)"
        "smem s' = store (smem (p_w p)) (unat sp) (words_bytes words)"
      by (rule yieldsE) auto
    then have "write_block W argv envp argv_at envp_at av p
        = (Ok \<lparr> sl_sp = sp, argc_at = sp, low_water = sp \<rparr>, p\<lparr> p_w := s' \<rparr>)"
      using False by (simp add: write_block_def block sbind_def stack_align_16 sp_def [symmetric]
          with_writer_def at_cursor_def put_block_words words [symmetric])
    then show ?thesis
      using s'(2-5) sp ok by (auto simp: yields_def inside_def holds_at_def store_def block_def)
  qed
qed

lemma push_platform_yields:
  assumes "ready W ok p"
  shows "yields (if ax_platform aux = [] then sret None
      else sbind (push_cstr W (ax_platform aux)) (\<lambda>a. sret (Some a))) p
    (\<lambda>pl p'. pushed W ok smem p p' \<and> unat (p_sp p) \<le> unat (p_sp p') + (length (ax_platform aux) + 1)
       \<and> (case pl of
            None \<Rightarrow> ax_platform aux = []
          | Some a \<Rightarrow> ax_platform aux \<noteq> []
              \<and> placed (smem (p_w p')) (unat (p_sp p')) (unat (p_sp p)) a (ax_platform aux @ [0])))
    (\<lambda>e p'. e = E2BIG \<and> inside W ok smem (p_w p) (p_w p')
       \<and> unat (p_sp p) < unat (sw_bottom W (p_w p)) + (length (ax_platform aux) + 1))"
proof (cases "ax_platform aux = []")
  case True
  with assms show ?thesis by (simp add: wp pushed_def inside_def ready_def)
next
  case False
  with push_cstr_yields [OF assms, of "ax_platform aux"] show ?thesis
    by (simp add: wp) (erule yields_weaken, simp_all)
qed

lemma push_blobs_yields:
  assumes "ready W ok p"
  shows "yields (push_blobs W aux) p
    (\<lambda>(pl, ex, rn) p'. pushed W ok smem p p'
       \<and> unat (p_sp p) \<le> unat (p_sp p') + (length (ax_platform aux) + length (ax_execfn aux) + length (ax_random aux) + 17)
       \<and> blobs_placed (smem (p_w p')) (unat (p_sp p')) (unat (p_sp p)) aux pl ex rn)
    (\<lambda>e p'. e = E2BIG \<and> inside W ok smem (p_w p) (p_w p')
       \<and> unat (p_sp p) < unat (sw_bottom W (p_w p))
           + (length (ax_platform aux) + length (ax_execfn aux) + length (ax_random aux) + 17))"
  unfolding push_blobs_def yields_bind
proof (rule yields_weaken [OF push_platform_yields [OF assms]], goal_cases)
  case p1: (1 pl p1)
  then have r1: "ready W ok p1" using pushed_ready assms by blast
  show ?case
  proof (rule yields_weaken [OF push_cstr_yields [OF r1]], goal_cases)
    case p2: (1 ex p2)
    then have r2: "ready W ok p2" using pushed_ready r1 by blast
    show ?case
    proof (rule yields_weaken [OF pusher_align_yields [OF r2, where E = "\<lambda>_ _. False"]], goal_cases)
      case p3: (1 u p3)
      then have r3: "ready W ok p3" using pushed_ready r2 by blast
      show ?case
      proof (rule yields_weaken [OF push_bytes_yields [OF r3]], goal_cases)
        case p4: (1 rn p4)
        have to1: "pushed W ok smem p1 p4" and to2: "pushed W ok smem p2 p4" and to: "pushed W ok smem p p4"
          using p1 p2 p3 p4 by (blast intro: pushed_trans)+
        have le: "unat (p_sp p3) \<le> unat (p_sp p)" "unat (p_sp p1) \<le> unat (p_sp p)"
          using p1 p2 p3 by (auto simp: pushed_def)
        have "placed (smem (p_w p4)) (unat (p_sp p4)) (unat (p_sp p)) a d"
          if "placed (smem (p_w p1)) (unat (p_sp p1)) (unat (p_sp p)) a d" for a d
          using placed_pushed [where smem = smem, OF that to1] .
        moreover have "placed (smem (p_w p4)) (unat (p_sp p4)) (unat (p_sp p)) ex (ax_execfn aux @ [0])"
          using placed_pushed [where smem = smem, OF _ to2] p2 placed_wider le(2) by blast
        moreover have "placed (smem (p_w p4)) (unat (p_sp p4)) (unat (p_sp p)) rn (ax_random aux)"
          using p4 placed_wider le(1) by blast
        ultimately show ?case
          using p1 p2 p3 p4 to by (simp add: wp blobs_placed_def split: option.splits)
      next
        case (2 e p4)
        have "pushed W ok smem p p3" using p1 p2 p3 by (blast intro: pushed_trans)
        with 2 p1 p2 p3 show ?case
          using inside_trans [OF pushed_inside] by (fastforce simp: pushed_bottom)
      qed
    qed simp
  next
    case (2 e p2)
    with p1 show ?case using inside_trans [OF pushed_inside] by (fastforce simp: pushed_bottom)
  qed
qed auto

lemma push_strings_yields:
  assumes "ready W ok p"
  shows "yields (push_strings heap W argv envp) p
    (\<lambda>(as, es) p'. pushed W ok smem p p' \<and> unat (p_sp p') + (strings_len argv + strings_len envp) = unat (p_sp p)
       \<and> cstrs_placed (smem (p_w p')) (unat (p_sp p')) (unat (p_sp p)) as argv
       \<and> cstrs_placed (smem (p_w p')) (unat (p_sp p')) (unat (p_sp p)) es envp)
    (\<lambda>e p'. inside W ok smem (p_w p) (p_w p')
       \<and> (e = E2BIG \<and> unat (p_sp p) < unat (sw_bottom W (p_w p)) + (strings_len argv + strings_len envp)
          \<or> e = ENOMEM \<and> \<not> (heap AllocEnvp (length envp) \<and> heap AllocArgv (length argv))))"
  unfolding push_strings_def yields_bind
proof (rule yields_guardI, goal_cases)
  case 1
  with assms show ?case by (simp add: inside_def ready_def)
next
  case 2
  show ?case
  proof (rule yields_weaken [OF push_cstrs_yields [OF assms]], goal_cases)
    case p1: (1 er p1)
    then have r1: "ready W ok p1" using pushed_ready assms by blast
    show ?case
    proof (rule yields_guardI, goal_cases)
      case 1
      with p1 show ?case by (simp add: pushed_inside)
    next
      case 2
      show ?case
      proof (rule yields_weaken [OF push_cstrs_yields [OF r1]], goal_cases)
        case p2: (1 ar p2)
        have "cstrs_placed (smem (p_w p2)) (unat (p_sp p2)) (unat (p_sp p)) er (rev envp)"
          using p1 p2 by (auto elim!: list_all2_mono intro: placed_pushed [where smem = smem])
        moreover have "cstrs_placed (smem (p_w p2)) (unat (p_sp p2)) (unat (p_sp p)) ar (rev argv)"
          using p1 p2 by (auto elim!: list_all2_mono intro: placed_wider simp: pushed_def)
        moreover have "pushed W ok smem p p2" using p1 p2 by (blast intro: pushed_trans)
        ultimately show ?case using p1 p2 by (simp add: wp list_all2_rev1)
      next
        case (2 e p2)
        with p1 show ?case using inside_trans [OF pushed_inside] by (fastforce simp: pushed_bottom)
      qed
    qed
  next
    case (2 e p1)
    then show ?case by auto
  qed
qed

text \<open>The pointer block on top of what has been pushed is a start-up block.\<close>

lemma block_part:
  assumes "ready W ok p" and "8 * (length argv + length envp) < 2 ^ 63"
    and "pushed W ok smem p p1" and "pushed W ok smem p1 p2"
    and "blobs_placed (smem (p_w p1)) (unat (p_sp p1)) (unat (p_sp p)) aux pl ex rn"
    and "cstrs_placed (smem (p_w p2)) (unat (p_sp p2)) (unat (p_sp p1)) as argv"
    and "cstrs_placed (smem (p_w p2)) (unat (p_sp p2)) (unat (p_sp p1)) es envp"
  shows "yields (write_block W argv envp as es (auxv_entries aux rn pl (Some ex))) p2
    (\<lambda>l p'. inside W ok smem (p_w p) (p_w p') \<and> argc_at l = sl_sp l \<and> low_water l = sl_sp l
       \<and> 16 dvd unat (sl_sp l) \<and> unat (sw_bottom W (p_w p)) \<le> unat (sl_sp l)
       \<and> startup_at (smem (p_w p')) (unat (sl_sp l)) (unat (p_sp p)) argv envp aux
       \<and> (\<forall>x<unat (sl_sp l). smem (p_w p') x = smem (p_w p) x))
    (\<lambda>e p'. inside W ok smem (p_w p) (p_w p') \<and> e = E2BIG
       \<and> unat (p_sp p2) < unat (sw_bottom W (p_w p)) + ((3 + length argv + length envp) * 8 + 21 * 16) + 16)"
proof -
  define av where "av = auxv_entries aux rn pl (Some ex)"
  define words where "words = stack_words (of_nat (length argv)) as es av"
  have len: "length as = length argv" "length es = length envp" "length av \<le> 21"
    using assms(6,7) length_auxv_entries by (simp_all add: list_all2_lengthD av_def)
  have to: "pushed W ok smem p p2" using assms(3,4) by (rule pushed_trans)
  have le: "unat (p_sp p1) \<le> unat (p_sp p)" using assms(3) by (simp add: pushed_def)
  have blobs: "blobs_placed (smem (p_w p2)) (unat (p_sp p2)) (unat (p_sp p)) aux pl ex rn"
    using assms(5) placed_pushed [where smem = smem, OF _ assms(4)]
    by (auto simp: blobs_placed_def split: option.splits)
  have block: "8 * length words \<le> (3 + length argv + length envp) * 8 + 21 * 16"
    using len by (simp add: words_def length_stack_words)
  show ?thesis unfolding av_def [symmetric]
  proof (rule yields_weaken [OF write_block_yields [OF pushed_ready [OF to assms(1)] len(1,2) assms(2) len(3) words_def]],
      goal_cases)
    case l: (1 l p')
    have up: "placed (smem (p_w p')) (unat (sl_sp l) + 8 * length words) (unat (p_sp p)) a d"
      if "placed (smem (p_w p2)) (unat (p_sp p2)) hi a d" "hi \<le> unat (p_sp p)" for a d hi
      using l that by (intro placed_frame [OF that(1)]) auto
    have "startup_at (smem (p_w p')) (unat (sl_sp l)) (unat (p_sp p)) argv envp aux"
      unfolding startup_at_def
    proof (intro exI conjI)
      show "words = stack_words (of_nat (length argv)) as es (auxv_entries aux rn pl (Some ex))"
        by (simp add: words_def av_def)
      show "blobs_placed (smem (p_w p')) (unat (sl_sp l) + 8 * length words) (unat (p_sp p)) aux pl ex rn"
        using blobs up by (auto simp: blobs_placed_def split: option.splits)
    qed (use l up le assms(6,7) in \<open>auto elim!: list_all2_mono\<close>)
    with l to show ?case
      using inside_trans [OF pushed_inside [OF to]] by (auto simp: pushed_def inside_def)
  next
    case (2 e p')
    with block to show ?case
      using inside_trans [OF pushed_inside [OF to]] by (auto simp: pushed_bottom)
  qed
qed

text \<open>
  The whole layout: the space it may need is counted in \<open>stack_need\<close>, with 15 bytes for each of the two
  alignments.
\<close>

lemma build_pushed_yields:
  assumes "ready W ok p" and "8 * (length argv + length envp) < 2 ^ 63"
  shows "yields (build_pushed heap W argv envp aux) p
    (\<lambda>l p'. inside W ok smem (p_w p) (p_w p') \<and> argc_at l = sl_sp l \<and> low_water l = sl_sp l
       \<and> 16 dvd unat (sl_sp l) \<and> unat (sw_bottom W (p_w p)) \<le> unat (sl_sp l)
       \<and> startup_at (smem (p_w p')) (unat (sl_sp l)) (unat (p_sp p)) argv envp aux
       \<and> (\<forall>x<unat (sl_sp l). smem (p_w p') x = smem (p_w p) x))
    (\<lambda>e p'. inside W ok smem (p_w p) (p_w p')
       \<and> (e = E2BIG \<and> unat (p_sp p) < unat (sw_bottom W (p_w p)) + stack_need argv envp aux
          \<or> e = ENOMEM \<and> \<not> (heap AllocEnvp (length envp) \<and> heap AllocArgv (length argv))))"
  unfolding build_pushed_def yields_bind
proof (rule yields_weaken [OF push_blobs_yields [OF assms(1)]], goal_cases)
  case blobs: (1 r p1)
  obtain pl ex rn where r: "r = (pl, ex, rn)" by (cases r)
  have p1: "pushed W ok smem p p1" "blobs_placed (smem (p_w p1)) (unat (p_sp p1)) (unat (p_sp p)) aux pl ex rn"
    "unat (p_sp p) \<le> unat (p_sp p1) + (length (ax_platform aux) + length (ax_execfn aux) + length (ax_random aux) + 17)"
    using blobs by (simp_all add: r)
  have r1: "ready W ok p1" using pushed_ready p1(1) assms(1) by blast
  show ?case unfolding r prod.case yields_bind
  proof (rule yields_weaken [OF push_strings_yields [OF r1]], goal_cases)
    case strings: (1 r2 p2)
    obtain as es where r2: "r2 = (as, es)" by (cases r2)
    have p2: "pushed W ok smem p1 p2" "unat (p_sp p2) + (strings_len argv + strings_len envp) = unat (p_sp p1)"
      "cstrs_placed (smem (p_w p2)) (unat (p_sp p2)) (unat (p_sp p1)) as argv"
      "cstrs_placed (smem (p_w p2)) (unat (p_sp p2)) (unat (p_sp p1)) es envp"
      using strings by (simp_all add: r2)
    show ?case unfolding r2 prod.case
      using block_part [OF assms p1(1) p2(1) p1(2) p2(3,4)]
      by (rule yields_weaken) (use p1(3) p2(2) in \<open>auto simp: stack_need_def\<close>)
  next
    case (2 e p2)
    with p1 show ?case
      using inside_trans [OF pushed_inside] by (fastforce simp: pushed_bottom stack_need_def)
  qed
next
  case (2 e p1)
  then show ?case by (auto simp: stack_need_def)
qed

lemma build_stack_yields:
  assumes "ok s"
  shows "yields (build_stack heap W argv envp aux) s
    (\<lambda>l s'. inside W ok smem s s' \<and> argc_at l = sl_sp l \<and> low_water l = sl_sp l
       \<and> 16 dvd unat (sl_sp l) \<and> unat (sw_bottom W s) \<le> unat (sl_sp l)
       \<and> startup_at (smem s') (unat (sl_sp l)) (unat (sw_top W s)) argv envp aux
       \<and> (\<forall>x<unat (sl_sp l). smem s' x = smem s x))
    (\<lambda>e s'. inside W ok smem s s'
       \<and> (e = E2BIG \<and> (over_budget argv envp (unat (sw_top W s) - unat (sw_bottom W s))
             \<or> unat (sw_top W s) < unat (sw_bottom W s) + stack_need argv envp aux + 16)
          \<or> e = ENOMEM \<and> \<not> (heap AllocEnvp (length envp) \<and> heap AllocArgv (length argv))))"
proof (cases "over_budget argv envp (unat (sw_top W s) - unat (sw_bottom W s))")
  case True
  with assms range [OF assms] show ?thesis
    by (simp add: yields_def build_stack_def sbind_def psub_ok unat_sub_ok check_arg_env_size_iff inside_def)
next
  case False
  define p where "p = \<lparr> p_w = s, p_sp = sw_top W s AND - 16 \<rparr>"
  have "(unat (sw_top W s) - unat (sw_bottom W s)) div 4 < 9223372036854775808"
    using unat_lt_64 [of "sw_top W s"] by linarith
  then have "max ARG_MAX_LEN ((unat (sw_top W s) - unat (sw_bottom W s)) div 4) < 2 ^ 63"
    by (simp add: ARG_MAX_LEN_def)
  moreover from False have "8 * (length argv + length envp)
      \<le> max ARG_MAX_LEN ((unat (sw_top W s) - unat (sw_bottom W s)) div 4)"
    by (simp add: over_budget_def) linarith
  ultimately have few: "8 * (length argv + length envp) < 2 ^ 63" by (rule le_less_trans [rotated])
  have p: "p_w p = s" "unat (p_sp p) \<le> unat (sw_top W s)" "unat (sw_top W s) < unat (p_sp p) + 16"
    by (simp_all add: p_def unat_align_16)
  then have "ready W ok p" using assms by (simp add: ready_def)
  from build_pushed_yields [OF this few, of heap aux]
  have "yields (\<lambda>w. case build_pushed heap W argv envp aux p of (r, p) \<Rightarrow> (r, p_w p)) s
    (\<lambda>l s'. inside W ok smem s s' \<and> argc_at l = sl_sp l \<and> low_water l = sl_sp l
       \<and> 16 dvd unat (sl_sp l) \<and> unat (sw_bottom W s) \<le> unat (sl_sp l)
       \<and> startup_at (smem s') (unat (sl_sp l)) (unat (p_sp p)) argv envp aux
       \<and> (\<forall>x<unat (sl_sp l). smem s' x = smem s x))
    (\<lambda>e s'. inside W ok smem s s'
       \<and> (e = E2BIG \<and> unat (p_sp p) < unat (sw_bottom W s) + stack_need argv envp aux
          \<or> e = ENOMEM \<and> \<not> (heap AllocEnvp (length envp) \<and> heap AllocArgv (length argv))))"
    by (auto simp: yields_def p split: prod.splits result.splits)
  moreover have "build_stack heap W argv envp aux s
      = (case build_pushed heap W argv envp aux p of (r, p) \<Rightarrow> (r, p_w p))"
    using False range [OF assms]
    by (simp add: build_stack_def sbind_def psub_ok unat_sub_ok check_arg_env_size_iff stack_align_16 p_def)
  ultimately show ?thesis
    using p(2,3) by (auto simp: yields_def split: prod.splits result.splits intro: startup_at_wider)
qed

end

section \<open>The stack of the tests\<close>

definition fs_ok :: "FakeStack \<Rightarrow> bool" where
  "fs_ok fs \<longleftrightarrow> unat (fs_base fs) + length (fs_mem fs) < 2 ^ 64"

definition fs_bytes :: "FakeStack \<Rightarrow> nat \<Rightarrow> u8" where
  "fs_bytes fs x =
     (if unat (fs_base fs) \<le> x \<and> x < unat (fs_base fs) + length (fs_mem fs)
      then fs_mem fs ! (x - unat (fs_base fs)) else 0)"

lemma fs_top_unat: "fs_ok fs \<Longrightarrow> unat (fs_top fs) = unat (fs_base fs) + length (fs_mem fs)"
  by (simp add: fs_top_def fs_ok_def unat_plus_of_nat)

lemma fs_write_ok:
  assumes "fs_ok fs" and "unat (fs_base fs) \<le> unat a" and "unat a + length d \<le> unat (fs_top fs)"
  shows "\<exists>fs'. fs_write a d fs = (Ok (), fs') \<and> fs_ok fs' \<and> fs_top fs' = fs_top fs
    \<and> fs_base fs' = fs_base fs \<and> fs_bytes fs' = store (fs_bytes fs) (unat a) d"
proof -
  have len: "unat a + length d \<le> unat (fs_base fs) + length (fs_mem fs)" "length d < 2 ^ 64"
    "unat a + length d < 2 ^ 64"
    using assms by (auto simp: fs_top_unat fs_ok_def)
  then have "unat (of_nat (length d) :: u64) = length d" by (simp add: unat_of_nat)
  with len have e: "padd a (of_nat (length d)) = Ok (a + of_nat (length d))"
    "unat (a + of_nat (length d)) = unat a + length d"
    by (simp_all add: padd_ok unat_plus_of_nat)
  define k where "k = unat a - unat (fs_base fs)"
  have k: "unat (a - fs_base fs) = k" "k + length d \<le> length (fs_mem fs)" "unat a = unat (fs_base fs) + k"
    using assms(2) len(1) by (simp_all add: k_def unat_sub_ok)
  define fs' where "fs' = fs\<lparr> fs_low := min (fs_low fs) a,
      fs_mem := take k (fs_mem fs) @ d @ drop (k + length d) (fs_mem fs) \<rparr>"
  have "fs_write a d fs = (Ok (), fs')"
    using assms(2,3) k(2)
    by (simp add: fs_write_def e k(1) fs'_def word_less_nat_alt Let_def)
  moreover have "fs_ok fs'" "fs_base fs' = fs_base fs" "length (fs_mem fs') = length (fs_mem fs)"
    using assms(1) k(2) by (simp_all add: fs'_def fs_ok_def)
  moreover have "fs_bytes fs' = store (fs_bytes fs) (unat a) d"
    using k(2,3) by (auto simp: fun_eq_iff fs_bytes_def store_def fs'_def nth_append)
  ultimately show ?thesis by (simp add: fs_top_def)
qed

interpretation fake_writer: stack_writer fake_stack fs_ok fs_bytes
  by unfold_locales (simp_all add: fake_stack_def fs_top_unat fs_write_ok)

section \<open>Reading the stack back\<close>

definition words_at :: "FakeStack \<Rightarrow> u64 \<Rightarrow> u64 list \<Rightarrow> bool" where
  "words_at fs at ws \<longleftrightarrow> unat (fs_base fs) \<le> unat at
     \<and> unat at + 8 * length ws \<le> unat (fs_base fs) + length (fs_mem fs)
     \<and> holds_at (fs_bytes fs) (unat at) (words_bytes ws)"

abbreviation on_stack :: "FakeStack \<Rightarrow> u64 \<Rightarrow> bytes \<Rightarrow> bool" where
  "on_stack fs \<equiv> placed (fs_bytes fs) (unat (fs_base fs)) (unat (fs_base fs) + length (fs_mem fs))"

lemma on_stack_slice:
  assumes "on_stack fs a d"
  shows "take (length d) (drop (unat a - unat (fs_base fs)) (fs_mem fs)) = d"
    and "unat a - unat (fs_base fs) + length d \<le> length (fs_mem fs)"
proof -
  show le: "unat a - unat (fs_base fs) + length d \<le> length (fs_mem fs)"
    using assms by (auto simp: placed_def)
  show "take (length d) (drop (unat a - unat (fs_base fs)) (fs_mem fs)) = d"
  proof (rule nth_equalityI)
    fix i assume "i < length (take (length d) (drop (unat a - unat (fs_base fs)) (fs_mem fs)))"
    then have i: "i < length d" using le by simp
    then have "fs_bytes fs (unat a + i) = d ! i" using assms by (simp add: placed_def holds_at_def)
    with i le assms show "take (length d) (drop (unat a - unat (fs_base fs)) (fs_mem fs)) ! i = d ! i"
      by (auto simp: fs_bytes_def placed_def)
  qed (use le in simp)
qed

lemma fs_read_placed: "on_stack fs a d \<Longrightarrow> fs_read fs a (length d) = Ok d"
  using on_stack_slice [of fs a d]
  by (simp add: fs_read_def placed_def psub_ok unat_sub_ok)

lemma position_first:
  "(\<forall>x\<in>set xs. \<not> P x) \<Longrightarrow> P y \<Longrightarrow> position P (xs @ y # ys) = Some (length xs)"
  by (induction xs) auto

lemma cstr_at_placed:
  assumes "on_stack fs a (s @ [0])" and "0 \<notin> set s"
  shows "cstr_at fs a = Ok s"
proof -
  let ?k = "unat a - unat (fs_base fs)"
  have "take (length s + 1) (drop ?k (fs_mem fs)) = s @ [0]" "?k + (length s + 1) \<le> length (fs_mem fs)"
    using on_stack_slice [OF assms(1)] by simp_all
  then have rest: "drop ?k (fs_mem fs) = s @ 0 # drop (length s + 1) (drop ?k (fs_mem fs))"
    and "?k \<le> length (fs_mem fs)"
    by (metis append.assoc append_Cons append_Nil append_take_drop_id) (use assms(1) in \<open>auto simp: placed_def\<close>)
  moreover from rest assms(2) have "position (\<lambda>b. b = 0) (drop ?k (fs_mem fs)) = Some (length s)"
    by (metis (mono_tags, lifting) position_first)
  ultimately show ?thesis
    using assms(1)
    by (simp add: cstr_at_def placed_def psub_ok unat_sub_ok Let_def)
qed

lemma words_at_Cons:
  assumes "fs_ok fs" and "words_at fs at (v # vs)"
  shows "u64_at fs at = Ok v" and "(padd at 8 :: (u64, error) result) = Ok (at + 8)" and "words_at fs (at + 8) vs"
proof -
  have bound: "unat at + 8 + 8 * length vs \<le> unat (fs_base fs) + length (fs_mem fs)"
    and held: "holds_at (fs_bytes fs) (unat at) (to_le_bytes v)"
      "holds_at (fs_bytes fs) (unat at + 8) (words_bytes vs)"
    using assms(2) by (simp_all add: words_at_def holds_at_append)
  have "on_stack fs at (to_le_bytes v)"
    using assms(2) bound held(1) by (simp add: placed_def words_at_def)
  from fs_read_placed [OF this] show "u64_at fs at = Ok v" by (simp add: u64_at_def)
  have "unat at + 8 < 2 ^ 64" using bound assms(1) by (simp add: fs_ok_def)
  then show "(padd at 8 :: (u64, error) result) = Ok (at + 8)" "words_at fs (at + 8) vs"
    using assms(2) bound held(2) by (simp_all add: padd_ok unat_add_ok words_at_def)
qed

end
