(* ===== verification/Initial_Stack.thy ===== *)
theory Initial_Stack
  imports Stack_Facts Sample
begin

text \<open>
  The properties of the initial stack, stated on the stack of the tests through the interpretation
  \<open>fake_writer\<close>: the outcome of \<open>build_stack\<close> and its bounds, that it succeeds whenever there is room,
  and that the reader the tests use as a stand-in for a libc finds exactly the arguments, the
  environment and the auxiliary vector that were asked for.
\<close>

section \<open>Reading a block word by word\<close>

abbreviation readable :: "FakeStack \<Rightarrow> u64 list \<Rightarrow> bytes list \<Rightarrow> bool" where
  "readable fs as ss \<equiv> list_all2 (\<lambda>a s. cstr_at fs a = Ok s) as ss"

lemma parse_argv_words:
  "fs_ok fs \<Longrightarrow> words_at fs at (as @ rest) \<Longrightarrow> readable fs as ss \<Longrightarrow>
     parse_argv fs (length as) at = Ok (ss, at + 8 * of_nat (length as))
     \<and> words_at fs (at + 8 * of_nat (length as)) rest"
proof (induction as arbitrary: at ss)
  case (Cons a as)
  then obtain s ss' where ss: "ss = s # ss'" "cstr_at fs a = Ok s" "readable fs as ss'"
    by (auto simp: list_all2_Cons1)
  note step = words_at_Cons [OF Cons.prems(1), of at a "as @ rest"]
  with Cons.prems(2) have "words_at fs (at + 8) (as @ rest)" by simp
  from Cons.IH [OF Cons.prems(1) this ss(3)] step Cons.prems(2) ss show ?case
    by (simp add: algebra_simps)
qed simp

lemma parse_envp_words:
  "fs_ok fs \<Longrightarrow> words_at fs at (es @ 0 # rest) \<Longrightarrow> 0 \<notin> set es \<Longrightarrow> readable fs es ss \<Longrightarrow>
     \<exists>fin. parse_envp fs at = Ok (ss, fin) \<and> words_at fs fin (0 # rest) \<and> skip_pointers fs at = Ok fin"
proof (induction es arbitrary: at ss)
  case Nil
  then show ?case
    using words_at_Cons(1) [of fs at 0 rest] by (simp add: parse_envp.simps skip_pointers.simps)
next
  case (Cons e es)
  then obtain s ss' where ss: "ss = s # ss'" "cstr_at fs e = Ok s" "readable fs es ss'"
    by (auto simp: list_all2_Cons1)
  note step = words_at_Cons [OF Cons.prems(1), of at e "es @ 0 # rest"]
  from Cons.IH [OF Cons.prems(1) _ _ ss(3)] step Cons.prems(2,3) ss
  obtain fin where "parse_envp fs (at + 8) = Ok (ss', fin)" "words_at fs fin (0 # rest)"
      "skip_pointers fs (at + 8) = Ok fin" by auto
  with step Cons.prems(2,3) ss show ?case
    by (auto simp: parse_envp.simps [of fs at] skip_pointers.simps [of fs at])
qed

lemma words_at_pair:
  assumes "fs_ok fs" and "words_at fs at (k # v # ws)"
  shows "u64_at fs at = Ok k" and "(padd at 8 :: (u64, error) result) = Ok (at + 8)" and "u64_at fs (at + 8) = Ok v"
    and "(padd at 16 :: (u64, error) result) = Ok (at + 16)" and "words_at fs (at + 16) ws"
proof -
  note w1 = words_at_Cons [OF assms]
  note w2 = words_at_Cons [OF assms(1) w1(3)]
  show "u64_at fs at = Ok k" "(padd at 8 :: (u64, error) result) = Ok (at + 8)" "u64_at fs (at + 8) = Ok v" by fact+
  have "unat at + 16 < 2 ^ 64"
    using assms by (simp add: words_at_def fs_ok_def)
  then show "(padd at 16 :: (u64, error) result) = Ok (at + 16)" by (simp add: padd_ok)
  show "words_at fs (at + 16) ws" using w2(3) by (simp add: add.assoc)
qed

abbreviation pair_words :: "(u64 \<times> u64) list \<Rightarrow> u64 list" where
  "pair_words av \<equiv> concat (map (\<lambda>(k, v). [k, v]) av)"

lemma parse_auxv_words:
  "fs_ok fs \<Longrightarrow> words_at fs at (pair_words (av @ [(AT_NULL, z)])) \<Longrightarrow> AT_NULL \<notin> fst ` set av \<Longrightarrow>
     parse_auxv fs at = Ok av \<and> find_entry fs key at = Ok (if key = AT_NULL then None else map_of av key)"
proof (induction av arbitrary: at)
  case Nil
  then show ?case
    using words_at_pair [of fs at AT_NULL z "[]"] by (simp add: parse_auxv.simps find_entry.simps)
next
  case (Cons e av)
  obtain k v where e: "e = (k, v)" by (cases e)
  have "words_at fs at (k # v # pair_words (av @ [(AT_NULL, z)]))" using Cons.prems(2) by (simp add: e)
  note step = words_at_pair [OF Cons.prems(1) this]
  from Cons.IH [OF Cons.prems(1) step(5)] step Cons.prems(3) show ?case
    by (auto simp: e parse_auxv.simps [of fs at] find_entry.simps [of fs _ at])
qed

abbreviation final_auxv :: "AuxvSpec \<Rightarrow> u64 option \<Rightarrow> u64 \<Rightarrow> u64 \<Rightarrow> (u64 \<times> u64) list" where
  "final_auxv aux pl ex rn \<equiv> butlast (auxv_entries aux rn pl (Some ex))"

lemma auxv_entries_butlast:
  "auxv_entries aux rn pl ex = butlast (auxv_entries aux rn pl ex) @ [(AT_NULL, 0)]"
  "AT_NULL \<notin> fst ` set (butlast (auxv_entries aux rn pl ex))"
  by (simp add: auxv_entries_def butlast_append, auto simp: auxv_entries_def at_defs butlast_append split: option.splits)

lemma startup_words:
  assumes "fs_ok fs" and "unat (fs_base fs) \<le> unat sp"
    and "startup_at (fs_bytes fs) (unat sp) (unat (fs_base fs) + length (fs_mem fs)) argv envp aux"
  obtains argv_at envp_at pl ex rn
  where "words_at fs sp (stack_words (of_nat (length argv)) argv_at envp_at (auxv_entries aux rn pl (Some ex)))"
    and "list_all2 (\<lambda>a s. on_stack fs a (s @ [0])) argv_at argv"
    and "list_all2 (\<lambda>a s. on_stack fs a (s @ [0])) envp_at envp" and "0 \<notin> set envp_at"
    and "case pl of None \<Rightarrow> ax_platform aux = [] | Some a \<Rightarrow> ax_platform aux \<noteq> [] \<and> on_stack fs a (ax_platform aux @ [0])"
    and "on_stack fs ex (ax_execfn aux @ [0])" and "on_stack fs rn (ax_random aux)"
    and "\<forall>a\<in>set_option pl \<union> {ex, rn}. unat sp \<le> unat a"
proof -
  let ?hi = "unat (fs_base fs) + length (fs_mem fs)"
  obtain argv_at envp_at pl ex rn words where
      w: "words = stack_words (of_nat (length argv)) argv_at envp_at (auxv_entries aux rn pl (Some ex))"
      "holds_at (fs_bytes fs) (unat sp) (words_bytes words)"
    and argv: "cstrs_placed (fs_bytes fs) (unat sp + 8 * length words) ?hi argv_at argv"
    and envp: "cstrs_placed (fs_bytes fs) (unat sp + 8 * length words) ?hi envp_at envp"
    and blobs: "blobs_placed (fs_bytes fs) (unat sp + 8 * length words) ?hi aux pl ex rn"
    using assms(3) unfolding startup_at_def by blast
  have on: "on_stack fs a d" if "placed (fs_bytes fs) (unat sp + 8 * length words) ?hi a d" for a d
    using that assms(2) by (simp add: placed_def)
  have "words \<noteq> []" by (simp add: w stack_words_def)
  then have nonzero: "0 \<notin> set envp_at"
    using envp by (auto simp: list_all2_conv_all_nth in_set_conv_nth placed_def)
  show thesis
  proof (rule that)
    show "words_at fs sp (stack_words (of_nat (length argv)) argv_at envp_at (auxv_entries aux rn pl (Some ex)))"
      using w assms(2) blobs by (simp add: words_at_def blobs_placed_def placed_def)
    show "\<forall>a\<in>set_option pl \<union> {ex, rn}. unat sp \<le> unat a"
      using blobs by (auto simp: blobs_placed_def placed_def)
  qed (use argv envp blobs on nonzero in \<open>auto simp: blobs_placed_def elim!: list_all2_mono split: option.splits\<close>)
qed

lemma startup_reads:
  assumes "fs_ok fs"
    and "words_at fs sp (stack_words (of_nat (length argv)) argv_at envp_at (auxv_entries aux rn pl (Some ex)))"
    and "readable fs argv_at argv" and "readable fs envp_at envp" and "0 \<notin> set envp_at"
  shows "parse_stack fs sp = Ok \<lparr> pr_argv = argv, pr_envp = envp, pr_auxv = final_auxv aux pl ex rn \<rparr>"
    and "auxv_value fs sp key = Ok (map_of (final_auxv aux pl ex rn) key)"
proof -
  let ?av = "final_auxv aux pl ex rn" and ?n = "of_nat (length argv_at) :: u64"
  have len: "length argv = length argv_at" using assms(3) by (simp add: list_all2_lengthD)
  have "words_at fs sp (?n # argv_at @ 0 # envp_at @ 0 # pair_words (?av @ [(AT_NULL, 0)]))"
    using assms(2) auxv_entries_butlast(1) [of aux rn pl "Some ex"] by (simp add: stack_words_def len)
  note w0 = words_at_Cons [OF assms(1) this]
  note w1 = parse_argv_words [OF assms(1) w0(3) assms(3)]
  note w2 = words_at_Cons [OF assms(1) conjunct2 [OF w1]]
  obtain fin where w3: "parse_envp fs (sp + 8 + 8 * ?n + 8) = Ok (envp, fin)"
      "skip_pointers fs (sp + 8 + 8 * ?n + 8) = Ok fin"
      "words_at fs fin (0 # pair_words (?av @ [(AT_NULL, 0)]))"
    using parse_envp_words [OF assms(1) w2(3) assms(5,4)] by blast
  note w4 = words_at_Cons [OF assms(1) w3(3)]
  note w5 = parse_auxv_words [OF assms(1) w4(3) auxv_entries_butlast(2)]
  have bound: "unat sp + 8 * (length argv_at + 2) < 2 ^ 64"
    using assms(1,2) by (simp add: words_at_def fs_ok_def len stack_words_def)
  then have n: "unat ?n = length argv_at" by (simp add: unat_of_nat)
  show "parse_stack fs sp = Ok \<lparr> pr_argv = argv, pr_envp = envp, pr_auxv = ?av \<rparr>"
    using w0 w1 w2 w3 w4 w5 by (simp add: parse_stack_def len n)
  have key: "map_of ?av AT_NULL = None" using auxv_entries_butlast(2) by (simp add: map_of_eq_None_iff)
  have "padd ?n 1 = (Ok (?n + 1) :: (u64, error) result)" "unat (?n + 1) = length argv_at + 1"
    using bound n by (simp_all add: padd_ok unat_add_ok)
  moreover from this(2) have "pmul (?n + 1) 8 = (Ok ((?n + 1) * 8) :: (u64, error) result)"
      "unat ((?n + 1) * 8) = (length argv_at + 1) * 8"
    using bound n by (simp_all add: pmul_ok unat_word_ariths)
  moreover from this(2) have "padd (sp + 8) ((?n + 1) * 8) = (Ok (sp + 8 + (?n + 1) * 8) :: (u64, error) result)"
    using bound by (intro padd_ok) (simp add: unat_add_ok)
  moreover have "sp + 8 + 8 * ?n + 8 = sp + 8 + (?n + 1) * 8" by (simp add: algebra_simps)
  ultimately show "auxv_value fs sp key = Ok (map_of ?av key)"
    using w0 w3(2) w4 w5 key by (simp add: auxv_value_def mult.commute)
qed

lemma readable_placed:
  "list_all2 (\<lambda>a s. on_stack fs a (s @ [0])) as ss \<Longrightarrow> (\<And>s. s \<in> set ss \<Longrightarrow> 0 \<notin> set s) \<Longrightarrow> readable fs as ss"
  by (induction rule: list_all2_induct) (simp_all add: cstr_at_placed)

text \<open>Where \<open>build_stack\<close> puts everything, on the stack of the tests.\<close>

lemma laid_out:
  assumes "fs_ok fs" and "build_stack heap fake_stack argv envp aux fs = (Ok l, fs')"
  obtains argv_at envp_at pl ex rn
  where "fs_ok fs'"
    and "words_at fs' (sl_sp l) (stack_words (of_nat (length argv)) argv_at envp_at (auxv_entries aux rn pl (Some ex)))"
    and "list_all2 (\<lambda>a s. on_stack fs' a (s @ [0])) argv_at argv"
    and "list_all2 (\<lambda>a s. on_stack fs' a (s @ [0])) envp_at envp" and "0 \<notin> set envp_at"
    and "case pl of None \<Rightarrow> ax_platform aux = [] | Some a \<Rightarrow> ax_platform aux \<noteq> [] \<and> on_stack fs' a (ax_platform aux @ [0])"
    and "on_stack fs' ex (ax_execfn aux @ [0])" and "on_stack fs' rn (ax_random aux)"
    and "\<forall>a\<in>set_option pl \<union> {ex, rn}. unat (sl_sp l) \<le> unat a"
proof -
  from fake_writer.build_stack_yields [OF assms(1), of heap argv envp aux] assms(2)
  have inside: "fs_ok fs'" "fs_base fs' = fs_base fs" "fs_top fs' = fs_top fs" "unat (fs_base fs) \<le> unat (sl_sp l)"
    and up: "startup_at (fs_bytes fs') (unat (sl_sp l)) (unat (fs_top fs)) argv envp aux"
    by (simp_all add: yields_def inside_def fake_stack_def)
  from up have "startup_at (fs_bytes fs') (unat (sl_sp l)) (unat (fs_base fs') + length (fs_mem fs')) argv envp aux"
    using inside fs_top_unat by metis
  with inside that show thesis by (elim startup_words [rotated 2]) simp_all
qed

lemma auxv_values:
  assumes "fs_ok fs" and "build_stack heap fake_stack argv envp aux fs = (Ok l, fs')"
    and "0 \<notin> \<Union> (set ` set (ax_execfn aux # argv @ envp))"
  obtains pl ex rn where "\<forall>key. auxv_value fs' (sl_sp l) key = Ok (map_of (final_auxv aux pl ex rn) key)"
    and "fs_read fs' rn (length (ax_random aux)) = Ok (ax_random aux)" and "cstr_at fs' ex = Ok (ax_execfn aux)"
proof -
  from laid_out [OF assms(1,2)] obtain as es pl ex rn where ok: "fs_ok fs'" and at:
      "words_at fs' (sl_sp l) (stack_words (of_nat (length argv)) as es (auxv_entries aux rn pl (Some ex)))"
      "list_all2 (\<lambda>a s. on_stack fs' a (s @ [0])) as argv" "list_all2 (\<lambda>a s. on_stack fs' a (s @ [0])) es envp"
      "0 \<notin> set es" "on_stack fs' ex (ax_execfn aux @ [0])" "on_stack fs' rn (ax_random aux)"
    by metis
  have "readable fs' as argv" "readable fs' es envp"
    using at(2,3) assms(3) by (auto intro: readable_placed)
  from startup_reads(2) [OF ok at(1) this at(4)] at(5,6) assms(3) show thesis
    by (intro that [of rn pl ex]) (simp_all add: fs_read_placed cstr_at_placed)
qed

section \<open>A sample stack\<close>

definition sample_stack :: FakeStack where
  "sample_stack = \<lparr> fs_base = 4096, fs_mem = replicate 1024 0xAA, fs_low = 5120 \<rparr>"

definition sample_aux :: AuxvSpec where
  "sample_aux = AuxvSpec_default\<lparr> ax_entry := 4424, ax_random := replicate 16 7, ax_platform := [0x78],
     ax_execfn := [0x2f, 0x61] \<rparr>"

lemma sample_stack_ok: "fs_ok sample_stack" "fs_base sample_stack = 4096" "unat (fs_top sample_stack) = 5120"
  "FakeStack_new 4096 1024 = Ok sample_stack"
  by (simp_all add: fs_ok_def sample_stack_def fs_top_def FakeStack_new_def padd_def checked_add_def)

lemma sample_fits:
  "\<not> over_budget [[0x61]] [[0x62, 0x63]] 1024"
  "stack_need [[0x61]] [[0x62, 0x63]] sample_aux + 16 \<le> 1024"
  by (simp_all add: over_budget_def ARG_MAX_LEN_def stack_need_def sample_aux_def AuxvSpec_default_def)

lemma sample_aux_fields:
  "ax_random sample_aux = replicate 16 7" "ax_execfn sample_aux = [0x2f, 0x61]" "ax_platform sample_aux = [0x78]"
  "ax_entry sample_aux = 4424" "ax_phdr sample_aux = None"
  by (simp_all add: sample_aux_def AuxvSpec_default_def)

lemma sample_layout:
  obtains l fs' where "build_stack any_heap fake_stack [[0x61]] [[0x62, 0x63]] sample_aux sample_stack = (Ok l, fs')"
proof -
  have "unat (sw_top fake_stack sample_stack) = 5120" "unat (sw_bottom fake_stack sample_stack) = 4096"
    using sample_stack_ok by (simp_all add: fake_stack_def)
  with fake_writer.build_stack_yields [OF sample_stack_ok(1), of any_heap "[[0x61]]" "[[0x62, 0x63]]" sample_aux]
  show thesis using sample_fits that by (auto elim!: yieldsE simp: any_heap_def)
qed

section \<open>Properties\<close>

text \<open>
  C11. Building the initial stack never goes wrong silently: on any stack and for any arguments it
  does not panic and touches nothing outside the stack; it fails only with \<open>E2BIG\<close>, when the size
  policy says so or the block does not fit, or with \<open>ENOMEM\<close>, when the heap refuses one of the two
  pointer vectors; and when it succeeds the stack pointer is 16-byte aligned, inside the stack, the
  lowest address written, and below it nothing has changed.
\<close>

theorem build_stack_outcome:
  assumes "fs_ok fs"
  shows "case build_stack heap fake_stack argv envp aux fs of
      (Ok l, fs') \<Rightarrow>
        16 dvd unat (sl_sp l) \<and> unat (fs_base fs) \<le> unat (sl_sp l) \<and> unat (sl_sp l) < unat (fs_top fs)
        \<and> argc_at l = sl_sp l \<and> low_water l = sl_sp l \<and> fs_base fs' = fs_base fs \<and> fs_top fs' = fs_top fs
        \<and> (\<forall>x<unat (sl_sp l). fs_bytes fs' x = fs_bytes fs x)
    | (Err e, fs') \<Rightarrow>
        fs_base fs' = fs_base fs \<and> fs_top fs' = fs_top fs
        \<and> (e = E2BIG \<and> (over_budget argv envp (unat (fs_top fs) - unat (fs_base fs))
              \<or> unat (fs_top fs) < unat (fs_base fs) + stack_need argv envp aux + 16)
           \<or> e = ENOMEM \<and> \<not> (heap AllocEnvp (length envp) \<and> heap AllocArgv (length argv)))
    | (Panic, _) \<Rightarrow> False"
proof -
  have "unat sp < hi" if "startup_at m (unat sp) hi argv envp aux" for m sp hi
    using that by (auto simp: startup_at_def blobs_placed_def placed_def)
  with fake_writer.build_stack_yields [OF assms, of heap argv envp aux] show ?thesis
    by (auto simp: yields_def fake_stack_def inside_def split: prod.splits result.splits)
qed

theorem build_stack_outcome_witness:
  "fst (build_stack any_heap fake_stack [[0x61]] [] sample_aux sample_stack) \<noteq> Panic"
  using build_stack_outcome [OF sample_stack_ok(1), where heap = any_heap and argv = "[[0x61]]" and envp = "[]"
      and aux = sample_aux]
  by (auto split: prod.splits result.splits)

text \<open>
  C12. There is no spurious failure: when arguments and environment are within the policy's budget,
  the heap grants the two pointer vectors and the stack has room for everything, alignment
  included, the layout succeeds.
\<close>

theorem build_stack_succeeds:
  assumes "fs_ok fs" and "\<not> over_budget argv envp (unat (fs_top fs) - unat (fs_base fs))"
    and "unat (fs_base fs) + stack_need argv envp aux + 16 \<le> unat (fs_top fs)"
    and "heap AllocEnvp (length envp)" and "heap AllocArgv (length argv)"
  shows "\<exists>l fs'. build_stack heap fake_stack argv envp aux fs = (Ok l, fs')"
  using fake_writer.build_stack_yields [OF assms(1), of heap argv envp aux] assms(2-)
  by (auto elim!: yieldsE simp: fake_stack_def)

theorem build_stack_succeeds_witness:
  "\<exists>l fs'. build_stack any_heap fake_stack [[0x61]] [[0x62, 0x63]] sample_aux sample_stack = (Ok l, fs')"
  by (rule build_stack_succeeds) (use sample_stack_ok sample_fits in \<open>simp_all add: any_heap_def\<close>)

text \<open>
  C9. The program finds what it was given: reading a laid-out stack from \<open>argc\<close> up, the way the
  start-up code of a libc does, yields exactly the arguments, exactly the environment and exactly
  the auxiliary vector the loader asked for, ended by \<open>AT_NULL\<close>; and the entries that are pointers
  lead to the random bytes, the file name and the platform name on the stack itself. The strings
  must not contain a NUL.
\<close>

theorem stack_reads_back:
  assumes "fs_ok fs" and "build_stack heap fake_stack argv envp aux fs = (Ok l, fs')"
    and "0 \<notin> \<Union> (set ` set (ax_platform aux # ax_execfn aux # argv @ envp))"
  shows "\<exists>pl ex rn.
     parse_stack fs' (sl_sp l) = Ok \<lparr> pr_argv = argv, pr_envp = envp,
       pr_auxv = butlast (auxv_entries aux rn pl (Some ex)) \<rparr>
     \<and> fs_read fs' rn (length (ax_random aux)) = Ok (ax_random aux) \<and> cstr_at fs' ex = Ok (ax_execfn aux)
     \<and> (case pl of None \<Rightarrow> ax_platform aux = [] | Some a \<Rightarrow> cstr_at fs' a = Ok (ax_platform aux))"
proof -
  from laid_out [OF assms(1,2)] obtain as es pl ex rn where ok: "fs_ok fs'" and at:
      "words_at fs' (sl_sp l) (stack_words (of_nat (length argv)) as es (auxv_entries aux rn pl (Some ex)))"
      "list_all2 (\<lambda>a s. on_stack fs' a (s @ [0])) as argv" "list_all2 (\<lambda>a s. on_stack fs' a (s @ [0])) es envp"
      "0 \<notin> set es" "on_stack fs' ex (ax_execfn aux @ [0])" "on_stack fs' rn (ax_random aux)"
      "case pl of None \<Rightarrow> ax_platform aux = [] | Some a \<Rightarrow> ax_platform aux \<noteq> [] \<and> on_stack fs' a (ax_platform aux @ [0])"
    by metis
  have "readable fs' as argv" "readable fs' es envp"
    using at(2,3) assms(3) by (auto intro: readable_placed)
  from startup_reads(1) [OF ok at(1) this at(4)] at(5-7) assms(3) show ?thesis
    by (intro exI [of _ pl] exI [of _ ex] exI [of _ rn])
      (auto simp: fs_read_placed cstr_at_placed split: option.splits)
qed

theorem stack_reads_back_witness:
  "\<exists>l fs' pl ex rn.
     build_stack any_heap fake_stack [[0x61]] [[0x62, 0x63]] sample_aux sample_stack = (Ok l, fs')
     \<and> parse_stack fs' (sl_sp l) = Ok \<lparr> pr_argv = [[0x61]], pr_envp = [[0x62, 0x63]],
       pr_auxv = butlast (auxv_entries sample_aux rn pl (Some ex)) \<rparr>
     \<and> fs_read fs' rn 16 = Ok (replicate 16 7) \<and> cstr_at fs' ex = Ok [0x2f, 0x61]"
proof -
  obtain l fs' where run: "build_stack any_heap fake_stack [[0x61]] [[0x62, 0x63]] sample_aux sample_stack = (Ok l, fs')"
    by (rule sample_layout)
  have "0 \<notin> \<Union> (set ` set (ax_platform sample_aux # ax_execfn sample_aux # [[0x61]] @ [[0x62, 0x63]]))"
    by (simp add: sample_aux_fields)
  from stack_reads_back [OF sample_stack_ok(1) run this] run show ?thesis
    unfolding sample_aux_fields length_replicate by blast
qed

text \<open>
  Looking an entry of the auxiliary vector up gives the value of the specification: the entry
  point, the interpreter's bias, the page size and the identity are the requested ones, the
  program header entries are there exactly when the headers are mapped, \<open>AT_RANDOM\<close> points at the
  requested random bytes on the stack, and \<open>AT_EXECFN\<close> at the file name.
\<close>

theorem auxv_lookup:
  assumes "fs_ok fs" and "build_stack heap fake_stack argv envp aux fs = (Ok l, fs')"
    and "0 \<notin> \<Union> (set ` set (ax_execfn aux # argv @ envp))"
  shows "auxv_value fs' (sl_sp l) AT_ENTRY = Ok (Some (ax_entry aux))
    \<and> auxv_value fs' (sl_sp l) AT_BASE = Ok (Some (ax_base aux))
    \<and> auxv_value fs' (sl_sp l) AT_PAGESZ = Ok (Some (ax_pagesz aux))
    \<and> auxv_value fs' (sl_sp l) AT_UID = Ok (Some (ax_uid aux))
    \<and> auxv_value fs' (sl_sp l) AT_EGID = Ok (Some (ax_gid aux))
    \<and> auxv_value fs' (sl_sp l) AT_PHDR = Ok (ax_phdr aux)
    \<and> auxv_value fs' (sl_sp l) AT_PHNUM = Ok (map_option (\<lambda>_. ax_phnum aux) (ax_phdr aux))
    \<and> (\<exists>rn. auxv_value fs' (sl_sp l) AT_RANDOM = Ok (Some rn)
         \<and> fs_read fs' rn (length (ax_random aux)) = Ok (ax_random aux))
    \<and> (\<exists>ex. auxv_value fs' (sl_sp l) AT_EXECFN = Ok (Some ex) \<and> cstr_at fs' ex = Ok (ax_execfn aux))"
proof -
  obtain pl ex rn where found: "\<forall>key. auxv_value fs' (sl_sp l) key = Ok (map_of (final_auxv aux pl ex rn) key)"
      "fs_read fs' rn (length (ax_random aux)) = Ok (ax_random aux)" "cstr_at fs' ex = Ok (ax_execfn aux)"
    using auxv_values [OF assms] by metis
  then show ?thesis
    by (simp add: auxv_entries_def butlast_append at_defs split: option.splits)
qed

theorem auxv_lookup_witness:
  "\<exists>l fs' rn. build_stack any_heap fake_stack [[0x61]] [[0x62, 0x63]] sample_aux sample_stack = (Ok l, fs')
     \<and> auxv_value fs' (sl_sp l) AT_ENTRY = Ok (Some 4424) \<and> auxv_value fs' (sl_sp l) AT_PHDR = Ok None
     \<and> auxv_value fs' (sl_sp l) AT_RANDOM = Ok (Some rn) \<and> fs_read fs' rn 16 = Ok (replicate 16 7)"
proof -
  obtain l fs' where run: "build_stack any_heap fake_stack [[0x61]] [[0x62, 0x63]] sample_aux sample_stack = (Ok l, fs')"
    by (rule sample_layout)
  have "0 \<notin> \<Union> (set ` set (ax_execfn sample_aux # [[0x61]] @ [[0x62, 0x63]]))"
    by (simp add: sample_aux_fields)
  from auxv_lookup [OF sample_stack_ok(1) run this] run show ?thesis
    unfolding sample_aux_fields length_replicate by blast
qed

end
