(* ===== verification/Programs.thy ===== *)
theory Programs
  imports Fake_Fs Loading Initial_Stack
begin

text \<open>
  The properties of loading a whole program, on the file system and the address space of the tests:
  a failure leaves nothing behind, a success puts program and interpreter side by side with both
  files intact, and the stack the program starts on tells it the truth about both.
\<close>

section \<open>Both images in place\<close>

text \<open>The bytes and the protection of every loadable segment, read off the file's content.\<close>

definition shows_file :: "u64 \<Rightarrow> State \<Rightarrow> Image \<Rightarrow> Loaded \<Rightarrow> bytes \<Rightarrow> bool" where
  "shows_file ps st img l data \<longleftrightarrow>
     (\<forall>i\<in>set (loads img). \<forall>k. unat (p_vaddr (phdrs img ! i)) + k < seg_hi ps (phdrs img ! i) \<longrightarrow>
        fake_cells st (unat (p_vaddr (phdrs img ! i)) + unat (bias (ld_plan l)) + k) =
          Some (prot_of (phdrs img ! i),
            if k < unat (p_filesz (phdrs img ! i)) then data ! (unat (p_offset (phdrs img ! i)) + k) else 0))"

lemma shows_fileI:
  assumes "is_power_of_two ps" and "map_of table fd = Some data" and "Image_parse arch heap (slice_source data) ps = Ok img"
    and "shows_segments ps (fake_cells st) (file_byte (map_of table) fd) img (bias (ld_plan l))"
  shows "shows_file ps st img l data"
  unfolding shows_file_def
proof (intro ballI allI impI)
  fix i k assume i: "i \<in> set (loads img)" and k: "unat (p_vaddr (phdrs img ! i)) + k < seg_hi ps (phdrs img ! i)"
  let ?ph = "phdrs img ! i"
  have "in_file (src_size (slice_source data)) ?ph" using Image_parse_loads(3) [OF assms(1,3) i] by simp
  then have "unat (p_offset ?ph) + unat (p_filesz ?ph) \<le> unat (of_nat (length data) :: u64)"
    by (simp add: in_file_def slice_source_def)
  also have "\<dots> \<le> length data" by (simp add: unat_of_nat)
  finally have "unat (p_offset ?ph) + unat (p_filesz ?ph) \<le> length data" .
  with assms(2,4) i k show "fake_cells st (unat (p_vaddr ?ph) + unat (bias (ld_plan l)) + k) =
      Some (prot_of ?ph, if k < unat (p_filesz ?ph) then data ! (unat (p_offset ?ph) + k) else 0)"
    by (auto simp: shows_segments_def file_byte_def)
qed

lemmas fake_frame = fake_host.load_mapped_frame [unfolded fake_vm_ops(1)]

section \<open>A program and its interpreter\<close>

definition sample_table :: "(i32 \<times> bytes) list" where
  "sample_table = [(3, sample_elf), (4, ld_elf)]"

definition sample_fs :: FakeFs where
  "sample_fs = \<lparr> ff_files = [[0x2f, 0x70] \<mapsto> sample_elf, [0x2f, 0x6c, 0x64, 0x2e, 0x73, 0x6f] \<mapsto> ld_elf],
     ff_mappable = True \<rparr>"

definition lone_fs :: FakeFs where
  "lone_fs = \<lparr> ff_files = [[0x2f, 0x70] \<mapsto> sample_elf], ff_mappable = True \<rparr>"

text \<open>Both are what the tests build with \<open>FakeFs::add\<close>.\<close>

lemma sample_fs_added:
  "FakeFs_add [0x2f, 0x6c, 0x64, 0x2e, 0x73, 0x6f] ld_elf 4
     (FakeFs_add [0x2f, 0x70] sample_elf 3 (FakeFs_new True, [])) = (sample_fs, sample_table)"
  "FakeFs_add [0x2f, 0x70] sample_elf 3 (FakeFs_new True, []) = (lone_fs, [(3, sample_elf)])"
  by (simp_all add: FakeFs_add_def FakeFs_new_def sample_fs_def lone_fs_def sample_table_def)

lemma elf_neq: "sample_elf \<noteq> ld_elf"
proof
  assume "sample_elf = ld_elf"
  then have "sample_elf ! 248 = ld_elf ! 248" by simp
  then show False by (simp add: sample_elf_def ld_elf_def nth_append)
qed

lemma sample_table_files: "map_of sample_table = sample_files"
  by (auto simp: sample_table_def sample_files_def install_def fun_eq_iff)

lemma sample_fs_ready:
  "fs_ready OtherArch any_heap sample_fv sample_fs sample_table"
  "fs_ready OtherArch any_heap sample_fv lone_fs sample_table"
proof -
  have "img_lo 64 sample_image < img_hi 64 sample_image" "img_lo 64 ld_image < img_hi 64 ld_image"
    using va_span_wf(1) [OF sample_wf, of 0 512] va_span_wf(1) [OF ld_wf, of 0 512]
    by (simp_all add: sample_reserve ld_facts)
  then show "fs_ready OtherArch any_heap sample_fv sample_fs sample_table"
    "fs_ready OtherArch any_heap sample_fv lone_fs sample_table"
    by (auto simp: fs_ready_def sample_fv_def sample_fs_def lone_fs_def sample_table_def sample_parse ld_parse
        split: if_splits)
qed

lemma sample_opens:
  "op_open (fake_opener sample_fs sample_table) [0x2f, 0x70] st
     = (Ok \<lparr> op_src = slice_source sample_elf, op_fd = Some 3, op_owned = None \<rparr>, st)"
  "op_open (fake_opener lone_fs sample_table) [0x2f, 0x70] st
     = (Ok \<lparr> op_src = slice_source sample_elf, op_fd = Some 3, op_owned = None \<rparr>, st)"
  "op_open (fake_opener sample_fs sample_table) [0x2f, 0x6c, 0x64, 0x2e, 0x73, 0x6f] st
     = (Ok \<lparr> op_src = slice_source ld_elf, op_fd = Some 4, op_owned = None \<rparr>, st)"
  "op_open (fake_opener lone_fs sample_table) [0x2f, 0x6c, 0x64, 0x2e, 0x73, 0x6f] st = (Err ENOENT, st)"
  "op_drop (fake_opener fs sample_table) op st = (Ok (), st)"
  using elf_neq
  by (simp_all add: fake_opener_def sample_fs_def lone_fs_def sample_table_def find_fd_def)

lemma sample_checks:
  "check_stack_request sample_image = Ok ()" "needs_interp sample_image" "\<not> needs_interp ld_image"
  "interp_path any_heap sample_image (slice_source sample_elf) = Ok [0x2f, 0x6c, 0x64, 0x2e, 0x73, 0x6f]"
  "psub (end_addr sample_plan) (base sample_plan) = (Ok 512 :: (u64, error) result)"
  "entry_is_executable sample_image sample_plan = Ok True"
proof -
  show "interp_path any_heap sample_image (slice_source sample_elf) = Ok [0x2f, 0x6c, 0x64, 0x2e, 0x73, 0x6f]"
    by (simp add: interp_path_def sample_image_def sample_phdrs_def sample_phdr_def any_heap_def
        slice_source_def sample_read_interp)
qed (simp_all add: check_stack_request_def sample_image_def needs_interp_def ld_image_def sample_plan_def word_eval
    entry_is_executable_def seg_range_def prot_defs)

definition sample_program :: LoadedProgram where
  "sample_program = \<lparr> lp_image = sample_image, lp_main = sample_loaded, lp_interp = Some (ld_image, ld_loaded),
     lp_interp_path = Some [0x2f, 0x6c, 0x64, 0x2e, 0x73, 0x6f] \<rparr>"

lemma sample_run:
  obtains st' where "load_program OtherArch any_heap (fake_opener sample_fs sample_table)
      (fake_vm sample_fv (map_of sample_table)) [0x2f, 0x70] sample_state = (Ok sample_program, st')"
proof -
  obtain st' where ld: "load_image (fake_vm sample_fv sample_files) any_heap ld_image (slice_source ld_elf) (Some 4)
      sample_loaded_state = (Ok ld_loaded, st')" by (rule ld_load)
  have "load_interp OtherArch any_heap (fake_opener sample_fs sample_table) (fake_vm sample_fv sample_files) 64
      [0x2f, 0x6c, 0x64, 0x2e, 0x73, 0x6f] sample_loaded_state = (Ok (ld_image, ld_loaded), st')"
    by (simp add: load_interp_def with_opened_def sbind_def sfinally_def sample_opens ld_parse ld_facts sample_checks ld)
  then show thesis
    by (intro that [of st']) (simp add: load_program_def Let_def with_opened_def sbind_def sfinally_def sample_opens
        sample_table_files sample_inv sample_parse sample_checks sample_load son_err_def sample_program_def
        sample_loaded_def)
qed

lemma lone_run:
  "load_program OtherArch any_heap (fake_opener lone_fs sample_table) (fake_vm sample_fv (map_of sample_table))
     [0x2f, 0x70] sample_state
   = (Err ENOENT, sample_loaded_state\<lparr> st_regions := [],
        st_log := st_log sample_loaded_state @ [OpUnmap 4160 576] \<rparr>)"
proof -
  have "load_interp OtherArch any_heap (fake_opener lone_fs sample_table) (fake_vm sample_fv sample_files) 64
      [0x2f, 0x6c, 0x64, 0x2e, 0x73, 0x6f] sample_loaded_state = (Err ENOENT, sample_loaded_state)"
    by (simp add: load_interp_def with_opened_def sbind_def sample_opens)
  moreover have "ld_plan sample_loaded = sample_plan" by (simp add: sample_loaded_def)
  ultimately show ?thesis
    by (simp add: load_program_def Let_def with_opened_def sbind_def sfinally_def sample_opens sample_table_files
        sample_inv sample_parse sample_checks sample_load son_err_def sdiscard_def sample_unload)
qed

section \<open>Properties\<close>



text \<open>
  C7. A loaded program is complete and intact: when loading succeeds, every segment of the program
  shows the bytes of the program's file and has the protection its flags ask for, also after the
  interpreter has been loaded; there is an interpreter exactly when the program asks for one, it
  is the file the program names, position-independent and without an interpreter of its own; its
  segments show the bytes of its file; and the two reservations do not overlap.
\<close>

theorem loaded_program_is_intact:
  assumes "fs_ready arch heap fv fs table" and "fake_inv st"
    and "load_program arch heap (fake_opener fs table) (fake_vm fv (map_of table)) path st = (Ok p, st')"
  shows "(\<exists>data. ff_files fs path = Some data \<and> shows_file (fv_page fv) st' (lp_image p) (lp_main p) data)
    \<and> (case lp_interp p of
         None \<Rightarrow> \<not> needs_interp (lp_image p)
       | Some (iimg, il) \<Rightarrow>
           needs_interp (lp_image p) \<and> e_type (ehdr iimg) = ET_DYN \<and> \<not> needs_interp iimg
           \<and> (\<exists>ip data. lp_interp_path p = Some ip \<and> ff_files fs ip = Some data
                \<and> shows_file (fv_page fv) st' iimg il data)
           \<and> (\<forall>x. \<not> (in_reservation (lp_main p) x \<and> in_reservation il x)))"
proof -
  have pow: "is_power_of_two (fv_page fv)" using assms(1) by (simp add: fs_ready_def)
  have opened: "\<exists>data. ff_files fs q = Some data \<and> shows_file (fv_page fv) st' img l data"
    if opn: "op_open (fake_opener fs table) q s1 = (Ok op, s2)" "op_fd op = Some fd"
      "Image_parse arch heap (op_src op) (fv_page fv) = Ok img"
      "shows_segments (fv_page fv) (fake_cells st') (file_byte (map_of table) fd) img (bias (ld_plan l))"
    for q s1 op s2 fd img l
  proof -
    obtain data where "ff_files fs q = Some data" "op_src op = slice_source data" "map_of table fd = Some data"
      using fake_open_Ok [OF assms(1) opn(1)] opn(2) by (metis option.inject)
    with shows_fileI [OF pow _ _ opn(4)] opn(3) show ?thesis by auto
  qed
  note placed = fake_host.program_in_place [OF fake_ready [OF assms(1)] assms(2,3), unfolded fake_vm_ops(1)]
  from placed(3) opened have "\<exists>data. ff_files fs path = Some data \<and> shows_file (fv_page fv) st' (lp_image p) (lp_main p) data"
    by blast
  with placed(4) opened show ?thesis by (auto split: option.splits)
qed

theorem loaded_program_is_intact_witness:
  "\<exists>st'. load_program OtherArch any_heap (fake_opener sample_fs sample_table)
      (fake_vm sample_fv (map_of sample_table)) [0x2f, 0x70] sample_state = (Ok sample_program, st')
     \<and> shows_file 64 st' sample_image sample_loaded sample_elf \<and> shows_file 64 st' ld_image ld_loaded ld_elf"
proof -
  obtain st' where run: "load_program OtherArch any_heap (fake_opener sample_fs sample_table)
      (fake_vm sample_fv (map_of sample_table)) [0x2f, 0x70] sample_state = (Ok sample_program, st')"
    by (rule sample_run)
  from loaded_program_is_intact [OF sample_fs_ready(1) sample_inv(1) run] run show ?thesis
    by (auto simp: sample_program_def sample_inv(2) sample_fs_def)
qed


definition sample_env :: Environment where
  "sample_env = \<lparr> en_page_size = 64, en_platform = [0x78], en_execfn = [0x2f, 0x70], en_random = replicate 16 7,
     en_uid = 0, en_gid = 0, en_hwcap = (0, 0), en_sysinfo_ehdr = None \<rparr>"


end
