(* ===== verification/Util.thy ===== *)
theory Util
  imports Prelude
begin

text \<open>
  The pure string helpers of \<open>rust/src/util.rs\<close>: \<open>basename\<close>, \<open>is_bare_name\<close>, the \<open>$PATH\<close>
  candidates and the printable form of a byte string. The lemmas relate \<open>basename\<close> to its
  specification (the last non-empty component), show that a candidate is the directory and the
  name joined by exactly one slash, and that splitting the search path loses nothing.
\<close>

section \<open>Definitions\<close>

abbreviation slash :: u8 where "slash \<equiv> 0x2f"
abbreviation colon :: u8 where "colon \<equiv> 0x3a"
abbreviation dot :: u8 where "dot \<equiv> 0x2e"

text \<open>\<open>Iterator::rposition\<close>: the index of the last element that satisfies the predicate.\<close>

primrec rposition :: "('a \<Rightarrow> bool) \<Rightarrow> 'a list \<Rightarrow> nat option" where
  "rposition P [] = None"
| "rposition P (x # xs) =
     (case rposition P xs of
        Some i \<Rightarrow> Some (Suc i)
      | None \<Rightarrow> if P x then Some 0 else None)"

definition basename :: "bytes \<Rightarrow> bytes" where
  "basename path =
    (let end_ix = (case rposition (\<lambda>c. c \<noteq> slash) path of Some i \<Rightarrow> i + 1 | None \<Rightarrow> 0);
         stripped = take end_ix path
     in case rposition (\<lambda>c. c = slash) stripped of
          Some i \<Rightarrow> drop (i + 1) stripped
        | None \<Rightarrow> stripped)"

definition is_bare_name :: "bytes \<Rightarrow> bool" where
  "is_bare_name name \<longleftrightarrow>
     name \<noteq> [] \<and> name ! 0 \<noteq> slash \<and> name ! 0 \<noteq> dot \<and> slash \<notin> set name"

text \<open>\<open>slice::split\<close>: the pieces between separators, at least one.\<close>

fun split_on :: "'a \<Rightarrow> 'a list \<Rightarrow> 'a list list" where
  "split_on c [] = [[]]"
| "split_on c (x # xs) =
     (if x = c then [] # split_on c xs
      else case split_on c xs of
             [] \<Rightarrow> [[x]]
           | p # ps \<Rightarrow> (x # p) # ps)"

definition path_candidate :: "heap \<Rightarrow> bytes \<Rightarrow> bytes \<Rightarrow> bytes option" where
  "path_candidate heap name dir =
    (if \<not> heap AllocCandidate (length dir + 1 + length name) then None
     else let cand = (if dir = [] then [dot] else dir);
              cand = (if last cand \<noteq> slash then cand @ [slash] else cand)
          in Some (cand @ name))"

definition path_candidates :: "heap \<Rightarrow> bytes \<Rightarrow> bytes \<Rightarrow> bytes list" where
  "path_candidates heap name path_env =
     List.map_filter (path_candidate heap name) (split_on colon path_env)"

text \<open>\<open>Show\<close>: what is printed for a byte string, one character per byte.\<close>

definition show_byte :: "u8 \<Rightarrow> char" where
  "show_byte b = (if 0x20 \<le> b \<and> b < 0x7f then char_of (unat b) else CHR ''?'')"

definition Show :: "bytes \<Rightarrow> string" where
  "Show bs = map show_byte bs"

section \<open>Facts about the helpers\<close>

lemma rposition_append:
  "rposition P (xs @ ys) =
     (case rposition P ys of Some i \<Rightarrow> Some (length xs + i) | None \<Rightarrow> rposition P xs)"
  by (induction xs) (auto split: option.splits)

lemma rposition_None: "rposition P xs = None \<longleftrightarrow> (\<forall>x\<in>set xs. \<not> P x)"
  by (induction xs) (auto split: option.splits)

text \<open>The prefix up to the last hit, and the part after it, read from the end of the list.\<close>

lemma rposition_split:
  "(case rposition P xs of Some i \<Rightarrow> take (i + 1) xs | None \<Rightarrow> []) = rev (dropWhile (\<lambda>x. \<not> P x) (rev xs))
   \<and> (case rposition P xs of Some i \<Rightarrow> drop (i + 1) xs | None \<Rightarrow> xs) = rev (takeWhile (\<lambda>x. \<not> P x) (rev xs))"
proof (induction xs rule: rev_induct)
  case Nil
  then show ?case by simp
next
  case (snoc x xs)
  show ?case
  proof (cases "P x")
    case True
    then show ?thesis by (simp add: rposition_append)
  next
    case False
    moreover have "i < length xs" if "rposition P xs = Some i" for i
      using that by (induction xs arbitrary: i) (auto split: option.splits if_splits)
    ultimately show ?thesis using snoc
      by (auto simp: rposition_append split: option.splits)
  qed
qed

lemma split_on_nonempty [simp]: "split_on c xs \<noteq> []"
  by (induction xs) (auto split: list.splits)

lemma length_split_on: "length (split_on c xs) = count_list xs c + 1"
  by (induction xs) (auto split: list.splits simp: split_on_nonempty)

lemma split_on_parts: "p \<in> set (split_on c xs) \<Longrightarrow> c \<notin> set p"
proof (induction xs arbitrary: p)
  case (Cons x xs)
  then show ?case by (cases "split_on c xs") (auto split: if_splits)
qed simp

primrec join_with :: "'a \<Rightarrow> 'a list list \<Rightarrow> 'a list" where
  "join_with c [] = []"
| "join_with c (p # ps) = p @ (if ps = [] then [] else c # join_with c ps)"

lemma join_split_on: "join_with c (split_on c xs) = xs"
proof (induction xs)
  case (Cons x xs)
  then show ?case by (cases "split_on c xs") (auto split: if_splits)
qed simp

lemma basename_after_slash:
  assumes "slash \<notin> set name" and "name \<noteq> []"
  shows "rev (takeWhile (\<lambda>c. c \<noteq> slash) (dropWhile (\<lambda>c. c = slash) (rev (dir @ slash # name)))) = name"
proof -
  have "dropWhile (\<lambda>c. c = slash) (rev name @ slash # rev dir) = rev name @ slash # rev dir"
    using assms by (cases name rule: rev_cases) auto
  moreover have "takeWhile (\<lambda>c. c \<noteq> slash) (rev name @ slash # rev dir) = rev name"
    using assms by (subst takeWhile_append2) auto
  ultimately show ?thesis by simp
qed

text \<open>A candidate is some directory, one slash, and the name.\<close>

lemma path_candidate_shape:
  assumes "path_candidate heap name dir = Some cand"
  shows "\<exists>d. cand = d @ slash # name
    \<and> (if dir = [] then d = [dot] else dir \<in> {d, d @ [slash]})"
proof (cases "dir = []")
  case True
  with assms show ?thesis by (auto simp: path_candidate_def split: if_splits)
next
  case False
  show ?thesis
  proof (cases "last dir = slash")
    case True
    with assms False have "cand = dir @ name" "dir = butlast dir @ [slash]"
      by (auto simp: path_candidate_def Let_def split: if_splits) (metis append_butlast_last_id)
    then have "cand = butlast dir @ slash # name" by (metis append.assoc append_Cons append_Nil)
    with \<open>dir = butlast dir @ [slash]\<close> False show ?thesis by auto
  next
    case neq: False
    with assms False show ?thesis
      by (auto simp: path_candidate_def Let_def split: if_splits)
  qed
qed

lemma basename_rev:
  "basename path =
     rev (takeWhile (\<lambda>c. c \<noteq> slash) (dropWhile (\<lambda>c. c = slash) (rev path)))"
proof -
  define stripped where
    "stripped = take (case rposition (\<lambda>c. c \<noteq> slash) path of Some i \<Rightarrow> i + 1 | None \<Rightarrow> 0) path"
  have "stripped = rev (dropWhile (\<lambda>c. c = slash) (rev path))"
    using rposition_split [where P = "\<lambda>c. c \<noteq> slash" and xs = path]
    by (auto simp: stripped_def split: option.splits)
  moreover have "basename path = rev (takeWhile (\<lambda>c. c \<noteq> slash) (rev stripped))"
    using rposition_split [where P = "\<lambda>c. c = slash" and xs = stripped]
    unfolding basename_def Let_def stripped_def [symmetric] by simp
  ultimately show ?thesis by simp
qed

lemma all_slashes: "rev (takeWhile (\<lambda>c. c = slash) xs) = replicate (length (takeWhile (\<lambda>c. c = slash) xs)) slash"
  by (rule replicate_eqI [symmetric, THEN sym]) (auto dest: set_takeWhileD)

lemma path_candidates_map:
  assumes "\<forall>n. heap AllocCandidate n"
  shows "path_candidates heap name env
    = map (\<lambda>dir. the (path_candidate heap name dir)) (split_on colon env)"
    and "path_candidate heap name dir = Some (the (path_candidate heap name dir))"
proof -
  show "path_candidate heap name dir = Some (the (path_candidate heap name dir))" for dir
    using assms by (simp add: path_candidate_def)
  then show "path_candidates heap name env
    = map (\<lambda>dir. the (path_candidate heap name dir)) (split_on colon env)"
    unfolding path_candidates_def List.map_filter_def by (subst filter_True) (auto simp: o_def)
qed

section \<open>Properties\<close>

text \<open>
  C40. \<open>basename\<close> is the last component of a path: the path is a directory part that is empty
  or ends in a slash, the basename, which holds no slash, and trailing slashes; and the basename
  is empty only for a path of slashes.
\<close>

theorem basename_component:
  "\<exists>d n. path = d @ basename path @ replicate n slash
     \<and> slash \<notin> set (basename path)
     \<and> (d = [] \<or> last d = slash)
     \<and> (basename path = [] \<longrightarrow> d = [])"
proof -
  define tail where "tail = dropWhile (\<lambda>c. c = slash) (rev path)"
  define n where "n = length (takeWhile (\<lambda>c. c = slash) (rev path))"
  define d where "d = rev (dropWhile (\<lambda>c. c \<noteq> slash) tail)"
  have base: "basename path = rev (takeWhile (\<lambda>c. c \<noteq> slash) tail)"
    by (simp add: basename_rev tail_def)
  have "rev path = takeWhile (\<lambda>c. c = slash) (rev path) @ tail"
    by (simp add: tail_def)
  then have "path = rev tail @ replicate n slash"
    by (metis all_slashes n_def rev_append rev_rev_ident)
  moreover have "rev tail = d @ basename path"
    by (simp add: base d_def flip: rev_append)
  moreover have "slash \<notin> set (basename path)"
    by (auto simp: base dest: set_takeWhileD)
  moreover have "d = [] \<or> last d = slash"
    using hd_dropWhile [of "\<lambda>c. c \<noteq> slash" tail] by (auto simp: d_def last_rev)
  moreover have "basename path = [] \<longrightarrow> d = []"
  proof
    assume "basename path = []"
    then have "takeWhile (\<lambda>c. c \<noteq> slash) tail = []" by (simp add: base)
    moreover have "tail = [] \<or> hd tail \<noteq> slash"
      using hd_dropWhile [of "\<lambda>c. c = slash" "rev path"] by (auto simp: tail_def)
    ultimately have "tail = []" by (cases tail) auto
    then show "d = []" by (simp add: d_def)
  qed
  ultimately show ?thesis by auto
qed

theorem basename_component_witness:
  "\<exists>d n. [0x2f, 0x61, 0x2f, 0x62, 0x2f] = d @ basename [0x2f, 0x61, 0x2f, 0x62, 0x2f] @ replicate n slash
     \<and> slash \<notin> set (basename [0x2f, 0x61, 0x2f, 0x62, 0x2f])
     \<and> (d = [] \<or> last d = slash)
     \<and> (basename [0x2f, 0x61, 0x2f, 0x62, 0x2f] = [] \<longrightarrow> d = [])"
  by (rule basename_component)



end
