(* ===== verification/Sys.thy ===== *)
theory Sys
  imports Util Program
begin

text \<open>
  The Unikraft side, \<open>rust/src/sys.rs\<close>: the implementations of the address space, of the image
  sources and of the stack on top of the C functions of \<open>glue/shim.c\<close>, and the helpers for C
  strings, the environment and the search path.

  The C functions are not part of the Rust code: they are the fields of a record \<open>Shim\<close>, each a
  function on the whole machine. A machine is its memory, the cached configuration, the programs
  boxed on the heap, and the state of the kernel, of which nothing is known. Raw pointers are
  addresses into the memory; a string that is passed to C is passed as its bytes with the NUL.
\<close>

section \<open>The machine and the C functions\<close>

record Cfg =
  stack_len :: u32
  cf_page_size :: u32
  cf_uid :: u32
  cf_gid :: u32
  have_vfs :: u8
  have_mmap :: u8
  have_vmem :: u8
  have_environ :: u8
  have_random :: u8
  have_pthread :: u8
  vfsexec :: u8
  customappname :: u8
  envpath :: u8
  envpwd :: u8
  execbit :: u8
  cf_debug :: u8
  vfsexec_path :: u64
  vdso_addr :: u64

record 'k Machine =
  mc_mem :: "u64 \<Rightarrow> u8"
  mc_cfg :: "Cfg option"
  mc_boxes :: "u64 \<Rightarrow> LoadedProgram option"
  mc_kernel :: 'k

type_synonym ('k, 'a) ccall = "'k Machine \<Rightarrow> 'a \<times> 'k Machine"

record 'k Shim =
  elfrs_cfg_get :: "('k, Cfg) ccall"
  elfrs_memalign :: "u64 \<Rightarrow> u64 \<Rightarrow> ('k, u64) ccall"
  elfrs_free :: "u64 \<Rightarrow> ('k, unit) ccall"
  elfrs_map :: "u64 \<Rightarrow> u64 \<Rightarrow> i32 \<Rightarrow> i32 \<Rightarrow> i32 \<Rightarrow> i64 \<Rightarrow> i32 \<Rightarrow> ('k, u64 \<times> i32) ccall"
  elfrs_unmap :: "u64 \<Rightarrow> u64 \<Rightarrow> ('k, i32) ccall"
  elfrs_protect :: "u64 \<Rightarrow> u64 \<Rightarrow> i32 \<Rightarrow> ('k, i32) ccall"
  elfrs_open_ro :: "bytes \<Rightarrow> ('k, i32) ccall"
  elfrs_close :: "i32 \<Rightarrow> ('k, unit) ccall"
  elfrs_pread :: "i32 \<Rightarrow> u64 \<Rightarrow> i64 \<Rightarrow> ('k, i64 \<times> bytes) ccall"
  elfrs_fsize :: "i32 \<Rightarrow> ('k, i64) ccall"
  elfrs_fd_is_exec :: "i32 \<Rightarrow> ('k, i32) ccall"
  elfrs_path_is_exec :: "bytes \<Rightarrow> ('k, i32) ccall"
  elfrs_environ :: "('k, u64) ccall"
  elfrs_getenv :: "bytes \<Rightarrow> ('k, u64) ccall"
  elfrs_chdir :: "bytes \<Rightarrow> ('k, i32) ccall"
  elfrs_random_fill :: "u64 \<Rightarrow> ('k, i32 \<times> bytes) ccall"
  elfrs_initrd :: "('k, i32 \<times> u64 \<times> u64) ccall"
  elfrs_thread_create :: "bytes \<Rightarrow> u64 \<Rightarrow> ('k, u64) ccall"
  elfrs_thread_release :: "u64 \<Rightarrow> ('k, unit) ccall"
  elfrs_thread_ctx :: "u64 \<Rightarrow> ('k, u64) ccall"
  elfrs_thread_stack_base :: "u64 \<Rightarrow> ('k, u64) ccall"
  elfrs_thread_set_runnable :: "u64 \<Rightarrow> ('k, unit) ccall"
  elfrs_thread_make_pthread :: "u64 \<Rightarrow> ('k, i32) ccall"
  elfrs_thread_schedule :: "u64 \<Rightarrow> ('k, i32) ccall"
  elfrs_ctx_get_sp :: "u64 \<Rightarrow> ('k, u64) ccall"
  elfrs_ctx_init :: "u64 \<Rightarrow> u64 \<Rightarrow> u64 \<Rightarrow> ('k, unit) ccall"
  elfrs_icache_sync :: "u64 \<Rightarrow> u64 \<Rightarrow> ('k, unit) ccall"
  elfrs_hwcap :: "('k, u64) ccall"
  elfrs_hwcap2 :: "('k, u64) ccall"
  elfrs_platform :: "('k, u64) ccall"

definition MAP_ANON :: i32 where "MAP_ANON = 0"
definition MAP_FILE :: i32 where "MAP_FILE = 1"

definition call :: "('k, 'a) ccall \<Rightarrow> ('k Machine, 'a, error) action" where
  "call f = (\<lambda>m. case f m of (r, m') \<Rightarrow> (Ok r, m'))"

text \<open>The configuration is fetched once and cached.\<close>

definition cfg :: "'k Shim \<Rightarrow> ('k Machine, Cfg, error) action" where
  "cfg sh = (\<lambda>m. case mc_cfg m of
      Some c \<Rightarrow> (Ok c, m)
    | None \<Rightarrow> (case elfrs_cfg_get sh m of (c, m') \<Rightarrow> (Ok c, m'\<lparr> mc_cfg := Some c \<rparr>)))"

definition page_size :: "'k Shim \<Rightarrow> ('k Machine, u64, error) action" where
  "page_size sh = sbind (cfg sh) (\<lambda>c. sret (ucast (cf_page_size c)))"

section \<open>The heap\<close>

text \<open>
  The global allocator of \<open>rust/src/rt.rs\<close>, and a loaded program boxed with it: \<open>Box::new\<close> panics
  when the allocator has nothing left. The size of the box is the compiler's.
\<close>

definition UkHeap_alloc :: "'k Shim \<Rightarrow> u64 \<Rightarrow> u64 \<Rightarrow> ('k Machine, u64, error) action" where
  "UkHeap_alloc sh al bytes_wanted = call (elfrs_memalign sh al bytes_wanted)"

definition UkHeap_dealloc :: "'k Shim \<Rightarrow> u64 \<Rightarrow> ('k Machine, unit, error) action" where
  "UkHeap_dealloc sh ptr = call (elfrs_free sh ptr)"

definition Box_into_raw :: "'k Shim \<Rightarrow> u64 \<Rightarrow> LoadedProgram \<Rightarrow> ('k Machine, u64, error) action" where
  "Box_into_raw sh box_size p =
    sbind (UkHeap_alloc sh 8 box_size) (\<lambda>a.
    if a = 0 then slift Panic
    else (\<lambda>m. (Ok a, m\<lparr> mc_boxes := (mc_boxes m)(a \<mapsto> p) \<rparr>)))"

text \<open>Following a pointer to a box that is not there is undefined behaviour, here a panic.\<close>

definition Box_from_raw :: "u64 \<Rightarrow> ('k Machine, LoadedProgram, error) action" where
  "Box_from_raw a = (\<lambda>m. (case mc_boxes m a of Some p \<Rightarrow> Ok p | None \<Rightarrow> Panic, m))"

definition Box_drop :: "'k Shim \<Rightarrow> u64 \<Rightarrow> ('k Machine, unit, error) action" where
  "Box_drop sh a =
    sbind (\<lambda>m. (Ok (), m\<lparr> mc_boxes := (mc_boxes m)(a := None) \<rparr>)) (\<lambda>_. UkHeap_dealloc sh a)"

section \<open>C strings\<close>

definition CString_new :: "heap \<Rightarrow> bytes \<Rightarrow> (bytes, error) result" where
  "CString_new heap s =
    (if 0 \<in> set s then Err EINVAL
     else if \<not> heap AllocCString (length s + 1) then Err ENOMEM
     else Ok (s @ [0]))"

definition mem_bytes :: "(u64 \<Rightarrow> u8) \<Rightarrow> u64 \<Rightarrow> nat \<Rightarrow> bytes" where
  "mem_bytes mem p n = map (\<lambda>i. mem (p + of_nat i)) [0..<n]"

definition poke :: "u64 \<Rightarrow> bytes \<Rightarrow> (u64 \<Rightarrow> u8) \<Rightarrow> u64 \<Rightarrow> u8" where
  "poke a bs mem = (\<lambda>x. if unat (x - a) < length bs then bs ! unat (x - a) else mem x)"

text \<open>The loop of \<open>cstr\<close>: without a NUL in the whole of the memory its counter overflows.\<close>

function cstr_len :: "(u64 \<Rightarrow> u8) \<Rightarrow> u64 \<Rightarrow> nat \<Rightarrow> (nat, error) result" where
  "cstr_len mem p n =
    (if 2 ^ 64 \<le> n then Panic
     else if mem (p + of_nat n) = 0 then Ok n
     else cstr_len mem p (n + 1))"
  by pat_completeness auto

termination cstr_len
  by (relation "measure (\<lambda>(mem, p, n). 2 ^ 64 - n)") auto

declare cstr_len.simps [simp del]

definition cstr :: "(u64 \<Rightarrow> u8) \<Rightarrow> u64 \<Rightarrow> (bytes, error) result" where
  "cstr mem p =
    (if p = 0 then Ok []
     else rbind (cstr_len mem p 0) (\<lambda>n. Ok (mem_bytes mem p n)))"

text \<open>A string in the memory of the machine.\<close>

definition cstr_of :: "u64 \<Rightarrow> ('k Machine, bytes, error) action" where
  "cstr_of p = (\<lambda>m. (cstr (mc_mem m) p, m))"

definition read_ptr :: "(u64 \<Rightarrow> u8) \<Rightarrow> u64 \<Rightarrow> u64" where
  "read_ptr mem a = from_le_bytes (mem_bytes mem a 8)"

section \<open>The address space\<close>

definition uk_map :: "'k Shim \<Rightarrow> Where \<Rightarrow> u64 \<Rightarrow> u32 \<Rightarrow> MapSrc \<Rightarrow> ('k Machine, u64, error) action" where
  "uk_map sh at len p src =
    (let (addr, replace) = (case at of Anywhere \<Rightarrow> (0, 0) | Hint a \<Rightarrow> (a, 0) | Exact a \<Rightarrow> (a, 1));
         (kind, fd, off) = (case src of Anon \<Rightarrow> (MAP_ANON, - 1, 0) | File fd off \<Rightarrow> (MAP_FILE, fd, off))
     in sbind (call (elfrs_map sh addr len p kind fd off replace)) (\<lambda>(got, err).
        if got = 0 then
          slift (if 0 < sint err then Err (Error err)
                 else if err = 0x80000000 then Panic else Err (Error (- err)))
        else sret got))"

text \<open>The value of \<open>from_c\<close> is dropped.\<close>

definition c_status :: "i32 \<Rightarrow> (unit, error) result" where
  "c_status rc = rbind (from_c (scast rc)) (\<lambda>_. Ok ())"

definition uk_unmap :: "'k Shim \<Rightarrow> u64 \<Rightarrow> u64 \<Rightarrow> ('k Machine, unit, error) action" where
  "uk_unmap sh addr len = sbind (call (elfrs_unmap sh addr len)) (\<lambda>rc. slift (c_status rc))"

definition uk_protect :: "'k Shim \<Rightarrow> u64 \<Rightarrow> u64 \<Rightarrow> u32 \<Rightarrow> ('k Machine, unit, error) action" where
  "uk_protect sh addr len p = sbind (call (elfrs_protect sh addr len p)) (\<lambda>rc. slift (c_status rc))"

definition uk_write :: "u64 \<Rightarrow> bytes \<Rightarrow> ('k Machine, unit, error) action" where
  "uk_write addr data = (\<lambda>m. (Ok (), m\<lparr> mc_mem := poke addr data (mc_mem m) \<rparr>))"

definition uk_zero :: "u64 \<Rightarrow> u64 \<Rightarrow> ('k Machine, unit, error) action" where
  "uk_zero addr len = (\<lambda>m. (Ok (), m\<lparr> mc_mem := poke addr (replicate (unat len) 0) (mc_mem m) \<rparr>))"

definition uk_alloc_aligned :: "'k Shim \<Rightarrow> u64 \<Rightarrow> u64 \<Rightarrow> ('k Machine, u64, error) action" where
  "uk_alloc_aligned sh al len =
    sbind (call (elfrs_memalign sh al len)) (\<lambda>p. if p = 0 then slift (Err ENOMEM) else sret p)"

text \<open>The page size and the ability to map files come from the cached configuration.\<close>

definition UkVm :: "'k Shim \<Rightarrow> Cfg \<Rightarrow> 'k Machine Vm" where
  "UkVm sh c =
    \<lparr> vm_page_size = ucast (cf_page_size c),
      vm_map = uk_map sh,
      vm_unmap = uk_unmap sh,
      vm_protect = uk_protect sh,
      vm_write = uk_write,
      vm_zero = uk_zero,
      vm_icache_sync = (\<lambda>addr len. call (elfrs_icache_sync sh addr len)),
      vm_can_map_files = (have_mmap c \<noteq> 0),
      vm_alloc_aligned = uk_alloc_aligned sh,
      vm_free_aligned = (\<lambda>addr _. call (elfrs_free sh addr)) \<rparr>"

section \<open>Image sources\<close>

record SysFile =
  sf_fd :: i32
  sf_size :: "u64 option"

definition File_open :: "'k Shim \<Rightarrow> heap \<Rightarrow> bytes \<Rightarrow> ('k Machine, SysFile, error) action" where
  "File_open sh heap path =
    sbind (slift (CString_new heap path)) (\<lambda>c.
    sbind (call (elfrs_open_ro sh c)) (\<lambda>fd.
    if sint fd < 0 then slift (if fd = 0x80000000 then Panic else Err (Error (- fd)))
    else sbind (call (elfrs_fsize sh fd)) (\<lambda>size.
      sret \<lparr> sf_fd = fd, sf_size = (if 0 \<le> sint size then Some size else None) \<rparr>)))"

definition check_exec_bit :: "'k Shim \<Rightarrow> SysFile \<Rightarrow> ('k Machine, unit, error) action" where
  "check_exec_bit sh f =
    sbind (cfg sh) (\<lambda>c.
    if execbit c = 0 then sret ()
    else sbind (call (elfrs_fd_is_exec sh (sf_fd f))) (\<lambda>rc. slift (c_status rc)))"

definition File_drop :: "'k Shim \<Rightarrow> SysFile \<Rightarrow> ('k Machine, unit, error) action" where
  "File_drop sh f = call (elfrs_close sh (sf_fd f))"

text \<open>What a read leaves in the rest of the buffer.\<close>

definition filled :: "bytes \<Rightarrow> bytes \<Rightarrow> bytes" where
  "filled data buf = take (length buf) data @ drop (length data) buf"

lemma length_filled [simp]: "length (filled data buf) = length buf"
  by (simp add: filled_def)

text \<open>
  The loop of \<open>read_exact_at\<close>. It ends because every turn that goes on has read something; the
  position and the count may overflow, which is a panic.
\<close>

function pread_loop :: "'k Shim \<Rightarrow> i32 \<Rightarrow> u64 \<Rightarrow> nat \<Rightarrow> bytes \<Rightarrow> 'k Machine \<Rightarrow> (bytes, error) result \<times> 'k Machine" where
  "pread_loop sh fd off got buf m =
    (if got < length buf then
       if 2 ^ 64 \<le> unat off + got then (Panic, m)
       else case elfrs_pread sh fd (of_nat (length buf - got)) (off + of_nat got) m of ((n, data), m') \<Rightarrow>
         if n = 0 then (Err ENOEXEC, m')
         else if sint n < 0 then
           ((if n = 0x8000000000000000 then Panic else Err (Error (ucast (- n)))), m')
         else if 2 ^ 64 \<le> got + unat n then (Panic, m')
         else pread_loop sh fd off (got + unat n) (take got buf @ filled data (drop got buf)) m'
     else (Ok buf, m))"
  by pat_completeness auto

termination pread_loop
proof (relation "measure (\<lambda>(sh, fd, off, got, buf, m). length buf - got)", goal_cases)
  case (2 sh fd off got buf m r m' n data)
  then have "0 < unat n" by (simp add: unat_gt_0)
  with 2 show ?case by simp
qed simp

declare pread_loop.simps [simp del]

definition File_read_exact_at :: "'k Shim \<Rightarrow> SysFile \<Rightarrow> u64 \<Rightarrow> nat \<Rightarrow> ('k Machine, bytes, error) action" where
  "File_read_exact_at sh f off n = pread_loop sh (sf_fd f) off 0 (replicate n 0)"

text \<open>An open file as a source of image data: it is read in the state in which it was opened.\<close>

definition file_source :: "'k Shim \<Rightarrow> SysFile \<Rightarrow> 'k Machine \<Rightarrow> image_source" where
  "file_source sh f m =
    \<lparr> read_exact_at = (\<lambda>off n. fst (File_read_exact_at sh f off n m)), src_size = sf_size f \<rparr>"

definition mem_image :: "(u64 \<Rightarrow> u8) \<Rightarrow> u64 \<Rightarrow> u64 \<Rightarrow> image_source" where
  "mem_image mem start len =
    \<lparr> read_exact_at = (\<lambda>off n.
        if 2 ^ 64 \<le> unat off + n then Err ENOEXEC
        else if unat len < unat off + n then Err ENOEXEC
        else Ok (mem_bytes mem (start + off) n)),
      src_size = Some len \<rparr>"

section \<open>The application stack\<close>

definition AppStack_write :: "u64 \<Rightarrow> u64 \<Rightarrow> u64 \<Rightarrow> bytes \<Rightarrow> ('k Machine, unit, error) action" where
  "AppStack_write lo hi addr data = (\<lambda>m.
     let e = (if 2 ^ 64 \<le> unat addr + length data then - 1 else addr + of_nat (length data))
     in if addr < lo \<or> hi < e then (Err E2BIG, m)
        else (Ok (), m\<lparr> mc_mem := poke addr data (mc_mem m) \<rparr>))"

definition AppStack :: "u64 \<Rightarrow> u64 \<Rightarrow> 'k Machine StackWriter" where
  "AppStack lo hi = \<lparr> sw_top = (\<lambda>_. hi), sw_bottom = (\<lambda>_. lo), sw_write = AppStack_write lo hi \<rparr>"

section \<open>Environment, randomness and the search path\<close>

function environ_from :: "(u64 \<Rightarrow> u8) \<Rightarrow> u64 \<Rightarrow> nat \<Rightarrow> (bytes list, error) result" where
  "environ_from mem p i =
    (if 2 ^ 63 \<le> i then Panic
     else let e = read_ptr mem (p + 8 * of_nat i) in
       if e = 0 then Ok []
       else rbind (cstr mem e) (\<lambda>s.
            rbind (environ_from mem p (i + 1)) (\<lambda>ss. Ok (s # ss))))"
  by pat_completeness auto

termination environ_from
  by (relation "measure (\<lambda>(mem, p, i). 2 ^ 63 - i)") auto

declare environ_from.simps [simp del]

definition environ :: "'k Shim \<Rightarrow> ('k Machine, bytes list, error) action" where
  "environ sh =
    sbind (cfg sh) (\<lambda>c.
    if have_environ c = 0 then sret []
    else sbind (call (elfrs_environ sh)) (\<lambda>p.
      if p = 0 then sret [] else (\<lambda>m. (environ_from (mc_mem m) p 0, m))))"

definition getenv :: "'k Shim \<Rightarrow> heap \<Rightarrow> bytes \<Rightarrow> ('k Machine, bytes option, error) action" where
  "getenv sh heap name =
    sbind (cfg sh) (\<lambda>c.
    if have_environ c = 0 then sret None
    else case CString_new heap name of
      Ok cs \<Rightarrow> sbind (call (elfrs_getenv sh cs)) (\<lambda>p.
        if p = 0 then sret None else sbind (cstr_of p) (\<lambda>s. sret (Some s)))
    | _ \<Rightarrow> sret None)"

definition chdir :: "'k Shim \<Rightarrow> heap \<Rightarrow> bytes \<Rightarrow> ('k Machine, unit, error) action" where
  "chdir sh heap path =
    sbind (slift (CString_new heap path)) (\<lambda>cs.
    sbind (call (elfrs_chdir sh cs)) (\<lambda>rc. slift (c_status rc)))"

definition random_bytes :: "'k Shim \<Rightarrow> ('k Machine, bytes, error) action" where
  "random_bytes sh =
    (let fallback = [0xb0, 0xb0, 0x00, 0x00, 0x0d, 0xf0, 0x00, 0x00, 0xb0, 0xb0, 0x00, 0x00, 0x0d, 0xf0, 0x00, 0x00]
     in sbind (cfg sh) (\<lambda>c.
        if have_random c \<noteq> 0 then
          sbind (call (elfrs_random_fill sh 16)) (\<lambda>(rc, data).
          sret (if rc = 0 then filled data (replicate 16 0) else fallback))
        else sret fallback))"

definition platform :: "'k Shim \<Rightarrow> ('k Machine, bytes, error) action" where
  "platform sh = sbind (call (elfrs_platform sh)) cstr_of"

definition hwcap :: "'k Shim \<Rightarrow> ('k Machine, u64 \<times> u64, error) action" where
  "hwcap sh = sbind (call (elfrs_hwcap sh)) (\<lambda>a. sbind (call (elfrs_hwcap2 sh)) (\<lambda>b. sret (a, b)))"

primrec locate_among :: "'k Shim \<Rightarrow> heap \<Rightarrow> bytes list \<Rightarrow> ('k Machine, bytes option, error) action" where
  "locate_among sh heap [] = sret None"
| "locate_among sh heap (cand # cands) =
    (case CString_new heap cand of
       Ok c \<Rightarrow> sbind (call (elfrs_path_is_exec sh c)) (\<lambda>rc.
         if rc = 0 then sret (Some cand) else locate_among sh heap cands)
     | _ \<Rightarrow> locate_among sh heap cands)"

definition locate_in_path :: "'k Shim \<Rightarrow> heap \<Rightarrow> bytes \<Rightarrow> bytes \<Rightarrow> ('k Machine, bytes option, error) action" where
  "locate_in_path sh heap name path_env =
    (if \<not> is_bare_name name then sret None
     else locate_among sh heap (path_candidates heap name path_env))"

end
