(* ===== verification/App.thy ===== *)
theory App
  imports Sys
begin

text \<open>
  The program the unikernel boots into, \<open>rust/src/app.rs\<close>: the openers for files and for the
  initrd, the command line, the search path, and \<open>run\<close>, which loads the application, lays out its
  stack and starts its thread. A destructor that runs on an early return is written out: the file
  of a rejected program is closed, and the thread is released on every error after its creation.
\<close>

section \<open>Openers\<close>

definition VfsOpener_open :: "'k Shim \<Rightarrow> heap \<Rightarrow> bytes \<Rightarrow> ('k Machine, Opened, error) action" where
  "VfsOpener_open sh heap path =
    sbind (File_open sh heap path) (\<lambda>f.
    sbind (son_err (check_exec_bit sh f) (File_drop sh f)) (\<lambda>_.
    sbind (cfg sh) (\<lambda>c.
    (\<lambda>m. (Ok \<lparr> op_src = file_source sh f m, op_fd = (if have_mmap c \<noteq> 0 then Some (sf_fd f) else None),
               op_owned = Some (sf_fd f) \<rparr>, m)))))"

definition Opened_drop :: "'k Shim \<Rightarrow> Opened \<Rightarrow> ('k Machine, unit, error) action" where
  "Opened_drop sh op = (case op_owned op of None \<Rightarrow> sret () | Some fd \<Rightarrow> call (elfrs_close sh fd))"

definition VfsOpener :: "'k Shim \<Rightarrow> heap \<Rightarrow> 'k Machine Opener" where
  "VfsOpener sh heap = \<lparr> op_open = VfsOpener_open sh heap, op_drop = Opened_drop sh \<rparr>"

definition initrd_path :: bytes where
  "initrd_path = [0x3c, 0x69, 0x6e, 0x69, 0x74, 0x72, 0x64, 0x3e]"

definition InitrdOpener :: "'k Shim \<Rightarrow> u64 \<Rightarrow> u64 \<Rightarrow> 'k Machine Opener" where
  "InitrdOpener sh start len =
    \<lparr> op_open = (\<lambda>path m.
        if path \<noteq> initrd_path then (Err ENOENT, m)
        else (Ok \<lparr> op_src = mem_image (mc_mem m) start len, op_fd = None, op_owned = None \<rparr>, m)),
      op_drop = Opened_drop sh \<rparr>"

section \<open>The command line\<close>

text \<open>The strings an array of pointers leads to.\<close>

primrec cstrs :: "(u64 \<Rightarrow> u8) \<Rightarrow> u64 list \<Rightarrow> (bytes list, error) result" where
  "cstrs mem [] = Ok []"
| "cstrs mem (p # ps) = rbind (cstr mem p) (\<lambda>s. rbind (cstrs mem ps) (\<lambda>ss. Ok (s # ss)))"

definition pointers_at :: "(u64 \<Rightarrow> u8) \<Rightarrow> u64 \<Rightarrow> nat \<Rightarrow> u64 list" where
  "pointers_at mem p n = map (\<lambda>i. read_ptr mem (p + 8 * of_nat i)) [0..<n]"

definition collect_argv :: "(u64 \<Rightarrow> u8) \<Rightarrow> i32 \<Rightarrow> u64 \<Rightarrow> (bytes list, error) result" where
  "collect_argv mem argc argv =
    (if argv = 0 \<or> sint argc \<le> 0 then Ok []
     else cstrs mem (pointers_at mem argv (nat (sint argc))))"

record Target =
  tg_path :: bytes
  tg_progname :: bytes
  tg_rest :: "bytes list"

definition split_command_line :: "Cfg \<Rightarrow> (u64 \<Rightarrow> u8) \<Rightarrow> bytes list \<Rightarrow> (Target, error) result" where
  "split_command_line c mem args =
    (let initrd = (vfsexec c = 0) in
     if customappname c \<noteq> 0 then
       if length args < 2 then Err EINVAL
       else let named = args ! 1 in
         Ok \<lparr> tg_path = (if initrd then initrd_path else named),
              tg_progname = (if initrd then named else basename named),
              tg_rest = drop 2 args \<rparr>
     else
       if args = [] then Err EINVAL
       else rbind
         (if initrd then Ok (initrd_path, args ! 0)
          else rbind (cstr mem (vfsexec_path c)) (\<lambda>p.
               if p = [] then Err EINVAL else Ok (p, basename p)))
         (\<lambda>(path, progname). Ok \<lparr> tg_path = path, tg_progname = progname, tg_rest = drop 1 args \<rparr>))"

definition PATH_name :: bytes where "PATH_name = [0x50, 0x41, 0x54, 0x48]"
definition PWD_name :: bytes where "PWD_name = [0x50, 0x57, 0x44]"

definition resolve :: "'k Shim \<Rightarrow> heap \<Rightarrow> Target \<Rightarrow> ('k Machine, Target, error) action" where
  "resolve sh heap target =
    sbind (cfg sh) (\<lambda>c.
    if envpath c = 0 \<or> \<not> is_bare_name (tg_path target) then sret target
    else sbind (getenv sh heap PATH_name) (\<lambda>path_env.
      case path_env of
        None \<Rightarrow> sret target
      | Some env \<Rightarrow> sbind (locate_in_path sh heap (tg_path target) env) (\<lambda>found.
          sret (case found of Some full \<Rightarrow> target\<lparr> tg_path := full \<rparr> | None \<Rightarrow> target))))"

section \<open>Running the application\<close>

text \<open>\<open>Err(Error(-rc))\<close>, whose negation may overflow.\<close>

definition neg_error :: "i32 \<Rightarrow> ('a, error) result" where
  "neg_error rc = (if rc = 0x80000000 then Panic else Err (Error (- rc)))"

definition change_dir :: "'k Shim \<Rightarrow> heap \<Rightarrow> Cfg \<Rightarrow> ('k Machine, unit, error) action" where
  "change_dir sh heap c =
    (if envpwd c \<noteq> 0 then
       sbind (getenv sh heap PWD_name) (\<lambda>pwd.
       case pwd of None \<Rightarrow> sret () | Some d \<Rightarrow> chdir sh heap d)
     else sret ())"

definition load_target :: "target_arch \<Rightarrow> 'k Shim \<Rightarrow> heap \<Rightarrow> Cfg \<Rightarrow> Target \<Rightarrow> ('k Machine, LoadedProgram, error) action" where
  "load_target arch sh heap c target =
    (if vfsexec c \<noteq> 0 then load_program arch heap (VfsOpener sh heap) (UkVm sh c) (tg_path target)
     else sbind (call (elfrs_initrd sh)) (\<lambda>(rc, start, len).
       if sint rc < 0 \<or> start = 0 \<or> len = 0 then slift (Err ENOENT)
       else load_program arch heap (InitrdOpener sh start len) (UkVm sh c) initrd_path))"

definition app_environment :: "'k Shim \<Rightarrow> Cfg \<Rightarrow> bytes \<Rightarrow> ('k Machine, Environment, error) action" where
  "app_environment sh c execfn =
    sbind (platform sh) (\<lambda>plat.
    sbind (random_bytes sh) (\<lambda>rnd.
    sbind (hwcap sh) (\<lambda>hw.
    sret \<lparr> en_page_size = ucast (cf_page_size c), en_platform = plat, en_execfn = execfn, en_random = rnd,
           en_uid = ucast (cf_uid c), en_gid = ucast (cf_gid c), en_hwcap = hw,
           en_sysinfo_ehdr = (if vdso_addr c \<noteq> 0 then Some (vdso_addr c) else None) \<rparr>)))"

text \<open>
  \<open>run\<close> does not come back when it has started the application: it parks in the scheduler.
\<close>

datatype run_end = Returns | Parks

text \<open>From the finished stack to the scheduler.\<close>

definition start_thread ::
  "'k Shim \<Rightarrow> Cfg \<Rightarrow> u64 \<Rightarrow> u64 \<Rightarrow> LoadedProgram \<Rightarrow> StackLayout \<Rightarrow> ('k Machine, run_end, error) action" where
  "start_thread sh c thread ctx loaded layout =
    sbind (call (elfrs_ctx_init sh ctx (sl_sp layout) (lp_entry loaded))) (\<lambda>_.
    sbind (call (elfrs_thread_set_runnable sh thread)) (\<lambda>_.
    sbind
      (if have_pthread c \<noteq> 0 then
         sbind (call (elfrs_thread_make_pthread sh thread)) (\<lambda>rc.
         if rc \<noteq> 0 then sbind (unload_program (UkVm sh c) loaded) (\<lambda>_. slift (neg_error rc)) else sret ())
       else sret ()) (\<lambda>_.
    sbind (call (elfrs_thread_schedule sh thread)) (\<lambda>rc.
    if rc \<noteq> 0 then sbind (unload_program (UkVm sh c) loaded) (\<lambda>_. slift (neg_error rc))
    else sret Parks))))"

text \<open>From the loaded program to the finished stack.\<close>

definition start_app ::
  "target_arch \<Rightarrow> 'k Shim \<Rightarrow> heap \<Rightarrow> Cfg \<Rightarrow> Target \<Rightarrow> u64 \<Rightarrow> LoadedProgram \<Rightarrow> ('k Machine, run_end, error) action" where
  "start_app arch sh heap c target thread loaded =
    sbind (call (elfrs_thread_ctx sh thread)) (\<lambda>ctx.
    sbind (call (elfrs_thread_stack_base sh thread)) (\<lambda>stack_lo.
    sbind (call (elfrs_ctx_get_sp sh ctx)) (\<lambda>stack_hi.
    if stack_hi \<le> stack_lo then sbind (unload_program (UkVm sh c) loaded) (\<lambda>_. slift (Err EINVAL))
    else
      sbind (slift (guard (\<not> heap AllocAppArgv (length (tg_rest target) + 1)) ENOMEM)) (\<lambda>_.
      sbind (environ sh) (\<lambda>envp.
      sbind (app_environment sh c (tg_path target)) (\<lambda>env.
      sbind (slift (program_auxv arch loaded env)) (\<lambda>aux.
      sbind (son_err (build_stack heap (AppStack stack_lo stack_hi) (tg_progname target # tg_rest target) envp aux)
               (unload_program (UkVm sh c) loaded)) (\<lambda>layout.
      start_thread sh c thread ctx loaded layout))))))))"

text \<open>What comes before the thread: the configuration, what to run, and the name of the thread.\<close>

definition prepare :: "'k Shim \<Rightarrow> heap \<Rightarrow> bytes list \<Rightarrow> ('k Machine, Cfg \<times> Target \<times> bytes, error) action" where
  "prepare sh heap args =
    sbind (cfg sh) (\<lambda>c.
    sbind (\<lambda>m. (split_command_line c (mc_mem m) args, m)) (\<lambda>target.
    sbind (resolve sh heap target) (\<lambda>target.
    sbind (slift (CString_new heap (tg_progname target))) (\<lambda>cname.
    sret (c, target, cname)))))"

text \<open>The guard releases the thread unless the thread has been handed to the scheduler.\<close>

definition ThreadGuard_drop :: "'k Shim \<Rightarrow> u64 \<Rightarrow> ('k Machine, unit, error) action" where
  "ThreadGuard_drop sh thread = call (elfrs_thread_release sh thread)"

definition run :: "target_arch \<Rightarrow> 'k Shim \<Rightarrow> heap \<Rightarrow> bytes list \<Rightarrow> ('k Machine, run_end, error) action" where
  "run arch sh heap args =
    sbind (prepare sh heap args) (\<lambda>(c, target, cname).
    sbind (call (elfrs_thread_create sh cname (ucast (stack_len c)))) (\<lambda>thread.
    if thread = 0 then slift (Err ENOMEM)
    else son_err
      (sbind (change_dir sh heap c) (\<lambda>_.
       sbind (load_target arch sh heap c target) (\<lambda>loaded.
       start_app arch sh heap c target thread loaded)))
      (ThreadGuard_drop sh thread)))"

text \<open>The exit status, or \<open>None\<close> when the unikernel goes on running the application.\<close>

definition elfrs_main :: "target_arch \<Rightarrow> 'k Shim \<Rightarrow> heap \<Rightarrow> i32 \<Rightarrow> u64 \<Rightarrow> ('k Machine, i32 option, error) action" where
  "elfrs_main arch sh heap argc argv = (\<lambda>m.
    case collect_argv (mc_mem m) argc argv of
      Ok args \<Rightarrow> (case run arch sh heap args m of
          (Ok Returns, m') \<Rightarrow> (Ok (Some 0), m')
        | (Ok Parks, m') \<Rightarrow> (Ok None, m')
        | (Err e, m') \<Rightarrow> (Ok (Some (if errno e \<noteq> 0 then errno e else 1)), m')
        | (Panic, m') \<Rightarrow> (Panic, m'))
    | _ \<Rightarrow> (Panic, m))"

end
