(* ===== verification/Binfmt.thy ===== *)
theory Binfmt
  imports App
begin

text \<open>
  The binary format handler of \<open>rust/src/binfmt.rs\<close>, through which an \<open>execve\<close> of the running
  application comes back to the loader. The accessors of the arguments of the kernel's handler are
  C functions and form a record of their own.
\<close>

section \<open>The accessors\<close>

record 'k Binfmt =
  elfrs_binfmt_pathname :: "u64 \<Rightarrow> ('k, u64) ccall"
  elfrs_binfmt_progname :: "u64 \<Rightarrow> ('k, u64) ccall"
  elfrs_binfmt_argc :: "u64 \<Rightarrow> ('k, i32) ccall"
  elfrs_binfmt_argv :: "u64 \<Rightarrow> ('k, u64) ccall"
  elfrs_binfmt_envc :: "u64 \<Rightarrow> ('k, i32) ccall"
  elfrs_binfmt_envp :: "u64 \<Rightarrow> ('k, u64) ccall"
  elfrs_binfmt_ctx :: "u64 \<Rightarrow> ('k, u64) ccall"
  elfrs_binfmt_stack_size :: "u64 \<Rightarrow> ('k, u64) ccall"
  elfrs_binfmt_set_user :: "u64 \<Rightarrow> u64 \<Rightarrow> ('k, unit) ccall"
  elfrs_binfmt_get_user :: "u64 \<Rightarrow> ('k, u64) ccall"

definition HANDLED :: i32 where "HANDLED = 0"
definition NOT_HANDLED :: i32 where "NOT_HANDLED = 1"

definition vec_from_c :: "u64 \<Rightarrow> i32 \<Rightarrow> ('k Machine, bytes list, error) action" where
  "vec_from_c p n = (\<lambda>m.
    (if p = 0 \<or> sint n \<le> 0 then Ok [] else cstrs (mc_mem m) (pointers_at (mc_mem m) p (nat (sint n))), m))"

section \<open>The opener\<close>

text \<open>The executable bit has been checked by the kernel.\<close>

definition BinfmtOpener :: "'k Shim \<Rightarrow> heap \<Rightarrow> 'k Machine Opener" where
  "BinfmtOpener sh heap =
    \<lparr> op_open = (\<lambda>path.
        sbind (File_open sh heap path) (\<lambda>f.
        sbind (cfg sh) (\<lambda>c.
        (\<lambda>m. (Ok \<lparr> op_src = file_source sh f m, op_fd = (if have_mmap c \<noteq> 0 then Some (sf_fd f) else None),
                   op_owned = Some (sf_fd f) \<rparr>, m))))),
      op_drop = Opened_drop sh \<rparr>"

section \<open>Loading\<close>

text \<open>What the kernel asks for: the path, the name, the arguments and the environment.\<close>

definition binfmt_request ::
  "'k Binfmt \<Rightarrow> u64 \<Rightarrow> ('k Machine, bytes \<times> bytes \<times> bytes list \<times> bytes list, error) action" where
  "binfmt_request bf args =
    sbind (call (elfrs_binfmt_pathname bf args)) (\<lambda>pp.
    sbind (cstr_of pp) (\<lambda>path.
    sbind (call (elfrs_binfmt_progname bf args)) (\<lambda>np.
    sbind (cstr_of np) (\<lambda>progname_raw.
    let progname = (if progname_raw = [] then basename path else progname_raw) in
    sbind (call (elfrs_binfmt_argv bf args)) (\<lambda>ap.
    sbind (call (elfrs_binfmt_argc bf args)) (\<lambda>argc.
    sbind (vec_from_c ap argc) (\<lambda>argv.
    sbind (call (elfrs_binfmt_envp bf args)) (\<lambda>ep.
    sbind (call (elfrs_binfmt_envc bf args)) (\<lambda>envc.
    sbind (vec_from_c ep envc) (\<lambda>envp.
    sret (path, progname, argv, envp)))))))))))"

definition binfmt_load ::
  "target_arch \<Rightarrow> 'k Shim \<Rightarrow> 'k Binfmt \<Rightarrow> heap \<Rightarrow> u64 \<Rightarrow> u64 \<Rightarrow> ('k Machine, i32, error) action" where
  "binfmt_load arch sh bf heap box_size args =
    sbind (cfg sh) (\<lambda>c.
    sbind (binfmt_request bf args) (\<lambda>(path, progname, argv, envp).
    sbind (load_program arch heap (BinfmtOpener sh heap) (UkVm sh c) path) (\<lambda>loaded.
    sbind (call (elfrs_binfmt_ctx bf args)) (\<lambda>ctx.
    sbind (call (elfrs_ctx_get_sp sh ctx)) (\<lambda>sp_top.
    sbind (call (elfrs_binfmt_stack_size bf args)) (\<lambda>stack_size.
    if sp_top < stack_size then sbind (unload_program (UkVm sh c) loaded) (\<lambda>_. slift (Err EINVAL))
    else
      let argv_ref = (if argv = [] then [progname] else argv) in
      sbind (app_environment sh c path) (\<lambda>env.
      sbind (slift (program_auxv arch loaded env)) (\<lambda>aux.
      sbind (son_err (build_stack heap (AppStack (sp_top - stack_size) sp_top) argv_ref envp aux)
               (unload_program (UkVm sh c) loaded)) (\<lambda>layout.
      sbind (call (elfrs_ctx_init sh ctx (sl_sp layout) (lp_entry loaded))) (\<lambda>_.
      sbind (Box_into_raw sh box_size loaded) (\<lambda>boxed.
      sbind (call (elfrs_binfmt_set_user bf args boxed)) (\<lambda>_.
      sret HANDLED))))))))))))"

definition elfrs_binfmt_load ::
  "target_arch \<Rightarrow> 'k Shim \<Rightarrow> 'k Binfmt \<Rightarrow> heap \<Rightarrow> u64 \<Rightarrow> u64 \<Rightarrow> ('k Machine, i32, error) action" where
  "elfrs_binfmt_load arch sh bf heap box_size args = (\<lambda>m.
    case binfmt_load arch sh bf heap box_size args m of
      (Ok rc, m') \<Rightarrow> (Ok rc, m')
    | (Err e, m') \<Rightarrow> (if e = ENOEXEC then Ok NOT_HANDLED else as_neg e, m')
    | (Panic, m') \<Rightarrow> (Panic, m'))"

section \<open>Unloading\<close>

text \<open>
  The box is dropped when the function returns. Unloading does not look at the configuration \<open>c\<close>,
  which is only there because the address space is built from one.
\<close>

definition elfrs_binfmt_unload ::
  "'k Shim \<Rightarrow> 'k Binfmt \<Rightarrow> Cfg \<Rightarrow> u64 \<Rightarrow> ('k Machine, i32, error) action" where
  "elfrs_binfmt_unload sh bf c args =
    sbind (call (elfrs_binfmt_get_user bf args)) (\<lambda>user.
    if user = 0 then sret HANDLED
    else
      sbind (Box_from_raw user) (\<lambda>loaded.
      sbind (unload_program (UkVm sh c) loaded) (\<lambda>_.
      sbind (call (elfrs_binfmt_set_user bf args 0)) (\<lambda>_.
      sbind (Box_drop sh user) (\<lambda>_.
      sret HANDLED)))))"

end
