(* ===== verification/Sys_Facts.thy ===== *)
theory Sys_Facts
  imports Sys Stack_Facts Elf_Facts
begin

text \<open>
  The Unikraft side keeps the contracts the rest of the loader relies on: the initrd image and an
  open file are image readers, whatever short reads the kernel returns, the application stack is a
  stack writer, strings survive the crossing to C and back, and a program found in the search path
  is the first candidate the kernel accepts.
\<close>

section \<open>Memory\<close>

lemma length_mem_bytes [simp]: "length (mem_bytes mem p n) = n"
  by (simp add: mem_bytes_def)

lemma mem_bytes_nth: "i < n \<Longrightarrow> mem_bytes mem p n ! i = mem (p + of_nat i)"
  by (simp add: mem_bytes_def)

lemma mem_bytes_slice:
  "off + n \<le> len \<Longrightarrow> take n (drop off (mem_bytes mem p len)) = mem_bytes mem (p + of_nat off) n"
  by (rule nth_equalityI) (simp_all add: mem_bytes_nth add.assoc)

lemma poke_at: "i < length bs \<Longrightarrow> length bs \<le> 2 ^ 64 \<Longrightarrow> poke a bs mem (a + of_nat i) = bs ! i"
  by (simp add: poke_def unat_of_nat take_bit_nat_eq_self_iff)

lemma mem_bytes_poke: "length bs \<le> 2 ^ 64 \<Longrightarrow> n \<le> length bs \<Longrightarrow> mem_bytes (poke a bs mem) a n = take n bs"
  by (rule nth_equalityI) (simp_all add: mem_bytes_nth poke_at)

text \<open>The memory read as a stack: addresses beyond the address space do not count.\<close>

definition machine_bytes :: "'k Machine \<Rightarrow> nat \<Rightarrow> u8" where
  "machine_bytes m x = (if x < 2 ^ 64 then mc_mem m (of_nat x) else 0)"

lemma machine_bytes_poke:
  assumes "unat a + length d < 2 ^ 64"
  shows "machine_bytes (m\<lparr> mc_mem := poke a d (mc_mem m) \<rparr>) = store (machine_bytes m) (unat a) d"
proof
  fix x
  show "machine_bytes (m\<lparr> mc_mem := poke a d (mc_mem m) \<rparr>) x = store (machine_bytes m) (unat a) d x"
  proof (cases "x < 2 ^ 64")
    case True
    then have x: "unat (of_nat x :: u64) = x" by (simp add: unat_of_nat take_bit_nat_eq_self_iff)
    show ?thesis
    proof (cases "unat a \<le> x")
      case True
      then have "unat (of_nat x - a) = x - unat a" by (simp add: unat_sub_ok x)
      with True \<open>x < 2 ^ 64\<close> show ?thesis by (auto simp: machine_bytes_def poke_def store_def)
    next
      case False
      with x have "unat (of_nat x - a) = 2 ^ 64 + x - unat a"
        by (simp add: unat_sub_if_size word_size not_le)
      with False assms \<open>x < 2 ^ 64\<close> show ?thesis by (auto simp: machine_bytes_def poke_def store_def)
    qed
  next
    case False
    with assms show ?thesis by (simp add: machine_bytes_def store_def)
  qed
qed

interpretation app_writer: stack_writer "AppStack lo hi" "\<lambda>_. lo \<le> hi" machine_bytes for lo hi
proof (unfold_locales, goal_cases)
  case (1 s)
  then show ?case by (simp add: AppStack_def word_le_nat_alt)
next
  case (2 s a d)
  then have fits: "unat lo \<le> unat a" "unat a + length d \<le> unat hi" by (simp_all add: AppStack_def)
  then have small: "unat a + length d < 2 ^ 64" using le_less_trans [OF _ unat_lt_64 [of hi]] by simp
  then have "unat (a + of_nat (length d)) = unat a + length d" by (simp add: unat_plus_of_nat)
  with small fits 2(1) show ?case
    by (simp add: AppStack_def AppStack_write_def Let_def word_less_nat_alt machine_bytes_poke)
qed

interpretation mem_reader: image_reader "mem_image mem start len" "\<lambda>i. mem (start + of_nat i)" for mem start len
  by unfold_locales (auto simp: mem_image_def mem_bytes_nth add.assoc split: if_splits)

section \<open>Files\<close>

text \<open>
  What \<open>pread\<close> promises of a file that does not change: at or past the end it reads nothing, and
  before it at least one byte and not more than asked for or left, from the given position on.
\<close>

definition serves :: "'k Shim \<Rightarrow> i32 \<Rightarrow> bytes \<Rightarrow> bool" where
  "serves sh fd body \<longleftrightarrow>
    (\<forall>len off m. 0 < unat len \<longrightarrow> unat off < 2 ^ 63 \<longrightarrow>
      (case elfrs_pread sh fd len off m of ((n, data), _) \<Rightarrow>
         if length body \<le> unat off then n = 0
         else 0 < sint n \<and> unat n \<le> unat len \<and> unat off + unat n \<le> length body
           \<and> data = take (unat n) (drop (unat off) body)))"

lemma pread_loop_serves:
  assumes "serves sh fd body" and "unat off + length buf \<le> 2 ^ 63"
    and "unat off + got \<le> length body \<or> got = 0 \<and> buf \<noteq> []" and "got \<le> length buf"
    and "take got buf = take got (drop (unat off) body)"
  shows "fst (pread_loop sh fd off got buf m) =
    (if length body < unat off + length buf then Err ENOEXEC else Ok (take (length buf) (drop (unat off) body)))"
  using assms(2-)
proof (induction "length buf - got" arbitrary: got buf m rule: less_induct)
  case less
  show ?case
  proof (cases "got < length buf")
    case False
    with less.prems show ?thesis by (subst pread_loop.simps) auto
  next
    case True
    define len :: u64 where "len = of_nat (length buf - got)"
    have pos: "unat len = length buf - got" "unat (off + of_nat got) = unat off + got"
      using True less.prems(1) by (simp_all add: len_def unat_of_nat take_bit_nat_eq_self_iff unat_plus_of_nat del: of_nat_diff)
    obtain n data m' where rd: "elfrs_pread sh fd len (off + of_nat got) m = ((n, data), m')"
      by (metis prod.exhaust)
    from assms(1) [unfolded serves_def, rule_format, of len "off + of_nat got" m] True less.prems(1)
    have srv: "if length body \<le> unat off + got then n = 0
      else 0 < sint n \<and> unat n \<le> length buf - got \<and> unat off + got + unat n \<le> length body
        \<and> data = take (unat n) (drop (unat off + got) body)"
      by (simp add: rd pos split: if_splits)
    show ?thesis
    proof (cases "length body \<le> unat off + got")
      case end_of_file: True
      with srv True less.prems(1) show ?thesis by (subst pread_loop.simps) (simp add: rd [unfolded len_def] del: of_nat_diff)
    next
      case False
      with srv have n: "0 < sint n" "n \<noteq> 0" "unat n \<le> length buf - got" "unat off + got + unat n \<le> length body"
        and data: "data = take (unat n) (drop (unat off + got) body)" by auto
      let ?buf = "take got buf @ filled data (drop got buf)"
      have "take (got + unat n) ?buf = take got (drop (unat off) body) @ take (unat n) (drop got (drop (unat off) body))"
        using True n(3,4) less.prems(4) data by (simp add: filled_def add.commute)
      then have "take (got + unat n) ?buf = take (got + unat n) (drop (unat off) body)"
        by (simp add: take_add)
      moreover have "length ?buf = length buf" using True by simp
      moreover have shorter: "length buf - (got + unat n) < length buf - got" "got + unat n \<le> length buf"
        using n(2,3) True unat_gt_0 [of n] by linarith+
      moreover have "pread_loop sh fd off got buf m = pread_loop sh fd off (got + unat n) ?buf m'"
        using True less.prems(1) n by (subst pread_loop.simps) (auto simp: rd [unfolded len_def] simp del: of_nat_diff)
      ultimately show ?thesis
        using less.hyps [of ?buf "got + unat n" m'] less.prems(1) n(4) shorter unfolding \<open>length ?buf = length buf\<close>
        by simp
    qed
  qed
qed

section \<open>C strings\<close>

lemma cstr_len_found:
  assumes "mem (p + of_nat (n + k)) = 0" and "\<forall>i<k. mem (p + of_nat (n + i)) \<noteq> 0" and "n + k < 2 ^ 64"
  shows "cstr_len mem p n = Ok (n + k)"
  using assms
proof (induction k arbitrary: n)
  case 0
  then show ?case by (subst cstr_len.simps) simp
next
  case (Suc k)
  from Suc.prems(2) have "mem (p + of_nat n) \<noteq> 0" by force
  moreover have "cstr_len mem p (n + 1) = Ok (n + 1 + k)"
  proof (rule Suc.IH)
    show "\<forall>i<k. mem (p + of_nat (n + 1 + i)) \<noteq> 0"
      using Suc.prems(2) by (metis Suc_mono add_Suc_right add_Suc_shift plus_1_eq_Suc add.commute)
  qed (use Suc.prems in \<open>simp_all add: add.assoc\<close>)
  ultimately show ?case using Suc.prems(3) by (subst cstr_len.simps) simp
qed

lemma cstr_poke:
  assumes "p \<noteq> 0" and "0 \<notin> set s" and "length s < 2 ^ 64"
  shows "cstr (poke p (s @ [0]) mem) p = Ok s"
proof -
  have "poke p (s @ [0]) mem (p + of_nat i) = (s @ [0]) ! i" if "i \<le> length s" for i
    using that assms(3) by (intro poke_at) simp_all
  with assms(2,3) have "cstr_len (poke p (s @ [0]) mem) p 0 = Ok (0 + length s)"
    by (intro cstr_len_found) (auto simp: nth_append in_set_conv_nth)
  with assms show ?thesis by (simp add: cstr_def mem_bytes_poke)
qed

section \<open>A machine to run on\<close>

text \<open>
  A kernel with one file of ten bytes that it reads at most three bytes at a time, one executable
  \<open>b/a\<close>, and nothing else.
\<close>

definition bare_shim :: "unit Shim" where
  "bare_shim =
    \<lparr> elfrs_cfg_get = (\<lambda>m. (undefined, m)), elfrs_memalign = (\<lambda>_ _ m. (0, m)), elfrs_free = (\<lambda>_ m. ((), m)),
      elfrs_map = (\<lambda>_ _ _ _ _ _ _ m. ((0, 38), m)), elfrs_unmap = (\<lambda>_ _ m. (0, m)), elfrs_protect = (\<lambda>_ _ _ m. (0, m)),
      elfrs_open_ro = (\<lambda>_ m. (3, m)), elfrs_close = (\<lambda>_ m. ((), m)),
      elfrs_pread = (\<lambda>_ len off m.
        let n = min (min 3 (unat len)) (10 - unat off) in ((of_nat n, map of_nat [unat off..<unat off + n]), m)),
      elfrs_fsize = (\<lambda>_ m. (10, m)), elfrs_fd_is_exec = (\<lambda>_ m. (0, m)),
      elfrs_path_is_exec = (\<lambda>p m. (if p = [0x62, 0x2f, 0x61, 0] then 0 else - 2, m)),
      elfrs_environ = (\<lambda>m. (0, m)), elfrs_getenv = (\<lambda>_ m. (0, m)), elfrs_chdir = (\<lambda>_ m. (0, m)),
      elfrs_random_fill = (\<lambda>_ m. ((- 1, []), m)), elfrs_initrd = (\<lambda>m. ((- 1, 0, 0), m)),
      elfrs_thread_create = (\<lambda>_ _ m. (0, m)), elfrs_thread_release = (\<lambda>_ m. ((), m)),
      elfrs_thread_ctx = (\<lambda>_ m. (0, m)), elfrs_thread_stack_base = (\<lambda>_ m. (0, m)),
      elfrs_thread_set_runnable = (\<lambda>_ m. ((), m)), elfrs_thread_make_pthread = (\<lambda>_ m. (0, m)),
      elfrs_thread_schedule = (\<lambda>_ m. (0, m)), elfrs_ctx_get_sp = (\<lambda>_ m. (0, m)), elfrs_ctx_init = (\<lambda>_ _ _ m. ((), m)),
      elfrs_icache_sync = (\<lambda>_ _ m. ((), m)), elfrs_hwcap = (\<lambda>m. (0, m)), elfrs_hwcap2 = (\<lambda>m. (0, m)),
      elfrs_platform = (\<lambda>m. (0, m)) \<rparr>"

definition bare_body :: bytes where "bare_body = map of_nat [0..<10]"

definition blank_machine :: "unit Machine" where
  "blank_machine = \<lparr> mc_mem = (\<lambda>_. 0), mc_cfg = None, mc_boxes = (\<lambda>_. None), mc_kernel = () \<rparr>"

lemma bare_len: "length bare_body = 10" by (simp add: bare_body_def)

lemma bare_serves: "serves bare_shim fd bare_body"
proof (unfold serves_def, intro allI impI)
  fix len off :: u64 and m :: "unit Machine"
  assume "0 < unat len" "unat off < 2 ^ 63"
  define n where "n = min (min 3 (unat len)) (10 - unat off)"
  have n: "unat (of_nat n :: i64) = n" "sint (of_nat n :: i64) = int n" "n \<le> 3"
    by (auto simp: n_def unat_of_nat take_bit_nat_eq_self_iff signed_of_nat signed_take_bit_int_eq_self_iff)
  have "map of_nat [unat off..<unat off + n] = take n (drop (unat off) bare_body)" if "unat off < 10"
    using that by (intro nth_equalityI) (auto simp: bare_body_def n_def)
  moreover have bounds: "10 \<le> unat off \<longrightarrow> n = 0" "unat off < 10 \<longrightarrow> 0 < n \<and> n \<le> unat len \<and> unat off + n \<le> 10"
    using \<open>0 < unat len\<close> by (auto simp: n_def)
  moreover have "elfrs_pread bare_shim fd len off m = ((of_nat n, map of_nat [unat off..<unat off + n]), m)"
    by (simp add: bare_shim_def n_def Let_def)
  ultimately show "case elfrs_pread bare_shim fd len off m of ((n, data), _) \<Rightarrow>
      if length bare_body \<le> unat off then n = 0
      else 0 < sint n \<and> unat n \<le> unat len \<and> unat off + unat n \<le> length bare_body
        \<and> data = take (unat n) (drop (unat off) bare_body)"
    using n bounds by (simp add: bare_len)
qed

section \<open>Properties\<close>

text \<open>
  C16. Reading an open file is exact: however few bytes the kernel returns at a time, a read of a
  nonempty range gives exactly the bytes of the file when the file holds them all and \<open>ENOEXEC\<close>
  when it ends early, as for a slice of memory with the same contents.
\<close>

theorem file_reads_like_a_slice:
  assumes "serves sh (sf_fd f) body" and "unat off + n \<le> 2 ^ 63" and "0 < n"
  shows "fst (File_read_exact_at sh f off n m) = read_exact_at (slice_source body) off n"
  using pread_loop_serves [OF assms(1), of off "replicate n 0" 0 m] assms(2,3)
  by (auto simp: File_read_exact_at_def slice_source_def)

theorem file_reads_like_a_slice_witness:
  "fst (File_read_exact_at bare_shim \<lparr> sf_fd = 3, sf_size = Some 10 \<rparr> 2 7 blank_machine) = Ok [2, 3, 4, 5, 6, 7, 8]"
proof -
  have "read_exact_at (slice_source bare_body) 2 7 = Ok [2, 3, 4, 5, 6, 7, 8]"
    by (simp add: slice_source_def bare_body_def upt_rec)
  with file_reads_like_a_slice [OF bare_serves, of 2 7 "\<lparr> sf_fd = 3, sf_size = Some 10 \<rparr>"] show ?thesis by simp
qed

text \<open>
  The initrd image behaves as the slice of memory it lies in: for every position and length,
  also past its end, and in its size.
\<close>

theorem mem_image_is_a_slice: "mem_image mem start len = slice_source (mem_bytes mem start (unat len))"
  by (auto simp: mem_image_def slice_source_def fun_eq_iff mem_bytes_slice)

text \<open>
  C28. A string survives the way to C: what \<open>CString::new\<close> builds is the string with one NUL at its
  end, a string with a NUL inside is refused, and reading the result back from anywhere in memory
  with \<open>cstr\<close> gives the string.
\<close>

theorem cstring_roundtrip:
  assumes "p \<noteq> 0" and "length s < 2 ^ 64"
  shows "case CString_new heap s of
      Ok v \<Rightarrow> v = s @ [0] \<and> 0 \<notin> set s \<and> cstr (poke p v mem) p = Ok s
    | Err e \<Rightarrow> e = EINVAL \<and> 0 \<in> set s \<or> e = ENOMEM \<and> \<not> heap AllocCString (length s + 1)
    | Panic \<Rightarrow> False"
  using cstr_poke [OF assms(1) _ assms(2)] by (simp add: CString_new_def)

theorem cstring_roundtrip_witness: "cstr (poke 64 [0x2f, 0x61, 0] (\<lambda>_. 7)) 64 = Ok [0x2f, 0x61]"
  using cstring_roundtrip [where p = 64 and s = "[0x2f, 0x61]" and heap = "\<lambda>_ _. True" and mem = "\<lambda>_. 7"] by (simp add: CString_new_def)

text \<open>
  C17. Laying out the stack of a real thread is safe: on the raw memory between \<open>lo\<close> and \<open>hi\<close> it
  never panics, no byte of memory outside that range changes, whatever the outcome, it fails only
  with \<open>E2BIG\<close> or \<open>ENOMEM\<close>, and on success the memory holds the initial stack for the arguments,
  the environment and the auxiliary vector, with an aligned stack pointer.
\<close>

theorem app_stack_layout:
  assumes "lo \<le> hi"
  shows "case build_stack heap (AppStack lo hi) argv envp aux m of
      (Ok l, m') \<Rightarrow> startup_at (machine_bytes m') (unat (sl_sp l)) (unat hi) argv envp aux
        \<and> 16 dvd unat (sl_sp l) \<and> lo \<le> sl_sp l
        \<and> (\<forall>a. a < sl_sp l \<or> hi \<le> a \<longrightarrow> mc_mem m' a = mc_mem m a)
    | (Err e, m') \<Rightarrow> (e = E2BIG \<or> e = ENOMEM) \<and> (\<forall>a. a < lo \<or> hi \<le> a \<longrightarrow> mc_mem m' a = mc_mem m a)
    | (Panic, _) \<Rightarrow> False"
proof -
  have "mc_mem m' a = mc_mem m a" if "machine_bytes m' (unat a) = machine_bytes m (unat a)" for m' a
    using that by (simp add: machine_bytes_def)
  then show ?thesis
    using app_writer.build_stack_yields [OF assms, of heap argv envp aux m]
    by (auto simp: yields_def inside_def AppStack_def word_less_nat_alt word_le_nat_alt split: prod.splits result.splits)
qed

theorem app_stack_layout_witness:
  "mc_mem (snd (build_stack (\<lambda>_ _. True) (AppStack 4096 8192) [[0x61]] [] AuxvSpec_default blank_machine)) 100 = 0"
proof -
  have "mc_mem blank_machine 100 = 0" by (simp add: blank_machine_def)
  moreover have "(4096 :: u64) \<le> 8192" "100 < x" if "4096 \<le> x" for x :: u64
    using that by (simp_all add: word_le_nat_alt word_less_nat_alt)
  ultimately show ?thesis
    using app_stack_layout [where lo = 4096 and hi = 8192 and heap = "\<lambda>_ _. True" and argv = "[[0x61]]" and envp = "[]"
        and aux = AuxvSpec_default and m = blank_machine]
    by (auto split: prod.splits result.splits)
qed

text \<open>
  C27. The program found in the search path is the right one: it is the first of the candidates,
  in the order of the path, that the kernel says is executable, and a name with a slash or a
  leading dot is never looked up.
\<close>

lemma locate_among_first:
  assumes "locate_among sh heap cands m = (Ok (Some found), m')"
  shows "\<exists>before after m1 m2. cands = before @ found # after \<and> elfrs_path_is_exec sh (found @ [0]) m1 = (0, m2)
    \<and> (\<forall>cand\<in>set before. 0 \<in> set cand \<or> \<not> heap AllocCString (length cand + 1)
         \<or> (\<exists>m3 m4 rc. elfrs_path_is_exec sh (cand @ [0]) m3 = (rc, m4) \<and> rc \<noteq> 0))"
  using assms
proof (induction cands arbitrary: m)
  case (Cons cand cands)
  show ?case
  proof (cases "CString_new heap cand")
    case (Ok c)
    then have c: "c = cand @ [0]" by (simp add: CString_new_def split: if_splits)
    obtain rc m1 where rc: "elfrs_path_is_exec sh (cand @ [0]) m = (rc, m1)" by (metis prod.exhaust)
    show ?thesis
    proof (cases "rc = 0")
      case True
      with Cons.prems Ok rc c have "found = cand" by (simp add: sbind_def call_def sret_def)
      with rc True show ?thesis by (intro exI [of _ "[]"] exI [of _ cands]) auto
    next
      case False
      with Cons.prems Ok rc c have "locate_among sh heap cands m1 = (Ok (Some found), m')"
        by (simp add: sbind_def call_def)
      from Cons.IH [OF this] obtain before after m2 m3 where "cands = before @ found # after"
          "elfrs_path_is_exec sh (found @ [0]) m2 = (0, m3)"
          "\<forall>cand\<in>set before. 0 \<in> set cand \<or> \<not> heap AllocCString (length cand + 1)
            \<or> (\<exists>m3 m4 rc. elfrs_path_is_exec sh (cand @ [0]) m3 = (rc, m4) \<and> rc \<noteq> 0)" by blast
      with rc False show ?thesis by (intro exI [of _ "cand # before"] exI [of _ after]) auto
    qed
  next
    case (Err e)
    then have skip: "0 \<in> set cand \<or> \<not> heap AllocCString (length cand + 1)"
      by (simp add: CString_new_def split: if_splits)
    from Cons.prems Err have "locate_among sh heap cands m = (Ok (Some found), m')" by simp
    from Cons.IH [OF this] obtain before after m2 m3 where "cands = before @ found # after"
        "elfrs_path_is_exec sh (found @ [0]) m2 = (0, m3)"
        "\<forall>cand\<in>set before. 0 \<in> set cand \<or> \<not> heap AllocCString (length cand + 1)
          \<or> (\<exists>m3 m4 rc. elfrs_path_is_exec sh (cand @ [0]) m3 = (rc, m4) \<and> rc \<noteq> 0)" by blast
    with skip show ?thesis by (intro exI [of _ "cand # before"] exI [of _ after]) auto
  next
    case Panic
    then show ?thesis by (simp add: CString_new_def split: if_splits)
  qed
qed (simp add: sret_def)

theorem locate_in_path_first:
  assumes "locate_in_path sh heap name path_env m = (Ok (Some found), m')"
  shows "is_bare_name name \<and> (\<exists>before after m1 m2. path_candidates heap name path_env = before @ found # after
      \<and> elfrs_path_is_exec sh (found @ [0]) m1 = (0, m2)
      \<and> (\<forall>cand\<in>set before. 0 \<in> set cand \<or> \<not> heap AllocCString (length cand + 1)
           \<or> (\<exists>m3 m4 rc. elfrs_path_is_exec sh (cand @ [0]) m3 = (rc, m4) \<and> rc \<noteq> 0)))"
  using assms locate_among_first by (auto simp: locate_in_path_def sret_def split: if_splits)

theorem locate_in_path_first_witness:
  "\<exists>m'. locate_in_path bare_shim (\<lambda>_ _. True) [0x61] [0x63, 0x3a, 0x62] blank_machine = (Ok (Some [0x62, 0x2f, 0x61]), m')
     \<and> path_candidates (\<lambda>_ _. True) [0x61] [0x63, 0x3a, 0x62] = [[0x63, 0x2f, 0x61], [0x62, 0x2f, 0x61]]"
proof -
  have cands: "path_candidates (\<lambda>_ _. True) [0x61] [0x63, 0x3a, 0x62] = [[0x63, 0x2f, 0x61], [0x62, 0x2f, 0x61]]"
    by (simp add: path_candidates_def List.map_filter_def path_candidate_def Let_def)
  have run: "locate_in_path bare_shim (\<lambda>_ _. True) [0x61] [0x63, 0x3a, 0x62] blank_machine
      = (Ok (Some [0x62, 0x2f, 0x61]), blank_machine)"
    by (simp add: locate_in_path_def is_bare_name_def cands CString_new_def bare_shim_def sbind_def call_def sret_def)
  from locate_in_path_first [OF run] cands run show ?thesis by blast
qed

end
