(* ===== verification/App_Facts.thy ===== *)
theory App_Facts
  imports Binfmt Sys_Facts Program_Facts
begin

text \<open>
  What the boot program guarantees for every kernel below it: an application is started only on a
  finished stack and at the entry point of the loaded program, the exit status of a failure is
  never zero, a thread that was created and not started is released, and an initrd image never
  gets an interpreter from anywhere else.
\<close>

section \<open>Outcomes of the steps\<close>

lemma call_outcome [outcome_simps]:
  "call f m = (Ok x, m') \<longleftrightarrow> f m = (x, m')"
  "call f m \<noteq> (Err e, m')"
  "call f m \<noteq> (Panic, m')"
  by (auto simp: call_def split: prod.splits)

lemma neg_error_outcome [outcome_simps]: "neg_error rc \<noteq> Ok x"
  by (simp add: neg_error_def)

lemma cfg_outcome [outcome_simps]: "cfg sh m \<noteq> (Err e, m')" "cfg sh m \<noteq> (Panic, m')"
  by (auto simp: cfg_def split: option.splits prod.splits)

lemma Box_outcome [outcome_simps]:
  "Box_from_raw a m = (Ok p, m') \<longleftrightarrow> m' = m \<and> mc_boxes m a = Some p"
  "Box_drop sh a m = (Ok u, m') \<longleftrightarrow> elfrs_free sh a (m\<lparr> mc_boxes := (mc_boxes m)(a := None) \<rparr>) = (u, m')"
  by (auto simp: Box_from_raw_def Box_drop_def UkHeap_dealloc_def sbind_def call_def split: option.splits prod.splits)

lemma start_thread_ends:
  assumes "start_thread sh c thread ctx loaded layout m = (Ok r, m')"
  shows "r = Parks \<and> (\<exists>m1 m2. elfrs_ctx_init sh ctx (sl_sp layout) (lp_entry loaded) m = ((), m1)
    \<and> elfrs_thread_schedule sh thread m2 = (0, m'))"
  using assms by (auto simp: start_thread_def outcome_simps split: if_splits)

lemma app_environment_execfn: "app_environment sh c path m = (Ok env, m') \<Longrightarrow> en_execfn env = path"
  by (auto simp: app_environment_def outcome_simps)

lemma start_app_ends:
  assumes "start_app arch sh heap c target thread loaded m = (Ok r, m')"
  obtains ctx lo hi envp env aux layout m1 m2 m3 m4 where "r = Parks" and "lo < hi"
    and "program_auxv arch loaded env = Ok aux" and "en_execfn env = tg_path target"
    and "build_stack heap (AppStack lo hi) (tg_progname target # tg_rest target) envp aux m1 = (Ok layout, m2)"
    and "elfrs_ctx_init sh ctx (sl_sp layout) (lp_entry loaded) m2 = ((), m3)"
    and "elfrs_thread_schedule sh thread m4 = (0, m')"
proof -
  from assms obtain ctx lo hi envp env aux layout m0 m1 m1' m2 where st: "\<not> hi \<le> lo"
      "app_environment sh c (tg_path target) m0 = (Ok env, m1)" "program_auxv arch loaded env = Ok aux"
      "build_stack heap (AppStack lo hi) (tg_progname target # tg_rest target) envp aux m1' = (Ok layout, m2)"
      "start_thread sh c thread ctx loaded layout m2 = (Ok r, m')"
    by (auto simp: start_app_def outcome_simps split: if_splits)
  with start_thread_ends [OF st(5)] app_environment_execfn [OF st(2)] show thesis
    by (auto simp: not_le intro: that)
qed

lemma resolve_keeps:
  assumes "resolve sh heap t m = (Ok t', m')"
  shows "tg_progname t' = tg_progname t \<and> tg_rest t' = tg_rest t"
  using assms by (auto simp: resolve_def outcome_simps split: if_splits option.splits)

lemma run_Ok:
  assumes "run arch sh heap args m = (Ok r, m')"
  obtains c target cname thread loaded m1 m2 m3 m4 where
    "prepare sh heap args m = (Ok (c, target, cname), m1)"
    and "elfrs_thread_create sh cname (ucast (stack_len c)) m1 = (thread, m2)" and "thread \<noteq> 0"
    and "load_target arch sh heap c target m3 = (Ok loaded, m4)"
    and "start_app arch sh heap c target thread loaded m4 = (Ok r, m')"
  using assms by (auto simp: run_def ThreadGuard_drop_def outcome_simps split: if_splits)

lemma initrd_open: "op_open (InitrdOpener sh start len) path m = (Ok op, m') \<Longrightarrow> path = initrd_path"
  by (simp add: InitrdOpener_def split: if_splits)

lemma initrd_interp:
  assumes "load_interp arch heap (InitrdOpener sh start len) vm ps path s = (Ok v, s')"
  shows "path = initrd_path"
proof -
  obtain img l where v: "v = (img, l)" by (cases v)
  obtain op s1 where "op_open (InitrdOpener sh start len) path s = (Ok op, s1)"
    by (rule load_interp_Ok [OF assms [unfolded v]])
  then show ?thesis by (rule initrd_open)
qed

lemma binfmt_load_Ok:
  assumes "binfmt_load arch sh bf heap box_size args m = (Ok rc, m')"
  obtains c m1 path progname argv envp m2 loaded m3 ctx sp_top stack_size n1 n2 env aux layout m4 m5 boxed m6 where
    "cfg sh m = (Ok c, m1)" and "binfmt_request bf args m1 = (Ok (path, progname, argv, envp), m2)"
    and "load_program arch heap (BinfmtOpener sh heap) (UkVm sh c) path m2 = (Ok loaded, m3)"
    and "stack_size \<le> sp_top" and "app_environment sh c path n1 = (Ok env, n2)" and "program_auxv arch loaded env = Ok aux"
    and "build_stack heap (AppStack (sp_top - stack_size) sp_top) (if argv = [] then [progname] else argv) envp aux n2
        = (Ok layout, m4)"
    and "elfrs_ctx_init sh ctx (sl_sp layout) (lp_entry loaded) m4 = ((), m5)"
    and "boxed \<noteq> 0" and "mc_boxes m6 boxed = Some loaded"
    and "elfrs_binfmt_set_user bf args boxed m6 = ((), m')" and "rc = HANDLED"
proof -
  from assms obtain c m1 path progname argv envp m2 loaded m3 ctx sp_top stack_size n1 n2 env aux layout m4 m5 boxed m6
    where st: "cfg sh m = (Ok c, m1)" "binfmt_request bf args m1 = (Ok (path, progname, argv, envp), m2)"
      "load_program arch heap (BinfmtOpener sh heap) (UkVm sh c) path m2 = (Ok loaded, m3)"
      "\<not> sp_top < stack_size" "app_environment sh c path n1 = (Ok env, n2)" "program_auxv arch loaded env = Ok aux"
      "build_stack heap (AppStack (sp_top - stack_size) sp_top) (if argv = [] then [progname] else argv) envp aux n2
        = (Ok layout, m4)"
      "elfrs_ctx_init sh ctx (sl_sp layout) (lp_entry loaded) m4 = ((), m5)"
      "Box_into_raw sh box_size loaded m5 = (Ok boxed, m6)"
      "elfrs_binfmt_set_user bf args boxed m6 = ((), m')" "rc = HANDLED"
    unfolding binfmt_load_def Let_def by (auto simp: outcome_simps split: if_splits)
  moreover have "boxed \<noteq> 0" "mc_boxes m6 boxed = Some loaded"
    using st(9) by (auto simp: Box_into_raw_def UkHeap_alloc_def outcome_simps split: if_splits)
  ultimately show thesis by (intro that) (simp_all add: not_less)
qed

end
