(* ===== verification/Copied_Loads.thy ===== *)
theory Copied_Loads
  imports Loading
begin

text \<open>
  Loading without file mappings, where the loader allocates memory and copies the image into it,
  and the failures of both ways of loading, stated of the loader run against the address space of
  the test suite. The heap of that address space grows upwards from a fixed address, and the
  properties of the copying path ask that nothing is mapped above it yet.
\<close>

section \<open>The heap of the fake\<close>

abbreviation heap_is_clear :: "State \<Rightarrow> bool" where
  "heap_is_clear st \<equiv> \<forall>x\<ge>unat (st_heap st). fake_cells st x = None"

lemma fake_alloc_above:
  assumes "is_power_of_two al" and "fake_alloc_aligned al len st = (Ok got, st')"
  shows "unat (st_heap st) \<le> unat got"
proof -
  from assms(2) obtain h h1 where h: "padd (st_heap st) al = (Ok h :: (u64, error) result)"
      "psub h 1 = (Ok h1 :: (u64, error) result)" "got = h1 AND NOT (al - 1)"
    by (auto simp: fake_alloc_aligned_def outcome_simps Let_def psub_one [OF assms(1)]
        split: result.splits prod.splits)
  then have "unat h1 = unat (st_heap st) + unat al - 1"
    by (auto simp: arith_outcome unat_sub_ok unat_add_ok)
  with floor_to_gt [of "unat al" "unat h1"] power_of_two_pos [OF assms(1)] show ?thesis
    by (simp add: h(3) unat_and_high [OF assms(1)])
qed

lemma load_image_copied:
  "\<not> fv_can_map_files fv \<or> fd = None \<Longrightarrow>
   load_image (fake_vm fv fls) heap img src fd = load_copied (fake_vm fv fls) heap img src (fv_page fv)"
  by (auto simp: load_image_def Let_def fake_vm_ops split: option.splits)

text \<open>The range of a copied image is free before the load when the heap is clear.\<close>

lemma copied_range_free:
  assumes "wf_image (fv_page fv) img" and "heap_is_clear st"
    and "load_copied (fake_vm fv fls) heap img src (fv_page fv) st = (Ok l, st')"
  shows "in_reservation l x \<Longrightarrow> fake_cells st x = None"
proof -
  from assms(3) obtain need al raw st1 where m: "reservation_len img (fv_page fv) = Ok need"
      "seg_align img (fv_page fv) = Ok al" "fake_alloc_aligned al need st = (Ok raw, st1)"
      "plan heap img (fv_page fv) (At raw) = Ok (ld_plan l)"
    by (auto simp: load_copied_def outcome_simps Let_def fake_vm_ops split: if_splits)
  obtain al' where "al = al'" "is_power_of_two al'"
    using seg_align_wf [OF assms(1)] m(2) by (metis result.inject(1))
  with fake_alloc_above m(3) have "unat (st_heap st) \<le> unat raw" by blast
  with reserved_At [OF assms(1) m(1,4)] assms(2) show "in_reservation l x \<Longrightarrow> fake_cells st x = None" by simp
qed

lemma copied_segment_byte:
  assumes "wf_image (fv_page fv) img" and "fake_inv st" and "heap_is_clear st"
    and "load_copied (fake_vm fv fls) heap img (slice_source data) (fv_page fv) st = (Ok l, st')"
    and "0 < unat (reserve_len (ld_plan l))"
  shows "i \<in> set (loads img) \<Longrightarrow> sv (bias (ld_plan l)) (phdrs img ! i) \<le> x \<Longrightarrow>
      x < seg_hi (fv_page fv) (phdrs img ! i) + unat (bias (ld_plan l)) \<Longrightarrow>
      map_option snd (fake_cells st' x) = Some (seg_byte ((!) data) (bias (ld_plan l)) (phdrs img ! i) x)"
    and "\<not> in_reservation l y \<Longrightarrow> map_option snd (fake_cells st' y) = map_option snd (fake_cells st y)"
    and "in_reservation l y \<Longrightarrow> fake_cells st y = None \<and> fake_cells st' y \<noteq> None"
    and "fake_inv st'" and "allocated l"
proof -
  note free = copied_range_free [OF assms(1,3,4)]
  obtain c where c: "fake_inv st'" "plan_ok (fv_page fv) img (ld_plan l)" "allocated l"
      "unat (reserve_addr (ld_plan l)) \<le> unat (base (ld_plan l))"
      "unat (end_addr (ld_plan l)) \<le> unat (reserve_addr (ld_plan l)) + unat (reserve_len (ld_plan l))"
      "\<forall>x. (c x = None) \<longleftrightarrow> (fake_cells st x = None) \<and> \<not> in_reservation l x"
      "same_outside (fake_cells st) c (unat (reserve_addr (ld_plan l)))
        (unat (reserve_addr (ld_plan l)) + unat (reserve_len (ld_plan l)))"
      "\<forall>x. map_option snd (fake_cells st' x) = map_option snd
        (copied_image (fv_page fv) ((!) data) (bias (ld_plan l)) (phdrs img) (loads img) c x)"
    using fake_copy.load_copied_bytes [OF assms(1) fake_vm_ops(1) assms(2,4) _ assms(5)] free by blast
  show "fake_inv st'" "allocated l" by fact+
  have in_res: "in_reservation l x"
    if "i \<in> set (loads img)" "sv (bias (ld_plan l)) (phdrs img ! i) \<le> x"
      "x < seg_hi (fv_page fv) (phdrs img ! i) + unat (bias (ld_plan l))" for i x
    using that seg_in_span [OF assms(1) c(2), of i] c(4,5) seg_lo_le_vaddr [of "fv_page fv" "phdrs img ! i"]
    by (auto simp: sv_def)
  show "map_option snd (fake_cells st' x) = Some (seg_byte ((!) data) (bias (ld_plan l)) (phdrs img ! i) x)"
    if "i \<in> set (loads img)" "sv (bias (ld_plan l)) (phdrs img ! i) \<le> x"
      "x < seg_hi (fv_page fv) (phdrs img ! i) + unat (bias (ld_plan l))"
    unfolding c(8) [rule_format]
    by (rule copied_image_in [OF sorted_image [OF assms(1)] that]) (use c(6) in_res [OF that] in simp)
  show "map_option snd (fake_cells st' y) = map_option snd (fake_cells st y)" if "\<not> in_reservation l y"
  proof -
    have "copied_image (fv_page fv) ((!) data) (bias (ld_plan l)) (phdrs img) (loads img) c y = c y"
      using in_res that by (intro copied_image_out) (metis not_le)
    with that c(7) show ?thesis unfolding c(8) [rule_format] by (auto simp: same_outside_def)
  qed
  show "fake_cells st y = None \<and> fake_cells st' y \<noteq> None" if "in_reservation l y"
  proof -
    have "map_option snd (fake_cells st' y) \<noteq> None"
      using c(6) that unfolding c(8) [rule_format] option.map_disc_iff copied_image_None by blast
    with free that show ?thesis by auto
  qed
qed

section \<open>A copied sample\<close>

definition copied_plan :: LoadPlan where
  "copied_plan =
    \<lparr> bias = 65536, reserve_addr = 65536, reserve_len = 576, base = 65536, end_addr = 66048, align = 128,
      segments =
        [\<lparr> idx = 2, file_map = Some \<lparr> fm_addr = 65536, fm_len = 256, fm_off = 0 \<rparr>,
           zero_map = Some \<lparr> am_addr = 65776, am_len = 16 \<rparr>, anon_map = None,
           prot = 5, needs_write_window = True \<rparr>,
         \<lparr> idx = 1, file_map = Some \<lparr> fm_addr = 65856, fm_len = 64, fm_off = 192 \<rparr>,
           zero_map = Some \<lparr> am_addr = 65912, am_len = 8 \<rparr>,
           anon_map = Some \<lparr> am_addr = 65920, am_len = 128 \<rparr>, prot = 3,
           needs_write_window = False \<rparr>],
      entry = 65736 \<rparr>"

lemma sample_plan_copied: "plan any_heap sample_image 64 (At 65536) = Ok copied_plan"
  by (simp add: sample_defs word_eval layout_eval copied_plan_def)

lemma sample_align: "seg_align sample_image 64 = Ok 128"
  by (simp add: sample_defs word_eval layout_eval)

definition copied_start :: State where
  "copied_start = \<lparr> st_base = 4160,
     st_regions = [(65536, \<lparr> r_len = 576, r_prot = 3, r_data = replicate 576 0, r_file = None \<rparr>)],
     st_log = [OpMap 65536 576 3], st_heap = 66112 \<rparr>"

lemma sample_alloc: "fake_alloc_aligned 128 576 sample_state = (Ok 65536, copied_start)"
  by (simp add: fake_alloc_aligned_def sample_state_def copied_start_def word_eval push_op_def RW_def prot_defs Let_def)

text \<open>File data of at most a chunk is copied in one step.\<close>

lemma copy_file_chunk:
  assumes "0 < p_filesz ph" and "p_filesz ph \<le> COPY_CHUNK"
  shows "copy_file vm src ph vaddr 0 =
    sbind (slift (read_exact_at src (p_offset ph) (unat (p_filesz ph)))) (vm_write vm vaddr)"
proof -
  have "copy_file vm src ph vaddr (p_filesz ph) = sret ()" by (simp add: copy_file.simps)
  with assms show ?thesis
    by (subst copy_file.simps) (simp add: min_absorb2 padd_ok sbind_sret_right)
qed

lemma sample_segments:
  "phdrs sample_image ! 2 = sample_phdr PT_LOAD 5 0 0 240 240 128"
  "phdrs sample_image ! 1 = sample_phdr PT_LOAD 6 240 368 8 96 64"
  by (simp_all add: sample_image_def sample_phdrs_def)

lemma sample_read:
  "read_exact_at (slice_source sample_elf) 0 240 = Ok (take 240 sample_elf)"
  "read_exact_at (slice_source sample_elf) 240 8 = Ok (take 8 (drop 240 sample_elf))"
  by (simp_all add: slice_source_def sample_elf_def)

lemmas copied_eval = fill_copied_segment_def index_at_def sample_facts seg_range_def word_eval align_up_or_def
  fake_eval Let_def prot_defs sample_fv_def copy_file_chunk COPY_CHUNK_def sample_segments sample_phdr_def
  fake_write_def sbind_def RW_def fake_vm_ops

lemma sample_copied:
  obtains st' where "load_image (fake_vm sample_fv sample_files) any_heap sample_image (slice_source sample_elf) None
      sample_state = (Ok \<lparr> ld_plan = copied_plan, allocated = True \<rparr>, st')"
proof -
  have "fst (fill_copied (fake_vm sample_fv sample_files) any_heap sample_image (slice_source sample_elf) copied_plan
      copied_start) = Ok ()"
    by (simp add: fill_copied_def any_heap_def exec_ranges_def protect_segment_def sdiscard_def copied_eval
        copied_plan_def copied_start_def sample_read is_exec_def PF_X_def length_sample_elf layout_eval del: One_nat_def)
  then obtain st' where "fill_copied (fake_vm sample_fv sample_files) any_heap sample_image (slice_source sample_elf)
      copied_plan copied_start = (Ok (), st')" by (metis prod.collapse)
  then show thesis
    by (intro that [of st']) (simp add: load_image_def load_copied_def sample_reserve sample_align sample_facts sbind_def
        sample_alloc sample_inv sample_plan_copied son_err_def Let_def fake_vm_ops)
qed

text \<open>A source that ends early.\<close>

lemma sample_truncated:
  obtains st' where "load_image (fake_vm sample_fv sample_files) any_heap sample_image
      (slice_source (take 100 sample_elf)) None sample_state = (Err ENOEXEC, st')"
proof -
  have fill: "fill_copied (fake_vm sample_fv sample_files) any_heap sample_image (slice_source (take 100 sample_elf))
      copied_plan copied_start = (Err ENOEXEC, copied_start)"
    by (simp add: fill_copied_def any_heap_def copied_eval copied_plan_def slice_source_def)
  have "fst (fake_free_aligned 65536 576 copied_start) = Ok ()"
    by (simp add: fake_free_aligned_def fake_eval copied_start_def word_eval)
  then obtain st' where free: "fake_free_aligned 65536 576 copied_start = (Ok (), st')" by (metis prod.collapse)
  have "reserve_addr copied_plan = 65536" "reserve_len copied_plan = 576" by (simp_all add: copied_plan_def)
  with fill free show thesis
    by (intro that [of st']) (simp add: load_image_def load_copied_def sample_reserve sample_align sample_facts
        sbind_def sample_alloc sample_inv sample_plan_copied son_err_def Let_def unload_def sdiscard_def)
qed

text \<open>A heap that cannot hold the segment list.\<close>

definition tight_heap :: heap where "tight_heap = (\<lambda>k _. k \<noteq> AllocSegments)"

lemma sample_refused: "plan tight_heap sample_image 64 (At 4160) = Err ENOMEM"
  by (simp add: tight_heap_def sample_defs word_eval layout_eval)

section \<open>The rounds of the copy\<close>

text \<open>The bytes of a segment in pieces of 64 KiB, the last of which may be shorter.\<close>

definition copy_chunk :: "'s Vm \<Rightarrow> image_source \<Rightarrow> Phdr \<Rightarrow> u64 \<Rightarrow> nat \<Rightarrow> ('s, unit, error) action" where
  "copy_chunk vm src ph vaddr k =
     sbind (slift (read_exact_at src (p_offset ph + of_nat (65536 * k)) (min 65536 (unat (p_filesz ph) - 65536 * k))))
       (vm_write vm (vaddr + of_nat (65536 * k)))"

abbreviation chunks :: "Phdr \<Rightarrow> nat" where "chunks ph \<equiv> (unat (p_filesz ph) + 65535) div 65536"

lemma copy_file_from:
  assumes "unat (p_offset ph) + unat (p_filesz ph) < 2 ^ 64" and "unat vaddr + unat (p_filesz ph) < 2 ^ 64"
    and "k \<le> chunks ph" and "unat copied = min (65536 * k) (unat (p_filesz ph))"
  shows "copy_file vm src ph vaddr copied = sfor (copy_chunk vm src ph vaddr) [k..<chunks ph]"
  using assms(3,4)
proof (induction "chunks ph - k" arbitrary: k copied)
  case 0
  then have "chunks ph \<le> k" by linarith
  then have "unat (p_filesz ph) \<le> 65536 * k" by linarith
  with 0 have "\<not> copied < p_filesz ph" by (simp add: word_less_nat_alt)
  with \<open>chunks ph \<le> k\<close> show ?case by (simp add: copy_file.simps)
next
  case (Suc d)
  then have k: "k < chunks ph" by linarith
  then have lt: "65536 * k < unat (p_filesz ph)" by linarith
  define n where "n = min COPY_CHUNK (p_filesz ph - copied)"
  have c: "unat copied = 65536 * k" using Suc.prems(2) lt by simp
  then have less: "copied < p_filesz ph" using lt by (simp add: word_less_nat_alt)
  have n: "unat n = min 65536 (unat (p_filesz ph) - 65536 * k)"
    using less c by (auto simp: n_def COPY_CHUNK_def min_def word_le_nat_alt unat_sub_ok word_less_nat_alt)
  note step = copy_step [OF less n_def]
  have cw: "copied = of_nat (65536 * k)" using c by (metis of_nat_unat ucast_id)
  have "unat (copied + n) = min (65536 * Suc k) (unat (p_filesz ph))"
    using step(1) c n lt by simp
  from Suc.hyps(1) [OF _ _ this] Suc.hyps(2) k
  have rest: "copy_file vm src ph vaddr (copied + n) = sfor (copy_chunk vm src ph vaddr) [Suc k..<chunks ph]" by simp
  have adds: "padd (p_offset ph) copied = (Ok (p_offset ph + copied) :: (u64, error) result)"
    "padd vaddr copied = (Ok (vaddr + copied) :: (u64, error) result)"
    using assms(1,2) lt c by (simp_all add: padd_ok)
  have one: "copy_chunk vm src ph vaddr k = sbind (slift (read_exact_at src (p_offset ph + copied) (unat n)))
      (vm_write vm (vaddr + copied))"
    unfolding copy_chunk_def n cw [symmetric] ..
  show ?case
    unfolding copy_file.simps [of vm src ph vaddr copied] Let_def n_def [symmetric] adds
    using k less by (simp add: upt_conv_Cons one rest sbind_def fun_eq_iff split: result.splits prod.splits)
qed

section \<open>Properties\<close>

text \<open>
  C15. A copied image shows what its file says: without file mappings too, byte \<open>k\<close> of every
  loadable segment is at \<open>p_vaddr\<close> plus the bias plus \<open>k\<close> and equals the source's byte at
  \<open>p_offset + k\<close> below \<open>p_filesz\<close>, and zero from there to the end of the segment's last page. The
  memory it occupies was free before, and no byte outside it changes.
\<close>

theorem copied_image_shows_the_file:
  assumes "wf_image (fv_page fv) img" and "fake_inv st" and "heap_is_clear st"
    and "\<not> fv_can_map_files fv \<or> fd = None"
    and "load_image (fake_vm fv fls) heap img (slice_source data) fd st = (Ok l, st')"
    and "0 < unat (reserve_len (ld_plan l))"
  shows "(\<forall>i\<in>set (loads img). \<forall>k. unat (p_vaddr (phdrs img ! i)) + k < seg_hi (fv_page fv) (phdrs img ! i) \<longrightarrow>
      map_option snd (fake_cells st' (unat (p_vaddr (phdrs img ! i)) + unat (bias (ld_plan l)) + k)) =
        Some (if k < unat (p_filesz (phdrs img ! i)) then data ! (unat (p_offset (phdrs img ! i)) + k) else 0))
    \<and> (\<forall>x. if in_reservation l x then fake_cells st x = None
           else map_option snd (fake_cells st' x) = map_option snd (fake_cells st x))"
proof -
  note at = copied_segment_byte [OF assms(1-3) assms(5) [unfolded load_image_copied [OF assms(4)]] assms(6)]
  show ?thesis
  proof (intro conjI ballI allI impI)
    fix i k
    assume i: "i \<in> set (loads img)" and k: "unat (p_vaddr (phdrs img ! i)) + k < seg_hi (fv_page fv) (phdrs img ! i)"
    show "map_option snd (fake_cells st' (unat (p_vaddr (phdrs img ! i)) + unat (bias (ld_plan l)) + k)) =
        Some (if k < unat (p_filesz (phdrs img ! i)) then data ! (unat (p_offset (phdrs img ! i)) + k) else 0)"
      using k by (subst at(1) [OF i]) (simp_all add: sv_def seg_byte_at)
  qed (use at(2,3) in simp)
qed

theorem copied_image_shows_the_file_witness:
  "\<exists>l st'. load_image (fake_vm sample_fv sample_files) any_heap sample_image (slice_source sample_elf) None
       sample_state = (Ok l, st')
     \<and> map_option snd (fake_cells st' 65907) = Some 4 \<and> map_option snd (fake_cells st' 65912) = Some 0"
proof -
  obtain st' where run: "load_image (fake_vm sample_fv sample_files) any_heap sample_image (slice_source sample_elf) None
      sample_state = (Ok \<lparr> ld_plan = copied_plan, allocated = True \<rparr>, st')" by (rule sample_copied)
  have i: "1 \<in> set (loads sample_image)" by (simp add: sample_image_def)
  have f: "unat (p_vaddr (phdrs sample_image ! 1)) = 368" "seg_hi 64 (phdrs sample_image ! 1) = 512"
    "unat (p_filesz (phdrs sample_image ! 1)) = 8" "unat (p_offset (phdrs sample_image ! 1)) = 240"
    "sample_elf ! 243 = 4"
    by (simp_all add: sample_segments sample_phdr_def seg_hi_def ceil_to_def floor_to_def sample_elf_def nth_append
        del: One_nat_def)
  have "heap_is_clear sample_state" by (simp add: fake_cells_def region_cells_def sample_state_def)
  then have "\<forall>i\<in>set (loads sample_image). \<forall>k. unat (p_vaddr (phdrs sample_image ! i)) + k < seg_hi 64 (phdrs sample_image ! i) \<longrightarrow>
      map_option snd (fake_cells st' (unat (p_vaddr (phdrs sample_image ! i)) + 65536 + k)) =
        Some (if k < unat (p_filesz (phdrs sample_image ! i)) then sample_elf ! (unat (p_offset (phdrs sample_image ! i)) + k) else 0)"
    using copied_image_shows_the_file [OF _ sample_inv(1) _ _ run, unfolded sample_inv(2), THEN conjunct1] sample_wf
    by (simp add: copied_plan_def)
  from bspec [OF this i, unfolded f(1-4)]
  have "\<forall>k. 368 + k < (512 :: nat) \<longrightarrow> map_option snd (fake_cells st' (368 + 65536 + k)) =
      Some (if k < 8 then sample_elf ! (240 + k) else 0)"
    by blast
  with spec [OF this, of 3] spec [OF this, of 8] f(5) run show ?thesis by auto
qed

text \<open>
  C23. A copied load that fails gives its memory back: whatever fails, a read error of the source
  included, every byte of the address space is afterwards what it was before. The one exception is
  \<open>ENOMEM\<close>.
\<close>

theorem failed_copy_leaves_nothing:
  assumes "wf_image (fv_page fv) img" and "fake_inv st" and "heap_is_clear st"
    and "img_lo (fv_page fv) img < img_hi (fv_page fv) img"
    and "\<not> fv_can_map_files fv \<or> fd = None"
    and "load_image (fake_vm fv fls) heap img (slice_source data) fd st = (Err e, st')" and "e \<noteq> ENOMEM"
  shows "fake_cells st' = fake_cells st"
proof -
  have "fake_cells st x = None" if "is_power_of_two al" "vm_alloc_aligned (fake_vm fv fls) al len st = (Ok got, st1)"
      "unat got \<le> x" for al len got st1 x
    using fake_alloc_above [OF that(1)] that(2,3) assms(3) by (simp add: fake_vm_ops) (meson le_trans)
  with fake_copy.load_copied_Err [OF assms(1) fake_vm_ops(1) assms(2,4) _
      assms(6) [unfolded load_image_copied [OF assms(5)]]] plan_Err assms(1,7)
  show ?thesis by blast
qed

theorem failed_copy_leaves_nothing_witness:
  "\<exists>st'. load_image (fake_vm sample_fv sample_files) any_heap sample_image (slice_source (take 100 sample_elf)) None
       sample_state = (Err ENOEXEC, st') \<and> fake_cells st' = fake_cells sample_state"
proof -
  obtain st' where run: "load_image (fake_vm sample_fv sample_files) any_heap sample_image
      (slice_source (take 100 sample_elf)) None sample_state = (Err ENOEXEC, st')" by (rule sample_truncated)
  have "heap_is_clear sample_state" by (simp add: fake_cells_def region_cells_def sample_state_def)
  moreover have "img_lo 64 sample_image < img_hi 64 sample_image"
    using va_span_wf(1) [OF sample_wf, of 0 512] by (simp add: sample_reserve)
  ultimately show ?thesis
    using failed_copy_leaves_nothing [OF _ sample_inv(1) _ _ _ run, unfolded sample_inv(2)] sample_wf run
    by (simp add: errno_defs)
qed

text \<open>
  C24. A refused plan leaks the reservation: when the layout of a position-independent image fails
  after its address range has been reserved, the load returns the error and leaves the range
  mapped without access, although every byte of it was free before the load.
\<close>

theorem refused_plan_leaks_reservation:
  assumes "fake_inv st" and "fv_can_map_files fv" and "e_type (ehdr img) = ET_DYN"
    and "reservation_len img (fv_page fv) = Ok need" and "0 < unat need"
    and "fake_map fv fls Anywhere need PROT_NONE Anon st = (Ok raw, st')"
    and "plan heap img (fv_page fv) (At raw) = Err e"
  shows "load_image (fake_vm fv fls) heap img src (Some fd) st = (Err e, st')
    \<and> (\<forall>x. unat raw \<le> x \<and> x < unat raw + unat need \<longrightarrow>
         fake_cells st x = None \<and> fake_cells st' x = Some (PROT_NONE, 0))"
proof -
  have "load_image (fake_vm fv fls) heap img src (Some fd) st = (Err e, st')"
    using assms(2-4,6,7) reservation_len_span [OF assms(4)]
    by (auto simp: load_image_mapped load_mapped_def sbind_def fake_vm_ops)
  moreover have "fake_cells st x = None \<and> fake_cells st' x = Some (PROT_NONE, 0)"
    if "unat raw \<le> x \<and> x < unat raw + unat need" for x
    using fake_map_free [OF assms(1,5) _ assms(6)] that by (auto simp: src_byte_def)
  ultimately show ?thesis by blast
qed

theorem refused_plan_leaks_reservation_witness:
  "\<exists>st'. load_image (fake_vm sample_fv sample_files) tight_heap sample_image (slice_source sample_elf) (Some 3)
       sample_state = (Err ENOMEM, st')
     \<and> fake_cells sample_state 4200 = None \<and> fake_cells st' 4200 = Some (PROT_NONE, 0)"
proof -
  obtain st' where "fake_map sample_fv sample_files Anywhere 576 PROT_NONE Anon sample_state = (Ok 4160, st')"
    by (simp add: fake_eval sample_fv_def sample_state_def prot_defs)
  from refused_plan_leaks_reservation [OF sample_inv(1,3) sample_facts(1) _ _ this, unfolded sample_inv(2),
      OF sample_reserve(2) _ sample_refused]
  show ?thesis by (intro exI [of _ st']) simp
qed

text \<open>
  C19. The loop that copies a segment ends, after exactly as many rounds as the data in the file has
  pieces of 64 KiB, the last one counted when it is shorter, whatever the source returns and the
  address space does: round \<open>k\<close> reads its piece at \<open>p_offset + 65536 k\<close> and writes it at the segment's
  address plus \<open>65536 k\<close>, no piece is read twice or left out, and a segment without data is not
  read at all.
\<close>

theorem copy_rounds:
  assumes "unat (p_offset ph) + unat (p_filesz ph) < 2 ^ 64" and "unat vaddr + unat (p_filesz ph) < 2 ^ 64"
  shows "copy_file vm src ph vaddr 0 = sfor (copy_chunk vm src ph vaddr) [0..<(unat (p_filesz ph) + 65535) div 65536]"
  by (rule copy_file_from [OF assms]) simp_all

theorem copy_rounds_witness:
  "copy_file (fake_vm sample_fv sample_files) (slice_source sample_elf) (sample_phdr PT_LOAD 5 64 64 70000 70000 64) 4096 0
   = sfor (copy_chunk (fake_vm sample_fv sample_files) (slice_source sample_elf) (sample_phdr PT_LOAD 5 64 64 70000 70000 64) 4096)
       [0, 1]"
proof -
  have "[0..<2] = [0, 1 :: nat]" by (simp add: upt_rec)
  then show ?thesis
    using copy_rounds [of "sample_phdr PT_LOAD 5 64 64 70000 70000 64" 4096 "fake_vm sample_fv sample_files" "slice_source sample_elf"]
    by (simp add: sample_phdr_def)
qed

end
