(* ===== verification/Boot.thy ===== *)
theory Boot
  imports App_Facts Copied_Loads
begin

text \<open>
  A machine on which the boot program and the binary format handler can be run from start to end:
  a kernel that serves one position-independent image, as its initrd and as its only file, has one
  thread to give and one slot for the pointer of the format handler. It is used to show that the
  hypotheses of the properties can be met.
\<close>

section \<open>The machine\<close>

definition boot_cfg :: Cfg where
  "boot_cfg = \<lparr> stack_len = 8192, cf_page_size = 64, cf_uid = 0, cf_gid = 0, have_vfs = 1, have_mmap = 0,
     have_vmem = 0, have_environ = 0, have_random = 0, have_pthread = 0, vfsexec = 0, customappname = 0,
     envpath = 0, envpwd = 0, execbit = 0, cf_debug = 0, vfsexec_path = 0, vdso_addr = 0 \<rparr>"

definition boot_shim :: "u64 Shim" where
  "boot_shim =
    \<lparr> elfrs_cfg_get = (\<lambda>m. (boot_cfg, m)), elfrs_memalign = (\<lambda>_ _ m. (65536, m)), elfrs_free = (\<lambda>_ m. ((), m)),
      elfrs_map = (\<lambda>_ _ _ _ _ _ _ m. ((0, 38), m)), elfrs_unmap = (\<lambda>_ _ m. (0, m)), elfrs_protect = (\<lambda>_ _ _ m. (0, m)),
      elfrs_open_ro = (\<lambda>_ m. (3, m)), elfrs_close = (\<lambda>_ m. ((), m)),
      elfrs_pread = (\<lambda>_ len off m.
        let n = min (unat len) (250 - unat off) in ((of_nat n, take n (drop (unat off) ld_elf)), m)),
      elfrs_fsize = (\<lambda>_ m. (250, m)), elfrs_fd_is_exec = (\<lambda>_ m. (0, m)), elfrs_path_is_exec = (\<lambda>_ m. (0, m)),
      elfrs_environ = (\<lambda>m. (0, m)), elfrs_getenv = (\<lambda>_ m. (0, m)), elfrs_chdir = (\<lambda>_ m. (0, m)),
      elfrs_random_fill = (\<lambda>_ m. ((- 1, []), m)), elfrs_initrd = (\<lambda>m. ((0, 0x100000, 250), m)),
      elfrs_thread_create = (\<lambda>_ _ m. (5, m)), elfrs_thread_release = (\<lambda>_ m. ((), m)),
      elfrs_thread_ctx = (\<lambda>_ m. (6, m)), elfrs_thread_stack_base = (\<lambda>_ m. (4096, m)),
      elfrs_thread_set_runnable = (\<lambda>_ m. ((), m)), elfrs_thread_make_pthread = (\<lambda>_ m. (0, m)),
      elfrs_thread_schedule = (\<lambda>_ m. (0, m)), elfrs_ctx_get_sp = (\<lambda>_ m. (12288, m)),
      elfrs_ctx_init = (\<lambda>_ _ _ m. ((), m)),
      elfrs_icache_sync = (\<lambda>_ _ m. ((), m)), elfrs_hwcap = (\<lambda>m. (0, m)), elfrs_hwcap2 = (\<lambda>m. (0, m)),
      elfrs_platform = (\<lambda>m. (0, m)) \<rparr>"

text \<open>The image lies at \<open>0x100000\<close> and the path \<open>/p\<close> at \<open>0x200000\<close>.\<close>

definition boot_machine :: "u64 Machine" where
  "boot_machine = \<lparr> mc_mem = poke 0x200000 [0x2f, 0x70, 0] (poke 0x100000 ld_elf (\<lambda>_. 0)),
     mc_cfg = Some boot_cfg, mc_boxes = (\<lambda>_. None), mc_kernel = 0 \<rparr>"

definition boot_binfmt :: "u64 Binfmt" where
  "boot_binfmt =
    \<lparr> elfrs_binfmt_pathname = (\<lambda>_ m. (0x200000, m)), elfrs_binfmt_progname = (\<lambda>_ m. (0, m)),
      elfrs_binfmt_argc = (\<lambda>_ m. (0, m)), elfrs_binfmt_argv = (\<lambda>_ m. (0, m)),
      elfrs_binfmt_envc = (\<lambda>_ m. (0, m)), elfrs_binfmt_envp = (\<lambda>_ m. (0, m)),
      elfrs_binfmt_ctx = (\<lambda>_ m. (6, m)), elfrs_binfmt_stack_size = (\<lambda>_ m. (8192, m)),
      elfrs_binfmt_set_user = (\<lambda>_ u m. ((), m\<lparr> mc_kernel := u \<rparr>)),
      elfrs_binfmt_get_user = (\<lambda>_ m. (mc_kernel m, m)) \<rparr>"

section \<open>Loading the image\<close>

definition boot_program :: LoadedProgram where
  "boot_program = \<lparr> lp_image = ld_image, lp_main = \<lparr> ld_plan = copied_plan, allocated = True \<rparr>,
     lp_interp = None, lp_interp_path = None \<rparr>"

lemma ld_plan_copied: "plan any_heap ld_image 64 (At 65536) = Ok copied_plan"
  by (simp add: ld_defs word_eval layout_eval copied_plan_def)

lemma ld_align: "seg_align ld_image 64 = Ok 128"
  by (simp add: ld_defs word_eval layout_eval)

lemma ld_segments:
  "phdrs ld_image ! 2 = sample_phdr PT_LOAD 5 0 0 240 240 128"
  "phdrs ld_image ! 1 = sample_phdr PT_LOAD 6 240 368 8 96 64"
  by (simp_all add: ld_image_def ld_phdrs_def)

lemma boot_vm:
  "vm_page_size (UkVm boot_shim boot_cfg) = 64" "vm_can_map_files (UkVm boot_shim boot_cfg) = False"
  "vm_alloc_aligned (UkVm boot_shim boot_cfg) al len m = (Ok 65536, m)"
  "vm_write (UkVm boot_shim boot_cfg) = uk_write" "vm_zero (UkVm boot_shim boot_cfg) = uk_zero"
  "vm_icache_sync (UkVm boot_shim boot_cfg) a len m = (Ok (), m)"
  "vm_protect (UkVm boot_shim boot_cfg) a len p m = (Ok (), m)"
  "vm_free_aligned (UkVm boot_shim boot_cfg) a len m = (Ok (), m)"
  by (simp_all add: UkVm_def boot_cfg_def boot_shim_def uk_alloc_aligned_def sbind_def call_def uk_protect_def
      c_status_def from_c_def)

lemma boot_fill:
  assumes "reads_like src ld_elf"
  obtains mem where "fill_copied (UkVm boot_shim boot_cfg) any_heap ld_image src copied_plan m
      = (Ok (), m\<lparr> mc_mem := mem \<rparr>)"
proof -
  have rd: "read_exact_at src 0 240 = Ok (take 240 ld_elf)" "read_exact_at src 240 8 = Ok (take 8 (drop 240 ld_elf))"
    using assms by (simp_all add: reads_like_def)
  show thesis
    by (rule that, simp add: fill_copied_def any_heap_def exec_ranges_def protect_segment_def sdiscard_def
        fill_copied_segment_def index_at_def ld_facts seg_range_def word_eval copy_file_chunk COPY_CHUNK_def
        ld_segments sample_phdr_def sbind_def boot_vm copied_plan_def rd uk_write_def uk_zero_def
        is_exec_def PF_X_def Let_def del: One_nat_def)
qed

lemma boot_load_image:
  assumes "reads_like src ld_elf"
  obtains mem where "load_image (UkVm boot_shim boot_cfg) any_heap ld_image src None m
      = (Ok \<lparr> ld_plan = copied_plan, allocated = True \<rparr>, m\<lparr> mc_mem := mem \<rparr>)"
proof -
  obtain mem where "fill_copied (UkVm boot_shim boot_cfg) any_heap ld_image src copied_plan m = (Ok (), m\<lparr> mc_mem := mem \<rparr>)"
    by (rule boot_fill [OF assms])
  then show thesis
    by (intro that [of mem]) (simp add: load_image_def load_copied_def ld_facts ld_align sbind_def boot_vm
        ld_plan_copied son_err_def Let_def)
qed

lemma ld_checks:
  "check_stack_request ld_image = Ok ()" "\<not> needs_interp ld_image"
  "psub (end_addr copied_plan) (base copied_plan) = (Ok 512 :: (u64, error) result)"
  "entry_is_executable ld_image copied_plan = Ok True"
  by (simp_all add: check_stack_request_def ld_image_def needs_interp_def copied_plan_def word_eval
      entry_is_executable_def seg_range_def prot_defs)

lemma boot_load:
  assumes "op_open opener path m = (Ok \<lparr> op_src = src, op_fd = None, op_owned = fd \<rparr>, m)"
    and "reads_like src ld_elf" and "op_drop opener = Opened_drop boot_shim"
  obtains mem where "load_program OtherArch any_heap opener (UkVm boot_shim boot_cfg) path m
      = (Ok boot_program, m\<lparr> mc_mem := mem \<rparr>)"
proof -
  obtain mem where ld: "load_image (UkVm boot_shim boot_cfg) any_heap ld_image src None m
      = (Ok \<lparr> ld_plan = copied_plan, allocated = True \<rparr>, m\<lparr> mc_mem := mem \<rparr>)"
    by (rule boot_load_image [OF assms(2)])
  have close: "Opened_drop boot_shim op n = (Ok (), n)" for op n
    by (simp add: Opened_drop_def boot_shim_def call_def split: option.splits)
  show thesis
    by (rule that, simp add: load_program_def Let_def with_opened_def sbind_def sfinally_def assms(1,3) boot_vm
        ld_parse_from [OF assms(2)] ld_checks ld close boot_program_def)
qed

lemma boot_cfg_get: "mc_cfg m = Some boot_cfg \<Longrightarrow> cfg boot_shim m = (Ok boot_cfg, m)"
  by (simp add: cfg_def)

lemma boot_initrd_reads: "reads_like (mem_image (mc_mem boot_machine) 0x100000 250) ld_elf"
proof -
  have "mem_bytes (mc_mem boot_machine) 0x100000 250 = mem_bytes (poke 0x100000 ld_elf (\<lambda>_. 0)) 0x100000 250"
  proof (rule nth_equalityI)
    fix i assume "i < length (mem_bytes (mc_mem boot_machine) 0x100000 250)"
    then have i: "i < 250" by simp
    then have "unat (of_nat i :: u64) = i" by (simp add: unat_of_nat take_bit_nat_eq_self_iff)
    then have "unat (0x100000 + of_nat i - 0x200000 :: u64) \<ge> 3"
      using i by (simp add: unat_sub_if_size word_size unat_plus_of_nat)
    with i show "mem_bytes (mc_mem boot_machine) 0x100000 250 ! i = mem_bytes (poke 0x100000 ld_elf (\<lambda>_. 0)) 0x100000 250 ! i"
      by (simp add: mem_bytes_nth boot_machine_def poke_def)
  qed simp
  then have "mem_bytes (mc_mem boot_machine) 0x100000 250 = ld_elf"
    by (simp add: mem_bytes_poke)
  then show ?thesis
    using mem_bytes_slice [of _ _ 250 "mc_mem boot_machine" "0x100000"]
    by (auto simp: reads_like_def mem_image_def)
qed

text \<open>A kernel that reads as much as is asked for and there serves the file.\<close>

lemma serves_whole:
  assumes "\<And>len off m. elfrs_pread sh fd len off m =
      ((of_nat (min (unat len) (length body - unat off)), take (min (unat len) (length body - unat off)) (drop (unat off) body)), m)"
    and "length body < 2 ^ 63"
  shows "serves sh fd body"
proof (unfold serves_def, intro allI impI)
  fix len off :: u64 and m
  assume "0 < unat len" "unat off < 2 ^ 63"
  define n where "n = min (unat len) (length body - unat off)"
  have "n < 2 ^ 63" using assms(2) by (simp add: n_def)
  then have n: "unat (of_nat n :: i64) = n" "sint (of_nat n :: i64) = int n"
    by (simp_all add: unat_of_nat take_bit_nat_eq_self_iff signed_of_nat signed_take_bit_int_eq_self_iff)
  have bounds: "length body \<le> unat off \<longrightarrow> n = 0"
      "unat off < length body \<longrightarrow> 0 < n \<and> n \<le> unat len \<and> unat off + n \<le> length body"
    using \<open>0 < unat len\<close> by (auto simp: n_def)
  have "elfrs_pread sh fd len off m = ((of_nat n, take n (drop (unat off) body)), m)" by (simp add: assms(1) n_def)
  then show "case elfrs_pread sh fd len off m of ((n, data), _) \<Rightarrow>
      if length body \<le> unat off then n = 0
      else 0 < sint n \<and> unat n \<le> unat len \<and> unat off + unat n \<le> length body
        \<and> data = take (unat n) (drop (unat off) body)"
    using n bounds by simp
qed

lemma serves_reads_like:
  assumes "serves sh (sf_fd f) body" and "sf_size f = Some (of_nat (length body))" and "length body \<le> 2 ^ 63"
  shows "reads_like (file_source sh f m) body"
proof -
  have "fst (File_read_exact_at sh f off n m) = Ok (take n (drop (unat off) body))"
    if "0 < n" "unat off + n \<le> length body" for off n
    using pread_loop_serves [OF assms(1), of off "replicate n 0" 0 m] that assms(3) by (auto simp: File_read_exact_at_def)
  then show ?thesis using assms(2) by (simp add: reads_like_def file_source_def)
qed

lemma boot_serves: "serves boot_shim fd ld_elf"
  by (rule serves_whole) (simp_all add: boot_shim_def Let_def)

lemma boot_file_reads: "reads_like (file_source boot_shim \<lparr> sf_fd = 3, sf_size = Some 250 \<rparr> m) ld_elf"
  by (rule serves_reads_like) (simp_all add: boot_serves)

section \<open>Building the stack\<close>

lemma boot_environment:
  assumes "mc_cfg m = Some boot_cfg"
  obtains env where "app_environment boot_shim boot_cfg path m = (Ok env, m)"
    and "en_platform env = []" and "en_execfn env = path" and "length (en_random env) = 16"
proof -
  have "platform boot_shim m = (Ok [], m)" "hwcap boot_shim m = (Ok (0, 0), m)"
    by (simp_all add: platform_def hwcap_def cstr_of_def cstr_def sbind_def call_def boot_shim_def)
  moreover obtain r where "random_bytes boot_shim m = (Ok r, m)" "length r = 16"
    by (simp add: random_bytes_def Let_def sbind_def boot_cfg_get [OF assms] boot_cfg_def)
  ultimately have "\<exists>env. app_environment boot_shim boot_cfg path m = (Ok env, m)
      \<and> en_platform env = [] \<and> en_execfn env = path \<and> length (en_random env) = 16"
    by (simp add: app_environment_def sbind_def)
  with that show thesis by blast
qed

lemma boot_auxv:
  obtains aux where "program_auxv OtherArch boot_program env = Ok aux" and "ax_platform aux = en_platform env"
    and "ax_execfn aux = en_execfn env" and "ax_random aux = en_random env"
proof -
  have "phdr_addr copied_plan ld_image = Ok (Some 65600)"
    by (simp add: phdr_addr_def copied_plan_def ld_defs word_eval covers_def)
  then obtain aux where "program_auxv OtherArch boot_program env = Ok aux"
    by (simp add: program_auxv_def boot_program_def)
  with that show thesis by (auto simp: program_auxv_def outcome_simps)
qed

lemma boot_stack:
  assumes "ax_platform aux = []" and "length (ax_execfn aux) \<le> 8" and "length (ax_random aux) = 16" and "length s \<le> 8"
  obtains l m' where "build_stack any_heap (AppStack 4096 12288) [s] [] aux m = (Ok l, m')"
proof -
  have "yields (build_stack any_heap (AppStack 4096 12288) [s] [] aux) m (\<lambda>_ _. True) (\<lambda>_ _. False)"
    using app_writer.build_stack_yields [of 4096 12288 any_heap "[s]" "[]" aux m] assms
    by (rule_tac yields_weaken) (auto simp: AppStack_def over_budget_def ARG_MAX_LEN_def stack_need_def any_heap_def)
  then show thesis by (auto elim!: yieldsE intro: that)
qed

section \<open>Whole runs\<close>

lemma boot_cfg_fields:
  "vfsexec boot_cfg = 0" "customappname boot_cfg = 0" "envpath boot_cfg = 0" "envpwd boot_cfg = 0"
  "have_environ boot_cfg = 0" "have_pthread boot_cfg = 0" "have_mmap boot_cfg = 0"
  by (simp_all add: boot_cfg_def)

lemma boot_calls:
  "elfrs_initrd boot_shim m = ((0, 0x100000, 250), m)" "elfrs_thread_create boot_shim s n m = (5, m)"
  "elfrs_thread_ctx boot_shim t m = (6, m)" "elfrs_thread_stack_base boot_shim t m = (4096, m)"
  "elfrs_ctx_get_sp boot_shim x m = (12288, m)" "elfrs_ctx_init boot_shim x a b m = ((), m)"
  "elfrs_thread_set_runnable boot_shim t m = ((), m)" "elfrs_thread_schedule boot_shim t m = (0, m)"
  "elfrs_memalign boot_shim a n m = (65536, m)" "elfrs_free boot_shim a m = ((), m)"
  "elfrs_open_ro boot_shim s m = (3, m)" "elfrs_fsize boot_shim fd m = (250, m)"
  by (simp_all add: boot_shim_def)

abbreviation boot_target_of :: Target where
  "boot_target_of \<equiv> \<lparr> tg_path = initrd_path, tg_progname = [0x6b], tg_rest = [] \<rparr>"

lemma boot_machine_cfg: "mc_cfg boot_machine = Some boot_cfg"
  by (simp add: boot_machine_def)

lemma boot_prepare:
  "prepare boot_shim any_heap [[0x6b]] boot_machine = (Ok (boot_cfg, boot_target_of, [0x6b, 0]), boot_machine)"
  "prepare boot_shim any_heap [] boot_machine = (Err EINVAL, boot_machine)"
  by (simp_all add: prepare_def sbind_def boot_cfg_get [OF boot_machine_cfg] split_command_line_def resolve_def
      CString_new_def any_heap_def boot_cfg_fields)

lemma boot_empty_run: "run OtherArch boot_shim any_heap [] boot_machine = (Err EINVAL, boot_machine)"
  by (simp add: run_def sbind_def boot_prepare)

lemma boot_target:
  obtains mem where "load_target OtherArch boot_shim any_heap boot_cfg boot_target_of boot_machine
      = (Ok boot_program, boot_machine\<lparr> mc_mem := mem \<rparr>)"
proof -
  have "op_open (InitrdOpener boot_shim 0x100000 250) initrd_path boot_machine
      = (Ok \<lparr> op_src = mem_image (mc_mem boot_machine) 0x100000 250, op_fd = None, op_owned = None \<rparr>, boot_machine)"
    "op_drop (InitrdOpener boot_shim 0x100000 250) = Opened_drop boot_shim"
    by (simp_all add: InitrdOpener_def)
  then obtain mem where "load_program OtherArch any_heap (InitrdOpener boot_shim 0x100000 250) (UkVm boot_shim boot_cfg)
      initrd_path boot_machine = (Ok boot_program, boot_machine\<lparr> mc_mem := mem \<rparr>)"
    by (rule boot_load [OF _ boot_initrd_reads])
  then show thesis
    by (intro that [of mem]) (simp add: load_target_def sbind_def call_def boot_cfg_fields boot_calls)
qed

text \<open>The environment, the auxiliary vector and the stack of a program on this machine, in one step.\<close>

lemma boot_layout:
  assumes "mc_cfg m = Some boot_cfg" and "length path \<le> 8" and "length s \<le> 8"
  obtains env aux l m' where "app_environment boot_shim boot_cfg path m = (Ok env, m)"
    and "program_auxv OtherArch boot_program env = Ok aux"
    and "build_stack any_heap (AppStack 4096 12288) [s] [] aux m = (Ok l, m')"
proof -
  obtain env where env: "app_environment boot_shim boot_cfg path m = (Ok env, m)" "en_platform env = []"
      "en_execfn env = path" "length (en_random env) = 16"
    by (rule boot_environment [OF assms(1)])
  obtain aux where aux: "program_auxv OtherArch boot_program env = Ok aux" "ax_platform aux = en_platform env"
      "ax_execfn aux = en_execfn env" "ax_random aux = en_random env"
    by (rule boot_auxv)
  obtain l m' where "build_stack any_heap (AppStack 4096 12288) [s] [] aux m = (Ok l, m')"
    using aux env assms by (elim boot_stack [rotated -1]) simp_all
  with env(1) aux(1) show thesis by (rule that)
qed

lemma boot_lengths:
  "length initrd_path \<le> 8" "length [0x6b :: u8] \<le> 8" "length [0x2f, 0x70 :: u8] \<le> 8" "length [0x70 :: u8] \<le> 8"
  by (simp_all add: initrd_path_def)

lemma boot_run:
  obtains m' where "run OtherArch boot_shim any_heap [[0x6b]] boot_machine = (Ok Parks, m')"
proof -
  obtain mem where load: "load_target OtherArch boot_shim any_heap boot_cfg boot_target_of boot_machine
      = (Ok boot_program, boot_machine\<lparr> mc_mem := mem \<rparr>)" by (rule boot_target)
  let ?m = "boot_machine\<lparr> mc_mem := mem \<rparr>"
  have cm: "mc_cfg ?m = Some boot_cfg" by (simp add: boot_machine_def)
  obtain env aux l m' where st: "app_environment boot_shim boot_cfg initrd_path ?m = (Ok env, ?m)"
      "program_auxv OtherArch boot_program env = Ok aux"
      "build_stack any_heap (AppStack 4096 12288) [[0x6b]] [] aux ?m = (Ok l, m')"
    by (rule boot_layout [OF cm boot_lengths(1,2)])
  have "environ boot_shim ?m = (Ok [], ?m)"
    by (simp add: environ_def sbind_def boot_cfg_get [OF cm] boot_cfg_fields)
  moreover have "start_thread boot_shim boot_cfg 5 6 boot_program l m' = (Ok Parks, m')"
    by (simp add: start_thread_def sbind_def call_def boot_calls boot_cfg_fields)
  moreover have "any_heap AllocAppArgv 1" by (simp add: any_heap_def)
  ultimately have "start_app OtherArch boot_shim any_heap boot_cfg boot_target_of 5 boot_program ?m = (Ok Parks, m')"
    by (simp add: start_app_def sbind_def call_def boot_calls st son_err_def)
  then have "run OtherArch boot_shim any_heap [[0x6b]] boot_machine = (Ok Parks, m')"
    by (simp add: run_def ThreadGuard_drop_def sbind_def boot_prepare load son_err_def call_def change_dir_def boot_calls boot_cfg_fields)
  then show thesis by (rule that)
qed

lemma boot_request: "binfmt_request boot_binfmt 1 boot_machine = (Ok ([0x2f, 0x70], [0x70], [], []), boot_machine)"
proof -
  have "cstr (mc_mem boot_machine) 0x200000 = Ok [0x2f, 0x70]"
    using cstr_poke [of "0x200000" "[0x2f, 0x70]"] by (simp add: boot_machine_def)
  moreover have "cstr mem 0 = Ok []" for mem by (simp add: cstr_def)
  moreover have "basename [0x2f, 0x70] = [0x70]" by (simp add: basename_def)
  ultimately show ?thesis
    by (simp add: binfmt_request_def sbind_def call_def boot_binfmt_def cstr_of_def vec_from_c_def)
qed

lemma boot_open:
  assumes "mc_cfg m = Some boot_cfg"
  shows "op_open (BinfmtOpener boot_shim any_heap) [0x2f, 0x70] m
    = (Ok \<lparr> op_src = file_source boot_shim \<lparr> sf_fd = 3, sf_size = Some 250 \<rparr> m, op_fd = None, op_owned = Some 3 \<rparr>, m)"
  by (simp add: BinfmtOpener_def File_open_def CString_new_def any_heap_def sbind_def call_def boot_calls
      boot_cfg_get [OF assms] boot_cfg_fields)

lemma boot_binfmt_calls:
  "elfrs_binfmt_ctx boot_binfmt a m = (6, m)" "elfrs_binfmt_stack_size boot_binfmt a m = (8192, m)"
  "elfrs_binfmt_set_user boot_binfmt a u m = ((), m\<lparr> mc_kernel := u \<rparr>)"
  "elfrs_binfmt_get_user boot_binfmt a m = (mc_kernel m, m)"
  by (simp_all add: boot_binfmt_def)

lemma boot_binfmt_load:
  obtains m' where "binfmt_load OtherArch boot_shim boot_binfmt any_heap 200 1 boot_machine = (Ok HANDLED, m')"
proof -
  note c = boot_machine_cfg
  have "op_drop (BinfmtOpener boot_shim any_heap) = Opened_drop boot_shim" by (simp add: BinfmtOpener_def)
  then obtain mem where load: "load_program OtherArch any_heap (BinfmtOpener boot_shim any_heap) (UkVm boot_shim boot_cfg)
      [0x2f, 0x70] boot_machine = (Ok boot_program, boot_machine\<lparr> mc_mem := mem \<rparr>)"
    by (rule boot_load [OF boot_open [OF c] boot_file_reads])
  let ?m = "boot_machine\<lparr> mc_mem := mem \<rparr>"
  have cm: "mc_cfg ?m = Some boot_cfg" by (simp add: boot_machine_def)
  obtain env aux l m' where st: "app_environment boot_shim boot_cfg [0x2f, 0x70] ?m = (Ok env, ?m)"
      "program_auxv OtherArch boot_program env = Ok aux"
      "build_stack any_heap (AppStack 4096 12288) [[0x70]] [] aux ?m = (Ok l, m')"
    by (rule boot_layout [OF cm boot_lengths(3,4)])
  show thesis
    by (rule that, simp add: binfmt_load_def sbind_def boot_cfg_get [OF c] boot_request load call_def boot_calls
        st son_err_def Box_into_raw_def UkHeap_alloc_def boot_binfmt_calls)
qed

lemma boot_binfmt_unload:
  assumes "binfmt_load OtherArch boot_shim boot_binfmt any_heap 200 1 boot_machine = (Ok HANDLED, m)"
  obtains m' where "elfrs_binfmt_unload boot_shim boot_binfmt boot_cfg 1 m = (Ok HANDLED, m')"
proof -
  obtain loaded boxed m6 where ld: "boxed \<noteq> 0" "mc_boxes m6 boxed = Some loaded"
      "elfrs_binfmt_set_user boot_binfmt 1 boxed m6 = ((), m)"
    by (rule binfmt_load_Ok [OF assms])
  then have user: "mc_kernel m = boxed" "mc_boxes m boxed = Some loaded" by (auto simp: boot_binfmt_calls)
  have "vm_unmap (UkVm boot_shim boot_cfg) a len n = (Ok (), n)" for a len n
    by (simp add: UkVm_def uk_unmap_def boot_shim_def sbind_def call_def c_status_def from_c_def)
  then have "unload (UkVm boot_shim boot_cfg) l n = (Ok (), n)" for l n
    by (simp add: unload_def boot_vm sdiscard_def)
  then have "unload_program (UkVm boot_shim boot_cfg) loaded m = (Ok (), m)"
    by (simp add: unload_program_def sbind_def split: option.splits prod.splits)
  with user ld(1) show thesis
    by (intro that) (simp add: elfrs_binfmt_unload_def sbind_def call_def boot_binfmt_calls Box_from_raw_def
        Box_drop_def UkHeap_dealloc_def boot_calls)
qed

end
