(* ===== verification/Startup.thy ===== *)
theory Startup
  imports Boot
begin

text \<open>
  The properties of the boot program and of the binary format handler, for every kernel below them:
  each is stated for an arbitrary record of C functions, and shown to apply on the machine of
  \<open>Boot\<close>.
\<close>

section \<open>Properties\<close>



text \<open>
  A failure is never reported as success: when the boot program returns to the kernel at all,
  its exit status is not zero.
\<close>

theorem exit_status_nonzero:
  assumes "elfrs_main arch sh heap argc argv m = (Ok (Some code), m')"
  shows "code \<noteq> 0"
proof -
  have "r = Parks" if run: "run arch sh heap args m = (Ok r, m1)" for args r m1
    by (rule run_Ok [OF run], erule start_app_ends)
  with assms show ?thesis
    by (auto simp: elfrs_main_def split: result.splits prod.splits run_end.splits if_splits)
qed

theorem exit_status_nonzero_witness:
  "\<exists>code m'. elfrs_main OtherArch boot_shim any_heap 0 0 boot_machine = (Ok (Some code), m') \<and> code \<noteq> 0"
proof -
  have "elfrs_main OtherArch boot_shim any_heap 0 0 boot_machine = (Ok (Some 22), boot_machine)"
    by (simp add: elfrs_main_def collect_argv_def boot_empty_run EINVAL_def)
  from exit_status_nonzero [OF this] this show ?thesis by blast
qed



text \<open>
  A program from the initrd gets no interpreter from elsewhere: if the loaded image asks for an
  interpreter by any name but that of the initrd itself, loading fails; there is no file system to
  find it in.
\<close>

theorem initrd_has_no_interpreter:
  assumes "vfsexec c = 0" and "load_target arch sh heap c target m = (Ok p, m')"
    and "lp_interp_path p \<noteq> Some initrd_path"
  shows "lp_interp p = None \<and> \<not> needs_interp (lp_image p)"
proof -
  from assms(1,2) obtain start len m1 where
    "load_program arch heap (InitrdOpener sh start len) (UkVm sh c) initrd_path m1 = (Ok p, m')"
    by (auto simp: load_target_def outcome_simps split: if_splits prod.splits)
  then obtain s2 s3 and op :: Opened where "case lp_interp_path p of
           None \<Rightarrow> \<not> needs_interp (lp_image p) \<and> lp_interp p = None \<and> s3 = s2
         | Some ip \<Rightarrow> needs_interp (lp_image p) \<and> interp_path heap (lp_image p) (op_src op) = Ok ip
             \<and> (\<exists>v. load_interp arch heap (InitrdOpener sh start len) (UkVm sh c) (vm_page_size (UkVm sh c)) ip s2 = (Ok v, s3)
                \<and> lp_interp p = Some v)"
    by (rule load_program_Ok)
  with assms(3) show ?thesis by (cases "lp_interp_path p") (auto dest: initrd_interp)
qed

theorem initrd_has_no_interpreter_witness:
  "\<exists>m'. load_target OtherArch boot_shim any_heap boot_cfg \<lparr> tg_path = initrd_path, tg_progname = [0x6b], tg_rest = [] \<rparr>
       boot_machine = (Ok boot_program, m') \<and> lp_interp boot_program = None"
proof -
  obtain m' where run: "load_target OtherArch boot_shim any_heap boot_cfg
      \<lparr> tg_path = initrd_path, tg_progname = [0x6b], tg_rest = [] \<rparr> boot_machine = (Ok boot_program, m')"
    by (rule boot_target)
  have "lp_interp_path boot_program \<noteq> Some initrd_path" by (simp add: boot_program_def)
  from initrd_has_no_interpreter [OF boot_cfg_fields(1) run this] run show ?thesis by blast
qed

text \<open>
  C25. The one failure that forgets the program: when the vector of the arguments cannot be
  allocated, the boot program gives up without unloading, so that the state it leaves is the one
  right after the last query of the stack, with the program still loaded.
\<close>

theorem argv_refusal_keeps_program:
  assumes "elfrs_thread_ctx sh thread m = (ctx, m1)" and "elfrs_thread_stack_base sh thread m1 = (lo, m2)"
    and "elfrs_ctx_get_sp sh ctx m2 = (hi, m3)" and "lo < hi"
    and "\<not> heap AllocAppArgv (length (tg_rest target) + 1)"
  shows "start_app arch sh heap c target thread loaded m = (Err ENOMEM, m3)"
  using assms by (auto simp: start_app_def sbind_def call_def)

theorem argv_refusal_keeps_program_witness:
  "start_app OtherArch boot_shim (\<lambda>k _. k \<noteq> AllocAppArgv) boot_cfg
     \<lparr> tg_path = initrd_path, tg_progname = [0x6b], tg_rest = [] \<rparr> 5 boot_program boot_machine = (Err ENOMEM, boot_machine)"
  by (rule argv_refusal_keeps_program [OF boot_calls(3) boot_calls(4) boot_calls(5)]) (simp_all add: word_less_nat_alt)





text \<open>
  The status tells the kernel the truth: the handler reports success only for a load that
  succeeded or failed with error number 0, leaves the file to other handlers exactly when the load
  failed with \<open>ENOEXEC\<close>, and otherwise reports the negated error number.
\<close>

theorem binfmt_status:
  assumes "elfrs_binfmt_load arch sh bf heap box_size args m = (Ok code, m')"
  shows "case binfmt_load arch sh bf heap box_size args m of
      (Ok rc, n) \<Rightarrow> code = HANDLED \<and> n = m'
    | (Err e, n) \<Rightarrow> n = m' \<and> code = (if e = ENOEXEC then NOT_HANDLED else - errno e)
        \<and> (code = HANDLED \<longrightarrow> errno e = 0)
    | (Panic, n) \<Rightarrow> False"
proof -
  have "rc = HANDLED" if "binfmt_load arch sh bf heap box_size args m = (Ok rc, n)" for rc n
    by (rule binfmt_load_Ok [OF that])
  with assms show ?thesis
    by (auto simp: elfrs_binfmt_load_def as_neg_def HANDLED_def NOT_HANDLED_def split: prod.splits result.splits if_splits)
qed

theorem binfmt_status_witness:
  "\<exists>code m'. elfrs_binfmt_load OtherArch boot_shim boot_binfmt any_heap 200 1 boot_machine = (Ok code, m') \<and> code = HANDLED"
proof -
  obtain m' where run: "binfmt_load OtherArch boot_shim boot_binfmt any_heap 200 1 boot_machine = (Ok HANDLED, m')"
    by (rule boot_binfmt_load)
  then have "elfrs_binfmt_load OtherArch boot_shim boot_binfmt any_heap 200 1 boot_machine = (Ok HANDLED, m')"
    by (simp add: elfrs_binfmt_load_def)
  from binfmt_status [OF this] this run show ?thesis by simp
qed

end
