(* ===== verification/Elf_Builder.thy ===== *)
theory Elf_Builder
  imports Elf_Facts Sample
begin

text \<open>
  The ELF writer of the test suite, \<open>ElfBuilder\<close> of \<open>rust/src/testutil.rs\<close>: the shapes of images the
  tests load, the modifiers, and \<open>build\<close>, which serialises the headers over a recognisable pattern.
  What it writes is shown to be what the parsers of \<open>elf.rs\<close> read, so that the fixtures of the tests
  are the images their names promise.
\<close>

section \<open>Builder and shapes\<close>

definition EI_ABIVERSION :: nat where "EI_ABIVERSION = 8"
definition PT_DYNAMIC :: u32 where "PT_DYNAMIC = 2"

record ElfBuilder =
  eb_type :: u16
  eb_machine :: u16
  eb_entry :: u64
  eb_phdrs :: "Phdr list"
  eb_overlays :: "(u64 \<times> bytes) list"
  eb_patches :: "(nat \<times> (Phdr \<Rightarrow> Phdr)) list"
  eb_force_phnum :: "u16 option"
  eb_reverse :: bool

definition seg :: "u32 \<Rightarrow> u64 \<Rightarrow> u64 \<Rightarrow> u64 \<Rightarrow> u64 \<Rightarrow> u64 \<Rightarrow> Phdr" where
  "seg flags off va filesz memsz al =
    \<lparr> p_type = PT_LOAD, p_flags = flags, p_offset = off, p_vaddr = va, p_paddr = va,
      p_filesz = filesz, p_memsz = memsz, p_align = al \<rparr>"

definition ElfBuilder_new :: "target_arch \<Rightarrow> ElfBuilder" where
  "ElfBuilder_new arch =
    \<lparr> eb_type = ET_DYN, eb_machine = EM_NATIVE arch, eb_entry = 0x400, eb_phdrs = [], eb_overlays = [],
      eb_patches = [], eb_force_phnum = None, eb_reverse = False \<rparr>"

definition pie_two_segment :: "ElfBuilder \<Rightarrow> ElfBuilder" where
  "pie_two_segment eb = eb\<lparr> eb_phdrs :=
     [seg (PF_R OR PF_X) 0x0 0x0 0x1000 0x1000 0x1000,
      seg (PF_R OR PF_W) 0x1000 0x2000 0x500 0x1500 0x1000] \<rparr>"

definition non_pie :: "ElfBuilder \<Rightarrow> ElfBuilder" where
  "non_pie eb = eb\<lparr> eb_type := ET_EXEC, eb_entry := 0x400500, eb_phdrs :=
     [seg (PF_R OR PF_X) 0x0 0x400000 0x1000 0x1000 0x1000,
      seg (PF_R OR PF_W) 0x1000 0x402000 0x500 0x1500 0x1000] \<rparr>"

text \<open>\<open>/lib/ld-linux-aarch64.so.1\<close> with its NUL, and \<open>/lib/ld-musl-aarch64.so.1\<close> without one.\<close>

definition glibc_interp :: bytes where
  "glibc_interp = [0x2f, 0x6c, 0x69, 0x62, 0x2f, 0x6c, 0x64, 0x2d, 0x6c, 0x69, 0x6e, 0x75, 0x78, 0x2d,
     0x61, 0x61, 0x72, 0x63, 0x68, 0x36, 0x34, 0x2e, 0x73, 0x6f, 0x2e, 0x31, 0x00]"

definition musl_interp :: bytes where
  "musl_interp = [0x2f, 0x6c, 0x69, 0x62, 0x2f, 0x6c, 0x64, 0x2d, 0x6d, 0x75, 0x73, 0x6c, 0x2d,
     0x61, 0x61, 0x72, 0x63, 0x68, 0x36, 0x34, 0x2e, 0x73, 0x6f, 0x2e, 0x31]"

definition glibc_arm64_style :: "ElfBuilder \<Rightarrow> ElfBuilder" where
  "glibc_arm64_style eb =
    (let n = of_nat (length glibc_interp) in
     eb\<lparr> eb_entry := 0x7930,
         eb_phdrs :=
           [\<lparr> p_type = PT_PHDR, p_flags = PF_R, p_offset = 0x40, p_vaddr = 0x40, p_paddr = 0x40,
              p_filesz = 7 * of_nat PHDR_SIZE, p_memsz = 7 * of_nat PHDR_SIZE, p_align = 8 \<rparr>,
            \<lparr> p_type = PT_INTERP, p_flags = PF_R, p_offset = 0x200, p_vaddr = 0x200, p_paddr = 0x200,
              p_filesz = n, p_memsz = n, p_align = 1 \<rparr>,
            seg (PF_R OR PF_X) 0x0 0x0 0x1b89c 0x1b89c 0x10000,
            seg (PF_R OR PF_W) 0x1cdc0 0x2cdc0 0x4908 0x112a0 0x10000,
            \<lparr> p_type = PT_DYNAMIC, p_flags = PF_R OR PF_W, p_offset = 0x1fbb0, p_vaddr = 0x2fbb0,
              p_paddr = 0x2fbb0, p_filesz = 0x1b0, p_memsz = 0x1b0, p_align = 8 \<rparr>,
            \<lparr> p_type = PT_TLS, p_flags = PF_R, p_offset = 0x1cdc0, p_vaddr = 0x2cdc0, p_paddr = 0x2cdc0,
              p_filesz = 0x10, p_memsz = 0x90, p_align = 0x10 \<rparr>,
            \<lparr> p_type = PT_GNU_RELRO, p_flags = PF_R, p_offset = 0x1cdc0, p_vaddr = 0x2cdc0, p_paddr = 0x2cdc0,
              p_filesz = 0x3240, p_memsz = 0x3240, p_align = 1 \<rparr>],
         eb_overlays := eb_overlays eb @ [(0x200, glibc_interp)] \<rparr>)"

definition four_segment_separate_code :: "ElfBuilder \<Rightarrow> ElfBuilder" where
  "four_segment_separate_code eb = eb\<lparr> eb_entry := 0x1100, eb_phdrs :=
     [seg PF_R 0x0 0x0 0x1000 0x1000 0x1000,
      seg (PF_R OR PF_X) 0x1000 0x1000 0x2000 0x2000 0x1000,
      seg PF_R 0x3000 0x3000 0x1000 0x1000 0x1000,
      seg (PF_R OR PF_W) 0x4000 0x5000 0x800 0x2000 0x1000] \<rparr>"

definition unaligned_second_segment :: "ElfBuilder \<Rightarrow> ElfBuilder" where
  "unaligned_second_segment eb = eb\<lparr> eb_phdrs :=
     [seg (PF_R OR PF_X) 0x0 0x0 0x1000 0x1000 0x1000,
      seg (PF_R OR PF_W) 0x1234 0x2234 0x500 0x900 0x1000] \<rparr>"

definition interp_without_nul :: "ElfBuilder \<Rightarrow> ElfBuilder" where
  "interp_without_nul eb =
    (let eb = pie_two_segment eb; n = of_nat (length musl_interp) in
     eb\<lparr> eb_phdrs := eb_phdrs eb @
           [\<lparr> p_type = PT_INTERP, p_flags = PF_R, p_offset = 0x200, p_vaddr = 0x200, p_paddr = 0x200,
              p_filesz = n, p_memsz = n, p_align = 1 \<rparr>],
         eb_overlays := eb_overlays eb @ [(0x200, musl_interp)] \<rparr>)"

section \<open>Modifiers\<close>

definition eb_with_machine :: "u16 \<Rightarrow> ElfBuilder \<Rightarrow> ElfBuilder" where
  "eb_with_machine mach eb = eb\<lparr> eb_machine := mach \<rparr>"

definition patch_phdr :: "nat \<Rightarrow> (Phdr \<Rightarrow> Phdr) \<Rightarrow> ElfBuilder \<Rightarrow> ElfBuilder" where
  "patch_phdr i f eb = eb\<lparr> eb_patches := eb_patches eb @ [(i, f)] \<rparr>"

definition phnum_xnum :: "ElfBuilder \<Rightarrow> ElfBuilder" where
  "phnum_xnum eb = eb\<lparr> eb_force_phnum := Some PN_XNUM \<rparr>"

definition reverse_phdrs :: "ElfBuilder \<Rightarrow> ElfBuilder" where
  "reverse_phdrs eb = eb\<lparr> eb_reverse := True \<rparr>"

definition eb_exec_stack :: "ElfBuilder \<Rightarrow> ElfBuilder" where
  "eb_exec_stack eb = eb\<lparr> eb_phdrs := eb_phdrs eb @
     [\<lparr> p_type = PT_GNU_STACK, p_flags = PF_R OR PF_W OR PF_X, p_offset = 0, p_vaddr = 0, p_paddr = 0,
        p_filesz = 0, p_memsz = 0, p_align = 0 \<rparr>] \<rparr>"

definition no_interp :: "ElfBuilder \<Rightarrow> ElfBuilder" where
  "no_interp eb = eb\<lparr> eb_phdrs := filter (\<lambda>p. p_type p \<noteq> PT_INTERP) (eb_phdrs eb) \<rparr>"

definition drop_pt_phdr :: "ElfBuilder \<Rightarrow> ElfBuilder" where
  "drop_pt_phdr eb = eb\<lparr> eb_phdrs := filter (\<lambda>p. p_type p \<noteq> PT_PHDR) (eb_phdrs eb) \<rparr>"

section \<open>Serialisation\<close>

primrec apply_patches :: "(nat \<times> (Phdr \<Rightarrow> Phdr)) list \<Rightarrow> Phdr list \<Rightarrow> (Phdr list, error) result" where
  "apply_patches [] phs = Ok phs"
| "apply_patches (p # ps) phs =
     (if fst p < length phs then apply_patches ps (phs[fst p := snd p (phs ! fst p)]) else Panic)"

definition final_phdrs :: "ElfBuilder \<Rightarrow> (Phdr list, error) result" where
  "final_phdrs eb =
    rbind (apply_patches (eb_patches eb) (eb_phdrs eb)) (\<lambda>phs.
    Ok (if eb_reverse eb then rev phs else phs))"

text \<open>The sum in the first line saturates; the one for the overlays panics when it overflows.\<close>

primrec phdrs_size :: "Phdr list \<Rightarrow> nat \<Rightarrow> nat" where
  "phdrs_size [] sz = sz"
| "phdrs_size (p # ps) sz =
     phdrs_size ps (if p_filesz p < 0x100000000
       then max sz (min (2 ^ 64 - 1) (unat (p_offset p) + unat (p_filesz p))) else sz)"

primrec overlays_size :: "(u64 \<times> bytes) list \<Rightarrow> nat \<Rightarrow> (nat, error) result" where
  "overlays_size [] sz = Ok sz"
| "overlays_size (ov # ovs) sz =
     (if 2 ^ 64 \<le> unat (fst ov) + length (snd ov) then Panic
      else overlays_size ovs (max sz (unat (fst ov) + length (snd ov))))"

definition file_size :: "ElfBuilder \<Rightarrow> Phdr list \<Rightarrow> (nat, error) result" where
  "file_size eb phs =
    (let start = EHDR_SIZE + length phs * PHDR_SIZE in
     if 2 ^ 64 \<le> start then Panic
     else rbind (overlays_size (eb_overlays eb) (phdrs_size phs start)) (\<lambda>sz.
       if 2 ^ 64 \<le> sz + 0xfff then Panic else Ok (floor_to (sz + 0xfff) 4096)))"

definition pattern_byte :: "nat \<Rightarrow> u8" where
  "pattern_byte i = of_nat (i mod 251) OR 1"

definition put16 :: "nat \<Rightarrow> u16 \<Rightarrow> nat \<times> bytes" where "put16 off v = (off, le_enc 2 (unat v))"
definition put32 :: "nat \<Rightarrow> u32 \<Rightarrow> nat \<times> bytes" where "put32 off v = (off, le_enc 4 (unat v))"
definition put64 :: "nat \<Rightarrow> u64 \<Rightarrow> nat \<times> bytes" where "put64 off v = (off, le_enc 8 (unat v))"

definition ehdr_puts :: "ElfBuilder \<Rightarrow> nat \<Rightarrow> (nat \<times> bytes) list" where
  "ehdr_puts eb phnum =
    [(0, ELFMAG), (EI_CLASS, [ELFCLASS64]), (EI_DATA, [ELFDATA2LSB]), (EI_VERSION, [EV_CURRENT]),
     (EI_OSABI, [ELFOSABI_NONE]), (EI_ABIVERSION, [0]), (9, replicate 7 0),
     put16 16 (eb_type eb), put16 18 (eb_machine eb), put32 20 1, put64 24 (eb_entry eb),
     put64 32 (of_nat EHDR_SIZE), put64 40 0, put32 48 0, put16 52 (of_nat EHDR_SIZE),
     put16 54 (of_nat PHDR_SIZE),
     put16 56 (case eb_force_phnum eb of Some n \<Rightarrow> n | None \<Rightarrow> of_nat phnum),
     put16 58 64, put16 60 0, put16 62 0]"

definition phdr_puts :: "nat \<times> Phdr \<Rightarrow> (nat \<times> bytes) list" where
  "phdr_puts ip =
    (let (i, p) = ip; off = EHDR_SIZE + i * PHDR_SIZE in
     [put32 off (p_type p), put32 (off + 4) (p_flags p), put64 (off + 8) (p_offset p),
      put64 (off + 16) (p_vaddr p), put64 (off + 24) (p_paddr p), put64 (off + 32) (p_filesz p),
      put64 (off + 40) (p_memsz p), put64 (off + 48) (p_align p)])"

definition ElfBuilder_build :: "ElfBuilder \<Rightarrow> (bytes, error) result" where
  "ElfBuilder_build eb =
    rbind (final_phdrs eb) (\<lambda>phs.
    rbind (file_size eb phs) (\<lambda>sz.
    put_all (ehdr_puts eb (length phs) @ concat (map phdr_puts (enumerate 0 phs))
             @ map (\<lambda>(off, data). (unat off, data)) (eb_overlays eb))
      (map pattern_byte [0..<sz])))"

section \<open>The headers in the file\<close>

definition built_ehdr :: "ElfBuilder \<Rightarrow> nat \<Rightarrow> Ehdr" where
  "built_ehdr eb phnum =
    \<lparr> ident = ELFMAG @ [ELFCLASS64, ELFDATA2LSB, EV_CURRENT, ELFOSABI_NONE, 0] @ replicate 7 0,
      e_type = eb_type eb, e_machine = eb_machine eb, e_version = 1, e_entry = eb_entry eb, e_phoff = 64,
      e_shoff = 0, e_flags = 0, e_ehsize = 64, e_phentsize = 56,
      e_phnum = (case eb_force_phnum eb of Some n \<Rightarrow> n | None \<Rightarrow> of_nat phnum),
      e_shentsize = 64, e_shnum = 0, e_shstrndx = 0 \<rparr>"

lemma ehdr_puts_chained:
  "chained 0 (ehdr_puts eb n)" "concat (map snd (ehdr_puts eb n)) = ehdr_bytes (built_ehdr eb n)"
  by (simp_all add: ehdr_puts_def elf_const_defs EI_ABIVERSION_def put16_def put32_def put64_def
      ehdr_bytes_def built_ehdr_def ELFMAG_def)

lemma phdr_puts_chained:
  "chained (64 + i * 56) (phdr_puts (i, p))" "concat (map snd (phdr_puts (i, p))) = phdr_bytes p"
  by (simp_all add: phdr_puts_def elf_const_defs put32_def put64_def phdr_bytes_def)

lemma table_puts_chained:
  "chained (64 + i * 56) (concat (map phdr_puts (enumerate i phs)))"
  "concat (map snd (concat (map phdr_puts (enumerate i phs)))) = concat (map phdr_bytes phs)"
proof (induction phs arbitrary: i)
  case (Cons p phs)
  case 1
  have "length (concat (map snd (phdr_puts (i, p)))) = 56" by (simp add: phdr_puts_chained)
  then show ?case using Cons(1) [of "Suc i"]
    by (simp add: chained_append phdr_puts_chained(1) add.commute add.left_commute del: length_concat map_map)
  case 2
  show ?case using Cons(2) [of "Suc i"] by (simp add: phdr_puts_chained)
qed simp_all

lemma built_ident [simp]: "length (ident (built_ehdr eb n)) = 16"
  by (simp add: built_ehdr_def ELFMAG_def)

lemma table_bytes_at:
  "i < length phs \<Longrightarrow> take 56 (drop (56 * i) (concat (map phdr_bytes phs))) = phdr_bytes (phs ! i)"
proof (induction phs arbitrary: i)
  case (Cons p phs)
  then show ?case by (cases i) simp_all
qed simp

text \<open>The file has room for both headers.\<close>

lemma phdrs_size_ge: "sz \<le> phdrs_size phs sz"
  by (induction phs arbitrary: sz) (auto intro: order_trans [OF max.cobounded1])

lemma overlays_size_ge:
  "overlays_size ovs sz = Ok n \<Longrightarrow> sz \<le> n \<and> (\<forall>ov\<in>set ovs. unat (fst ov) + length (snd ov) \<le> n)"
proof (induction ovs arbitrary: sz)
  case (Cons ov ovs)
  from Cons.prems have "overlays_size ovs (max sz (unat (fst ov) + length (snd ov))) = Ok n"
    by (simp split: if_splits)
  from Cons.IH [OF this] show ?case by simp
qed simp

lemma file_size_ge:
  assumes "file_size eb phs = Ok sz"
  shows "64 + 56 * length phs \<le> sz" and "\<forall>ov\<in>set (eb_overlays eb). unat (fst ov) + length (snd ov) \<le> sz"
proof -
  from assms obtain n where n: "overlays_size (eb_overlays eb) (phdrs_size phs (64 + length phs * 56)) = Ok n"
    and sz: "sz = floor_to (n + 4095) 4096"
    by (auto simp: file_size_def Let_def outcome_simps elf_const_defs split: if_splits)
  have "64 + length phs * 56 \<le> n"
    using phdrs_size_ge overlays_size_ge [OF n, THEN conjunct1] by (rule order_trans)
  moreover have "n \<le> sz" using floor_to_gt [of 4096 "n + 4095"] sz by simp
  ultimately show "64 + 56 * length phs \<le> sz"
    "\<forall>ov\<in>set (eb_overlays eb). unat (fst ov) + length (snd ov) \<le> sz"
    using overlays_size_ge [OF n] by fastforce+
qed

lemma file_size_lt: "file_size eb phs = Ok sz \<Longrightarrow> sz < 2 ^ 64"
  by (auto simp: file_size_def Let_def rbind_Ok not_le split: if_splits
      intro: le_less_trans [OF floor_to_le])

text \<open>The last overlay is in the file as it was given.\<close>

lemma build_overlay:
  assumes "ElfBuilder_build eb = Ok b" and "eb_overlays eb = ovs @ [(off, data)]"
  shows "take (length data) (drop (unat off) b) = data \<and> unat off + length data \<le> length b"
proof -
  obtain b' where "copy_into b' (unat off) data = (Ok b :: (bytes, error) result)"
    using assms by (auto simp: ElfBuilder_build_def put_all_append rbind_Ok)
  then show ?thesis by (auto simp: copy_into_def split: if_splits)
qed

lemma build_headers:
  assumes phs: "final_phdrs eb = Ok phs" and sz: "file_size eb phs = Ok sz"
    and behind: "\<forall>ov\<in>set (eb_overlays eb). 64 + 56 * length phs \<le> unat (fst ov)"
  obtains b where "ElfBuilder_build eb = Ok b" and "length b = sz"
    and "take (64 + 56 * length phs) b = ehdr_bytes (built_ehdr eb (length phs)) @ concat (map phdr_bytes phs)"
proof -
  let ?heads = "ehdr_puts eb (length phs) @ concat (map phdr_puts (enumerate 0 phs))"
  let ?ovs = "map (\<lambda>(off, data). (unat off, data)) (eb_overlays eb)"
  let ?bytes = "ehdr_bytes (built_ehdr eb (length phs)) @ concat (map phdr_bytes phs)"
  let ?pat = "map pattern_byte [0..<sz]"
  let ?b = "?bytes @ drop (64 + 56 * length phs) ?pat"
  have bytes: "concat (map snd ?heads) = ?bytes"
    using ehdr_puts_chained(2) table_puts_chained(2) [of 0] by simp
  have len: "length ?bytes = 64 + 56 * length phs" by (simp add: length_concat comp_def sum_list_triv)
  have "chained 0 ?heads"
    using ehdr_puts_chained table_puts_chained(1) [of 0]
    by (simp add: chained_append del: length_concat map_map)
  then have heads: "put_all ?heads ?pat = (Ok ?b :: (bytes, error) result)"
    using put_all_chained [of 0 ?heads ?pat] file_size_ge(1) [OF sz] len unfolding bytes by simp
  have blen: "length ?b = sz" using len file_size_ge(1) [OF sz] by simp
  have "\<forall>p\<in>set ?ovs. fst p + length (snd p) \<le> length ?b"
    using file_size_ge(2) [OF sz] unfolding blen by fastforce
  then obtain b where ovs: "put_all ?ovs ?b = (Ok b :: (bytes, error) result)"
    using put_all_fits by blast
  have "length b = length ?b \<and> take (64 + 56 * length phs) b = take (64 + 56 * length phs) ?b"
    using behind by (intro put_all_behind [OF ovs]) auto
  moreover have "ElfBuilder_build eb = Ok b"
    using phs sz heads ovs
    by (simp add: ElfBuilder_build_def put_all_append del: append_assoc flip: append_assoc)
  moreover have "take (64 + 56 * length phs) ?b = ?bytes" using len by simp
  ultimately show thesis using blen by (intro that [of b]) (simp_all only:)
qed

lemma build_parses:
  assumes "final_phdrs eb = Ok phs" and "file_size eb phs = Ok sz"
    and "\<forall>ov\<in>set (eb_overlays eb). 64 + 56 * length phs \<le> unat (fst ov)"
  obtains b where "ElfBuilder_build eb = Ok b" and "length b = sz"
    and "Ehdr_parse (take 64 b) = Ok (built_ehdr eb (length phs))"
    and "\<forall>i<length phs. Phdr_parse (take 56 (drop (64 + 56 * i) b)) = Ok (phs ! i)"
proof -
  let ?n = "64 + 56 * length phs"
  obtain b where b: "ElfBuilder_build eb = Ok b" "length b = sz"
    and heads: "take ?n b = ehdr_bytes (built_ehdr eb (length phs)) @ concat (map phdr_bytes phs)"
    by (rule build_headers [OF assms])
  have "take 64 b = take 64 (take ?n b)" by simp
  then have "take 64 b = ehdr_bytes (built_ehdr eb (length phs))" unfolding heads by simp
  moreover have "take 56 (drop (64 + 56 * i) b) = phdr_bytes (phs ! i)" if "i < length phs" for i
  proof -
    have "take 56 (drop (64 + 56 * i) b) = take 56 (drop (64 + 56 * i) (take ?n b))"
      using that by (simp add: drop_take)
    then show ?thesis unfolding heads using table_bytes_at [OF that] by simp
  qed
  moreover have "56 \<le> length b - (64 + 56 * i)" if "i < length phs" for i
    using that b(2) file_size_ge(1) [OF assms(2)] by linarith
  moreover have "64 \<le> length b" using b(2) file_size_ge(1) [OF assms(2)] by linarith
  ultimately show thesis using b
    by (intro that [of b]) (simp_all add: Ehdr_parse_iff Phdr_parse_iff elf_const_defs)
qed

text \<open>
  C36. The images of the test suite are what their builder describes. If the size of the file can be
  computed and no overlay reaches into the headers, \<open>build\<close> returns a file of that size; its first
  64 bytes parse to the ELF header of the builder's fields, with the program header table right
  behind it and as many entries as there are program headers (unless the number is forced), and the
  \<open>i\<close>-th entry of the table parses to the \<open>i\<close>-th program header, patches and the reversal applied.
\<close>

theorem build_reads_back:
  assumes "final_phdrs eb = Ok phs" and "file_size eb phs = Ok sz"
    and "\<forall>ov\<in>set (eb_overlays eb). 64 + 56 * length phs \<le> unat (fst ov)"
  shows "\<exists>b. ElfBuilder_build eb = Ok b \<and> length b = sz
    \<and> Ehdr_parse (take 64 b) = Ok (built_ehdr eb (length phs))
    \<and> (\<forall>i<length phs. Phdr_parse (take 56 (drop (64 + 56 * i) b)) = Ok (phs ! i))"
  using build_parses [OF assms] by metis

text \<open>
  Two PIE segments and an interpreter name, the second segment patched to be writable and
  executable, the table in reverse order.
\<close>

definition patched_builder :: ElfBuilder where
  "patched_builder = reverse_phdrs (patch_phdr 1 (\<lambda>p. p\<lparr> p_flags := 7 \<rparr>)
     (interp_without_nul (ElfBuilder_new Aarch64)))"

theorem build_reads_back_witness:
  "\<exists>b. ElfBuilder_build patched_builder = Ok b \<and> length b = 0x2000
    \<and> Ehdr_parse (take 64 b) = Ok (built_ehdr patched_builder 3)
    \<and> (\<forall>i<3. Phdr_parse (take 56 (drop (64 + 56 * i) b)) = Ok
        ([\<lparr> p_type = PT_INTERP, p_flags = PF_R, p_offset = 0x200, p_vaddr = 0x200, p_paddr = 0x200,
            p_filesz = 25, p_memsz = 25, p_align = 1 \<rparr>,
          seg 7 0x1000 0x2000 0x500 0x1500 0x1000, seg 5 0 0 0x1000 0x1000 0x1000] ! i))"
proof -
  let ?phs = "[\<lparr> p_type = PT_INTERP, p_flags = PF_R, p_offset = 0x200, p_vaddr = 0x200, p_paddr = 0x200,
            p_filesz = 25, p_memsz = 25, p_align = 1 \<rparr>,
          seg 7 0x1000 0x2000 0x500 0x1500 0x1000, seg 5 0 0 0x1000 0x1000 0x1000]"
  have "final_phdrs patched_builder = Ok ?phs"
    by (simp add: final_phdrs_def patched_builder_def reverse_phdrs_def patch_phdr_def interp_without_nul_def
        pie_two_segment_def ElfBuilder_new_def seg_def musl_interp_def elf_const_defs)
  moreover have "file_size patched_builder ?phs = Ok 0x2000"
    by (simp add: file_size_def floor_to_def patched_builder_def reverse_phdrs_def patch_phdr_def
        interp_without_nul_def pie_two_segment_def ElfBuilder_new_def seg_def musl_interp_def elf_const_defs)
  moreover have "\<forall>ov\<in>set (eb_overlays patched_builder). 64 + 56 * length ?phs \<le> unat (fst ov)"
    by (simp add: patched_builder_def reverse_phdrs_def patch_phdr_def
        interp_without_nul_def pie_two_segment_def ElfBuilder_new_def Let_def)
  ultimately show ?thesis using build_reads_back [of patched_builder ?phs "0x2000"]
    by (simp only: list.size) (simp add: eval_nat_numeral)
qed

end
