(* ===== verification/Built_Images.thy ===== *)
theory Built_Images
  imports Elf_Builder
begin

text \<open>
  The images of the test suite, parsed. On a file written by \<open>ElfBuilder\<close> the checks of \<open>Image::parse\<close>
  come down to checks on the headers the builder was given, which the tests evaluate.
\<close>

section \<open>Parsing a built file\<close>

text \<open>The part of \<open>Image_parse\<close> that follows once the headers have been read.\<close>

definition parse_headers ::
  "target_arch \<Rightarrow> heap \<Rightarrow> Ehdr \<Rightarrow> Phdr list \<Rightarrow> u64 option \<Rightarrow> u64 \<Rightarrow> (Image, reject) result" where
  "parse_headers arch heap eh phs fsize page_size =
    rbind (check_ident arch eh) (\<lambda>_.
    rbind (check_phtab eh fsize) (\<lambda>_.
    rbind (guard (\<not> heap AllocPhdrs (unat (e_phnum eh)))
             (Malformed ''out of memory reading program headers'')) (\<lambda>_.
    rbind (classify page_size fsize (enumerate 0 phs) classify_init) (\<lambda>c.
    rbind (guard (cl_loads c = []) (Malformed ''no PT_LOAD segments'')) (\<lambda>_.
    let lds = sort_key (\<lambda>i. p_vaddr (phs ! i)) (cl_loads c) in
    rbind (check_overlaps page_size phs lds) (\<lambda>_.
    Ok \<lparr> ehdr = eh, phdrs = phs, loads = lds, interp = cl_interp c, phdr_seg = cl_phdr_seg c,
         tls = cl_tls c, relro = cl_relro c, exec_stack = cl_exec_stack c \<rparr>))))))"

lemma read_phdrs_table:
  assumes table: "\<forall>i<length phs. Phdr_parse (take 56 (drop (64 + 56 * i) b)) = Ok (phs ! i)"
    and fits: "64 + 56 * length phs \<le> length b" "length b < 2 ^ 64"
  shows "read_phdrs (slice_source b) 64 56 (map of_nat [0..<length phs]) = Ok phs"
proof -
  have "read_phdrs (slice_source b) 64 56 (map of_nat [k..<length phs]) = Ok (drop k phs)" if "k \<le> length phs" for k
    using that
  proof (induction k rule: inc_induct)
    case (step k)
    then have k: "unat (of_nat k :: u64) = k" "unat (64 + of_nat k * 56 :: u64) = 64 + 56 * k"
      "unat (of_nat k * 56 :: u64) = k * 56"
      using fits by (simp_all add: unat_word_ariths unat_of_nat)
    then have "pmul (of_nat k) 56 = (Ok (of_nat k * 56 :: u64) :: (u64, reject) result)"
      "padd 64 (of_nat k * 56) = (Ok (64 + of_nat k * 56 :: u64) :: (u64, reject) result)"
      using step.hyps fits by (simp_all add: pmul_def padd_def checked_mul_def checked_add_def)
    with step k table fits show ?case
      by (simp add: upt_conv_Cons slice_source_def PHDR_SIZE_def Cons_nth_drop_Suc)
  qed simp
  from this [of 0] show ?thesis by simp
qed

lemma parse_header_of:
  assumes "Ehdr_parse (take 64 b) = Ok eh" and "64 \<le> length b"
  shows "Image_parse arch heap (slice_source b) page_size =
    rbind (check_ident arch eh) (\<lambda>_.
    rbind (check_phtab eh (Some (of_nat (length b)))) (\<lambda>_.
    rbind (guard (\<not> heap AllocPhdrs (unat (e_phnum eh)))
             (Malformed ''out of memory reading program headers'')) (\<lambda>_.
    rbind (read_phdrs (slice_source b) (e_phoff eh) (ucast (e_phentsize eh))
             (map of_nat [0..<unat (e_phnum eh)])) (\<lambda>phs.
    rbind (classify page_size (Some (of_nat (length b))) (enumerate 0 phs) classify_init) (\<lambda>c.
    rbind (guard (cl_loads c = []) (Malformed ''no PT_LOAD segments'')) (\<lambda>_.
    let lds = sort_key (\<lambda>i. p_vaddr (phs ! i)) (cl_loads c) in
    rbind (check_overlaps page_size phs lds) (\<lambda>_.
    Ok \<lparr> ehdr = eh, phdrs = phs, loads = lds, interp = cl_interp c, phdr_seg = cl_phdr_seg c,
         tls = cl_tls c, relro = cl_relro c, exec_stack = cl_exec_stack c \<rparr>)))))))"
proof -
  have "read_exact_at (slice_source b) 0 EHDR_SIZE = Ok (take 64 b)"
    "src_size (slice_source b) = Some (of_nat (length b))"
    using assms(2) by (simp_all add: slice_source_def EHDR_SIZE_def)
  with assms(1) show ?thesis by (simp add: Image_parse_def)
qed

lemma parse_built:
  assumes "final_phdrs eb = Ok phs" and "file_size eb phs = Ok sz"
    and "\<forall>ov\<in>set (eb_overlays eb). 64 + 56 * length phs \<le> unat (fst ov)"
    and "eb_force_phnum eb = None" and "length phs < 2 ^ 16"
  obtains b where "ElfBuilder_build eb = Ok b"
    and "\<And>arch heap page_size. Image_parse arch heap (slice_source b) page_size
      = parse_headers arch heap (built_ehdr eb (length phs)) phs (Some (of_nat sz)) page_size"
proof -
  obtain b where b: "ElfBuilder_build eb = Ok b" "length b = sz"
    and eh: "Ehdr_parse (take 64 b) = Ok (built_ehdr eb (length phs))"
    and table: "\<forall>i<length phs. Phdr_parse (take 56 (drop (64 + 56 * i) b)) = Ok (phs ! i)"
    by (rule build_parses [OF assms(1-3)])
  have sz: "64 + 56 * length phs \<le> sz" "sz < 2 ^ 64" using file_size_ge [OF assms(2)] file_size_lt [OF assms(2)] by simp_all
  have n: "unat (of_nat (length phs) :: u16) = length phs"
    using assms(5) by (simp add: unat_of_nat)
  have "read_phdrs (slice_source b) 64 56 (map of_nat [0..<length phs]) = Ok phs"
    using read_phdrs_table [OF table] b sz by simp
  then show thesis using eh b sz n assms(4)
    by (intro that [of b]) (simp_all add: parse_header_of parse_headers_def built_ehdr_def)
qed

definition fixture :: "ElfBuilder \<Rightarrow> Phdr list \<Rightarrow> nat \<Rightarrow> bool" where
  "fixture eb phs sz \<longleftrightarrow> final_phdrs eb = Ok phs \<and> file_size eb phs = Ok sz
     \<and> (\<forall>ov\<in>set (eb_overlays eb). 64 + 56 * length phs \<le> unat (fst ov))
     \<and> eb_force_phnum eb = None \<and> length phs < 2 ^ 16"

lemma fixture_parses:
  assumes "fixture eb phs sz"
    and "parse_headers arch heap (built_ehdr eb (length phs)) phs (Some (of_nat sz)) page_size = r"
  obtains b where "ElfBuilder_build eb = Ok b" and "Image_parse arch heap (slice_source b) page_size = r"
  using assms unfolding fixture_def by (metis parse_built)

lemmas shape_defs = pie_two_segment_def non_pie_def glibc_arm64_style_def four_segment_separate_code_def
  unaligned_second_segment_def interp_without_nul_def eb_with_machine_def patch_phdr_def phnum_xnum_def
  reverse_phdrs_def eb_exec_stack_def no_interp_def drop_pt_phdr_def ElfBuilder_new_def seg_def
  glibc_interp_def musl_interp_def Let_def

lemmas fixture_eval = fixture_def final_phdrs_def file_size_def floor_to_def shape_defs elf_const_defs PT_DYNAMIC_def

lemmas header_eval = parse_headers_def built_ehdr_def check_ident_def check_phtab_def classify_step_def classify_init_def
  check_interp_def validate_load_def check_overlap_def word_eval any_heap_def slice_def shape_defs elf_const_defs PT_DYNAMIC_def

lemma power_of_two_pages [simp]: "is_power_of_two 0x1000" "is_power_of_two 0x10000"
  unfolding is_power_of_two_iff
  by (rule exI [of _ 12], simp, rule exI [of _ 16], simp)

section \<open>The images the tests accept\<close>

definition plain_image :: "ElfBuilder \<Rightarrow> Phdr list \<Rightarrow> nat list \<Rightarrow> Image" where
  "plain_image eb phs lds = \<lparr> ehdr = built_ehdr eb (length phs), phdrs = phs, loads = lds,
     interp = None, phdr_seg = None, tls = None, relro = None, exec_stack = False \<rparr>"

definition built_as :: "target_arch \<Rightarrow> ElfBuilder \<Rightarrow> (Image, reject) result \<Rightarrow> bool" where
  "built_as arch eb r \<longleftrightarrow> (\<exists>b. ElfBuilder_build eb = Ok b \<and> Image_parse arch any_heap (slice_source b) 4096 = r)"

lemma built_asI:
  assumes "fixture eb phs sz"
    and "parse_headers arch any_heap (built_ehdr eb (length phs)) phs (Some (of_nat sz)) 4096 = r"
  shows "built_as arch eb r"
  using fixture_parses [OF assms] by (metis built_as_def)

definition pie_image :: "target_arch \<Rightarrow> Image" where
  "pie_image arch = plain_image (pie_two_segment (ElfBuilder_new arch))
     [seg 5 0 0 0x1000 0x1000 0x1000, seg 6 0x1000 0x2000 0x500 0x1500 0x1000] [0, 1]"

lemma pie_parses: "built_as arch (pie_two_segment (ElfBuilder_new arch)) (Ok (pie_image arch))"
  by (rule built_asI [where sz = "0x2000" and
        phs = "[seg 5 0 0 0x1000 0x1000 0x1000, seg 6 0x1000 0x2000 0x500 0x1500 0x1000]"])
    (simp_all add: fixture_eval header_eval pie_image_def plain_image_def del: EM_NATIVE_def)

definition reversed_image :: "target_arch \<Rightarrow> Image" where
  "reversed_image arch = plain_image (reverse_phdrs (pie_two_segment (ElfBuilder_new arch)))
     [seg 6 0x1000 0x2000 0x500 0x1500 0x1000, seg 5 0 0 0x1000 0x1000 0x1000] [1, 0]"

lemma reversed_parses: "built_as arch (reverse_phdrs (pie_two_segment (ElfBuilder_new arch))) (Ok (reversed_image arch))"
  by (rule built_asI [where sz = "0x2000" and
        phs = "[seg 6 0x1000 0x2000 0x500 0x1500 0x1000, seg 5 0 0 0x1000 0x1000 0x1000]"])
    (simp_all add: fixture_eval header_eval reversed_image_def plain_image_def del: EM_NATIVE_def)

definition non_pie_image :: "target_arch \<Rightarrow> Image" where
  "non_pie_image arch = plain_image (non_pie (ElfBuilder_new arch))
     [seg 5 0 0x400000 0x1000 0x1000 0x1000, seg 6 0x1000 0x402000 0x500 0x1500 0x1000] [0, 1]"

lemma non_pie_parses: "built_as arch (non_pie (ElfBuilder_new arch)) (Ok (non_pie_image arch))"
  by (rule built_asI [where sz = "0x2000" and
        phs = "[seg 5 0 0x400000 0x1000 0x1000 0x1000, seg 6 0x1000 0x402000 0x500 0x1500 0x1000]"])
    (simp_all add: fixture_eval header_eval non_pie_image_def plain_image_def del: EM_NATIVE_def)

definition four_image :: "target_arch \<Rightarrow> Image" where
  "four_image arch = plain_image (four_segment_separate_code (ElfBuilder_new arch))
     [seg 4 0 0 0x1000 0x1000 0x1000, seg 5 0x1000 0x1000 0x2000 0x2000 0x1000,
          seg 4 0x3000 0x3000 0x1000 0x1000 0x1000, seg 6 0x4000 0x5000 0x800 0x2000 0x1000] [0, 1, 2, 3]"

lemma four_parses: "built_as arch (four_segment_separate_code (ElfBuilder_new arch)) (Ok (four_image arch))"
  by (rule built_asI [where sz = "0x5000" and
        phs = "[seg 4 0 0 0x1000 0x1000 0x1000, seg 5 0x1000 0x1000 0x2000 0x2000 0x1000,
          seg 4 0x3000 0x3000 0x1000 0x1000 0x1000, seg 6 0x4000 0x5000 0x800 0x2000 0x1000]"])
    (simp_all add: fixture_eval header_eval four_image_def plain_image_def del: EM_NATIVE_def)

definition unaligned_image :: "target_arch \<Rightarrow> Image" where
  "unaligned_image arch = plain_image (unaligned_second_segment (ElfBuilder_new arch))
     [seg 5 0 0 0x1000 0x1000 0x1000, seg 6 0x1234 0x2234 0x500 0x900 0x1000] [0, 1]"

lemma unaligned_parses: "built_as arch (unaligned_second_segment (ElfBuilder_new arch)) (Ok (unaligned_image arch))"
  by (rule built_asI [where sz = "0x2000" and
        phs = "[seg 5 0 0 0x1000 0x1000 0x1000, seg 6 0x1234 0x2234 0x500 0x900 0x1000]"])
    (simp_all add: fixture_eval header_eval unaligned_image_def plain_image_def del: EM_NATIVE_def)

definition glibc_phdrs :: "Phdr list" where
  "glibc_phdrs = eb_phdrs (glibc_arm64_style (ElfBuilder_new Aarch64))"

lemma glibc_phdrs_code [simp]:
  "glibc_phdrs =
           [\<lparr> p_type = PT_PHDR, p_flags = PF_R, p_offset = 0x40, p_vaddr = 0x40, p_paddr = 0x40,
              p_filesz = 392, p_memsz = 392, p_align = 8 \<rparr>,
            \<lparr> p_type = PT_INTERP, p_flags = PF_R, p_offset = 0x200, p_vaddr = 0x200, p_paddr = 0x200,
              p_filesz = 27, p_memsz = 27, p_align = 1 \<rparr>,
            seg 5 0x0 0x0 0x1b89c 0x1b89c 0x10000,
            seg 6 0x1cdc0 0x2cdc0 0x4908 0x112a0 0x10000,
            \<lparr> p_type = PT_DYNAMIC, p_flags = 6, p_offset = 0x1fbb0, p_vaddr = 0x2fbb0,
              p_paddr = 0x2fbb0, p_filesz = 0x1b0, p_memsz = 0x1b0, p_align = 8 \<rparr>,
            \<lparr> p_type = PT_TLS, p_flags = PF_R, p_offset = 0x1cdc0, p_vaddr = 0x2cdc0, p_paddr = 0x2cdc0,
              p_filesz = 0x10, p_memsz = 0x90, p_align = 0x10 \<rparr>,
            \<lparr> p_type = PT_GNU_RELRO, p_flags = PF_R, p_offset = 0x1cdc0, p_vaddr = 0x2cdc0, p_paddr = 0x2cdc0,
              p_filesz = 0x3240, p_memsz = 0x3240, p_align = 1 \<rparr>]"
  by (simp add: glibc_phdrs_def shape_defs elf_const_defs)

definition glibc_image :: "target_arch \<Rightarrow> Image" where
  "glibc_image arch = plain_image (glibc_arm64_style (ElfBuilder_new arch)) glibc_phdrs [2, 3]
     \<lparr> interp := Some (glibc_phdrs ! 1), phdr_seg := Some (glibc_phdrs ! 0), tls := Some (glibc_phdrs ! 5),
       relro := Some (glibc_phdrs ! 6) \<rparr>"

lemma glibc_parses: "built_as arch (glibc_arm64_style (ElfBuilder_new arch)) (Ok (glibc_image arch))"
  by (rule built_asI [where sz = "0x22000" and
        phs = "glibc_phdrs"])
    (simp_all add: fixture_eval header_eval glibc_image_def plain_image_def del: EM_NATIVE_def)

definition glibc_no_phdr_image :: "target_arch \<Rightarrow> Image" where
  "glibc_no_phdr_image arch = plain_image (drop_pt_phdr (glibc_arm64_style (ElfBuilder_new arch))) (tl glibc_phdrs)
     [1, 2]
     \<lparr> interp := Some (glibc_phdrs ! 1), tls := Some (glibc_phdrs ! 5), relro := Some (glibc_phdrs ! 6) \<rparr>"

lemma glibc_no_phdr_parses: "built_as arch (drop_pt_phdr (glibc_arm64_style (ElfBuilder_new arch))) (Ok (glibc_no_phdr_image arch))"
  by (rule built_asI [where sz = "0x22000" and
        phs = "tl glibc_phdrs"])
    (simp_all add: fixture_eval header_eval glibc_no_phdr_image_def plain_image_def del: EM_NATIVE_def)

definition musl_request :: Phdr where
  "musl_request = \<lparr> p_type = PT_INTERP, p_flags = PF_R, p_offset = 0x200, p_vaddr = 0x200, p_paddr = 0x200,
     p_filesz = 25, p_memsz = 25, p_align = 1 \<rparr>"

definition stack_request :: Phdr where
  "stack_request = \<lparr> p_type = PT_GNU_STACK, p_flags = 7, p_offset = 0, p_vaddr = 0, p_paddr = 0, p_filesz = 0,
     p_memsz = 0, p_align = 0 \<rparr>"

definition musl_image :: "target_arch \<Rightarrow> Image" where
  "musl_image arch = plain_image (interp_without_nul (ElfBuilder_new arch))
     [seg 5 0 0 0x1000 0x1000 0x1000, seg 6 0x1000 0x2000 0x500 0x1500 0x1000, musl_request] [0, 1]
     \<lparr> interp := Some musl_request \<rparr>"

lemma musl_parses: "built_as arch (interp_without_nul (ElfBuilder_new arch)) (Ok (musl_image arch))"
  by (rule built_asI [where sz = "0x2000" and
        phs = "[seg 5 0 0 0x1000 0x1000 0x1000, seg 6 0x1000 0x2000 0x500 0x1500 0x1000, musl_request]"])
    (simp_all add: fixture_eval header_eval musl_image_def musl_request_def plain_image_def is_exec_def del: EM_NATIVE_def)

definition exec_image :: "target_arch \<Rightarrow> Image" where
  "exec_image arch = plain_image (eb_exec_stack (pie_two_segment (ElfBuilder_new arch)))
     [seg 5 0 0 0x1000 0x1000 0x1000, seg 6 0x1000 0x2000 0x500 0x1500 0x1000, stack_request] [0, 1]\<lparr> exec_stack := True \<rparr>"

lemma exec_parses: "built_as arch (eb_exec_stack (pie_two_segment (ElfBuilder_new arch))) (Ok (exec_image arch))"
  by (rule built_asI [where sz = "0x2000" and
        phs = "[seg 5 0 0 0x1000 0x1000 0x1000, seg 6 0x1000 0x2000 0x500 0x1500 0x1000, stack_request]"])
    (simp_all add: fixture_eval header_eval exec_image_def stack_request_def plain_image_def is_exec_def del: EM_NATIVE_def)

end
