(* ===== verification/Elf_Tests.thy ===== *)
theory Elf_Tests
  imports Built_Images
begin

text \<open>
  The unit tests of \<open>rust/src/elf.rs\<close> as programs of the model, and that they pass on both
  architectures. A test is a function that may panic; \<open>assert!\<close>, \<open>unwrap\<close> and \<open>unwrap_err\<close> panic as in
  Rust. The allocator of the host grants every request.
\<close>

section \<open>Assertions\<close>

definition must :: "bool \<Rightarrow> (unit, error) result" where
  "must P = (if P then Ok () else Panic)"

definition unwrap :: "('a, 'e) result \<Rightarrow> ('a, error) result" where
  "unwrap r = (case r of Ok x \<Rightarrow> Ok x | Err _ \<Rightarrow> Panic | Panic \<Rightarrow> Panic)"

definition unwrap_err :: "('a, 'e) result \<Rightarrow> ('e, error) result" where
  "unwrap_err r = (case r of Err e \<Rightarrow> Ok e | Ok _ \<Rightarrow> Panic | Panic \<Rightarrow> Panic)"

definition unwrap_some :: "'a option \<Rightarrow> ('a, error) result" where
  "unwrap_some r = (case r of Some x \<Rightarrow> Ok x | None \<Rightarrow> Panic)"

definition parse_image :: "target_arch \<Rightarrow> bytes \<Rightarrow> (Image, reject) result" where
  "parse_image arch img = Image_parse arch any_heap (slice_source img) 4096"

fun is_malformed :: "reject \<Rightarrow> bool" where
  "is_malformed (Malformed _) \<longleftrightarrow> True"
| "is_malformed _ \<longleftrightarrow> False"

fun is_unsupported :: "reject \<Rightarrow> bool" where
  "is_unsupported (Unsupported _) \<longleftrightarrow> True"
| "is_unsupported _ \<longleftrightarrow> False"

lemma test_eval [simp]:
  "must True = Ok ()" "unwrap (Ok x) = Ok x" "unwrap_err (Err e) = Ok e" "unwrap_some (Some y) = Ok y"
  by (simp_all add: must_def unwrap_def unwrap_err_def unwrap_some_def)

section \<open>The tests\<close>

definition parses_a_minimal_pie :: "target_arch \<Rightarrow> (unit, error) result" where
  "parses_a_minimal_pie arch =
    rbind (ElfBuilder_build (pie_two_segment (ElfBuilder_new arch))) (\<lambda>img.
    rbind (unwrap (parse_image arch img)) (\<lambda>e.
    rbind (must (is_pie e)) (\<lambda>_.
    rbind (must (length (loads e) = 2)) (\<lambda>_.
    rbind (must (\<not> needs_interp e)) (\<lambda>_.
    rbind (unwrap (va_span e 4096)) (\<lambda>span.
    must (fst span = 0)))))))"

definition accepts_non_pie :: "target_arch \<Rightarrow> (unit, error) result" where
  "accepts_non_pie arch =
    rbind (ElfBuilder_build (non_pie (ElfBuilder_new arch))) (\<lambda>img.
    rbind (unwrap (parse_image arch img)) (\<lambda>e.
    rbind (must (\<not> is_pie e)) (\<lambda>_.
    rbind (must (e_type (ehdr e) = ET_EXEC)) (\<lambda>_.
    rbind (unwrap (va_span e 4096)) (\<lambda>span.
    must (fst span = 0x400000))))))"

definition accepts_glibc_style_64k_alignment :: "target_arch \<Rightarrow> (unit, error) result" where
  "accepts_glibc_style_64k_alignment arch =
    rbind (ElfBuilder_build (glibc_arm64_style (ElfBuilder_new arch))) (\<lambda>img.
    rbind (unwrap (parse_image arch img)) (\<lambda>e.
    rbind (load_align e 4096) (\<lambda>al.
    rbind (must (al = 0x10000)) (\<lambda>_.
    rbind (must (needs_interp e)) (\<lambda>_.
    rbind (unwrap (interp_path any_heap e (slice_source img))) (\<lambda>path.
    must (path = butlast glibc_interp)))))))"

text \<open>\<open>#!/bin/sh\<close> and a newline.\<close>

definition script_bytes :: bytes where
  "script_bytes = [0x23, 0x21, 0x2f, 0x62, 0x69, 0x6e, 0x2f, 0x73, 0x68, 0x0a]"

definition rejects_non_elf :: "target_arch \<Rightarrow> (unit, error) result" where
  "rejects_non_elf arch =
    rbind (unwrap_err (parse_image arch script_bytes)) (\<lambda>r.
    rbind (must (r = NotElf)) (\<lambda>_.
    rbind (unwrap_err (parse_image arch [])) (\<lambda>r.
    must (r = NotElf))))"

definition rejects_wrong_machine :: "target_arch \<Rightarrow> (unit, error) result" where
  "rejects_wrong_machine arch =
    rbind (ElfBuilder_build (eb_with_machine 0x1234 (pie_two_segment (ElfBuilder_new arch)))) (\<lambda>img.
    rbind (unwrap_err (parse_image arch img)) (\<lambda>r.
    must (is_unsupported r)))"

definition rejects_truncated_phdr_table :: "target_arch \<Rightarrow> (unit, error) result" where
  "rejects_truncated_phdr_table arch =
    rbind (ElfBuilder_build (pie_two_segment (ElfBuilder_new arch))) (\<lambda>img.
    rbind (unwrap_err (parse_image arch (take 72 img))) (\<lambda>r.
    must (is_malformed r)))"

definition rejects_segment_past_end_of_file :: "target_arch \<Rightarrow> (unit, error) result" where
  "rejects_segment_past_end_of_file arch =
    rbind (ElfBuilder_build (patch_phdr 0 (\<lambda>p. p\<lparr> p_filesz := 0x10000000000 \<rparr>)
             (pie_two_segment (ElfBuilder_new arch)))) (\<lambda>img.
    rbind (unwrap_err (parse_image arch img)) (\<lambda>r.
    must (is_malformed r)))"

definition rejects_vaddr_memsz_overflow :: "target_arch \<Rightarrow> (unit, error) result" where
  "rejects_vaddr_memsz_overflow arch =
    rbind (ElfBuilder_build (patch_phdr 0 (\<lambda>p. p\<lparr> p_vaddr := 0xFFFFFFFFFFFFF000, p_memsz := 0x2000 \<rparr>)
             (pie_two_segment (ElfBuilder_new arch)))) (\<lambda>img.
    rbind (unwrap_err (parse_image arch img)) (\<lambda>r.
    must (is_malformed r)))"

definition rejects_filesz_greater_than_memsz :: "target_arch \<Rightarrow> (unit, error) result" where
  "rejects_filesz_greater_than_memsz arch =
    rbind (ElfBuilder_build (patch_phdr 0 (\<lambda>p. p\<lparr> p_memsz := 1 \<rparr>)
             (pie_two_segment (ElfBuilder_new arch)))) (\<lambda>img.
    rbind (unwrap_err (parse_image arch img)) (\<lambda>r.
    must (is_malformed r)))"

definition rejects_non_congruent_segment :: "target_arch \<Rightarrow> (unit, error) result" where
  "rejects_non_congruent_segment arch =
    rbind (ElfBuilder_build (patch_phdr 0 (\<lambda>p. p\<lparr> p_vaddr := p_vaddr p + 0x40 \<rparr>)
             (pie_two_segment (ElfBuilder_new arch)))) (\<lambda>img.
    rbind (unwrap_err (parse_image arch img)) (\<lambda>r.
    must (is_malformed r)))"

definition rejects_overlapping_segments :: "target_arch \<Rightarrow> (unit, error) result" where
  "rejects_overlapping_segments arch =
    rbind (ElfBuilder_build (patch_phdr 1 (\<lambda>p. p\<lparr> p_vaddr := 0 \<rparr>)
             (pie_two_segment (ElfBuilder_new arch)))) (\<lambda>img.
    rbind (unwrap_err (parse_image arch img)) (\<lambda>r.
    must (is_malformed r)))"

definition rejects_pn_xnum :: "target_arch \<Rightarrow> (unit, error) result" where
  "rejects_pn_xnum arch =
    rbind (ElfBuilder_build (phnum_xnum (pie_two_segment (ElfBuilder_new arch)))) (\<lambda>img.
    rbind (unwrap_err (parse_image arch img)) (\<lambda>r.
    must (is_unsupported r)))"

definition rejects_unterminated_interp :: "target_arch \<Rightarrow> (unit, error) result" where
  "rejects_unterminated_interp arch =
    rbind (ElfBuilder_build (interp_without_nul (ElfBuilder_new arch))) (\<lambda>img.
    rbind (unwrap (parse_image arch img)) (\<lambda>e.
    rbind (unwrap_err (interp_path any_heap e (slice_source img))) (\<lambda>r.
    must (r = ENOEXEC))))"

definition segments_are_sorted_by_vaddr :: "target_arch \<Rightarrow> (unit, error) result" where
  "segments_are_sorted_by_vaddr arch =
    rbind (ElfBuilder_build (reverse_phdrs (pie_two_segment (ElfBuilder_new arch)))) (\<lambda>img.
    rbind (unwrap (parse_image arch img)) (\<lambda>e.
    rbind (index_at (loads e) 0) (\<lambda>i.
    rbind (index_at (phdrs e) i) (\<lambda>a.
    rbind (index_at (loads e) 1) (\<lambda>j.
    rbind (index_at (phdrs e) j) (\<lambda>b.
    must (p_vaddr a < p_vaddr b)))))))"

definition notices_executable_stack_request :: "target_arch \<Rightarrow> (unit, error) result" where
  "notices_executable_stack_request arch =
    rbind (ElfBuilder_build (eb_exec_stack (pie_two_segment (ElfBuilder_new arch)))) (\<lambda>img.
    rbind (unwrap (parse_image arch img)) (\<lambda>e.
    must (exec_stack e)))"

definition elf_tests :: "(target_arch \<Rightarrow> (unit, error) result) list" where
  "elf_tests =
    [parses_a_minimal_pie, accepts_non_pie, accepts_glibc_style_64k_alignment, rejects_non_elf,
     rejects_wrong_machine, rejects_truncated_phdr_table, rejects_segment_past_end_of_file,
     rejects_vaddr_memsz_overflow, rejects_filesz_greater_than_memsz, rejects_non_congruent_segment,
     rejects_overlapping_segments, rejects_pn_xnum, rejects_unterminated_interp,
     segments_are_sorted_by_vaddr, notices_executable_stack_request]"

section \<open>Accepted images\<close>

text \<open>A built file that is parsed, with what its last overlay holds.\<close>

lemma built_asE:
  assumes "built_as arch eb r"
  obtains b where "ElfBuilder_build eb = Ok b" and "parse_image arch b = r"
  using assms by (auto simp: built_as_def parse_image_def)

lemma pie_tests: "parses_a_minimal_pie arch = Ok ()"
  by (rule built_asE [OF pie_parses [of arch]])
    (simp add: parses_a_minimal_pie_def pie_image_def plain_image_def built_ehdr_def is_pie_def needs_interp_def
      va_span_def word_eval shape_defs)

lemma non_pie_test: "accepts_non_pie arch = Ok ()"
  by (rule built_asE [OF non_pie_parses [of arch]])
    (simp add: accepts_non_pie_def non_pie_image_def plain_image_def built_ehdr_def is_pie_def
      va_span_def word_eval shape_defs elf_const_defs)

lemma sorted_test: "segments_are_sorted_by_vaddr arch = Ok ()"
  by (rule built_asE [OF reversed_parses [of arch]])
    (simp add: segments_are_sorted_by_vaddr_def reversed_image_def plain_image_def seg_def)

lemma exec_stack_test: "notices_executable_stack_request arch = Ok ()"
  by (rule built_asE [OF exec_parses [of arch]])
    (simp add: notices_executable_stack_request_def exec_image_def)

lemma glibc_test: "accepts_glibc_style_64k_alignment arch = Ok ()"
proof (rule built_asE [OF glibc_parses [of arch]])
  fix b assume b: "ElfBuilder_build (glibc_arm64_style (ElfBuilder_new arch)) = Ok b"
    and e: "parse_image arch b = Ok (glibc_image arch)"
  have "eb_overlays (glibc_arm64_style (ElfBuilder_new arch)) = [] @ [(0x200, glibc_interp)]"
    by (simp add: shape_defs)
  note ov = build_overlay [OF b this]
  have len: "length glibc_interp = 27" by (simp add: glibc_interp_def)
  have "read_exact_at (slice_source b) 0x200 27 = Ok glibc_interp"
    using ov len by (simp add: slice_source_def)
  then have "interp_path any_heap (glibc_image arch) (slice_source b) = Ok (butlast glibc_interp)"
    by (simp add: interp_path_def glibc_image_def any_heap_def plain_image_def Let_def glibc_interp_def)
  with b e show ?thesis
    by (simp add: accepts_glibc_style_64k_alignment_def glibc_image_def plain_image_def needs_interp_def load_align_def
        seg_align_def MAX_SEG_ALIGN_def seg_def word_eval)
qed

lemma musl_test: "rejects_unterminated_interp arch = Ok ()"
proof (rule built_asE [OF musl_parses [of arch]])
  fix b assume b: "ElfBuilder_build (interp_without_nul (ElfBuilder_new arch)) = Ok b"
    and e: "parse_image arch b = Ok (musl_image arch)"
  have "eb_overlays (interp_without_nul (ElfBuilder_new arch)) = [] @ [(0x200, musl_interp)]"
    by (simp add: shape_defs)
  note ov = build_overlay [OF b this]
  have len: "length musl_interp = 25" by (simp add: musl_interp_def)
  have "read_exact_at (slice_source b) 0x200 25 = Ok musl_interp"
    using ov len by (simp add: slice_source_def)
  then have "interp_path any_heap (musl_image arch) (slice_source b) = Err ENOEXEC"
    by (simp add: interp_path_def musl_image_def musl_request_def any_heap_def Let_def musl_interp_def)
  with b e show ?thesis by (simp add: rejects_unterminated_interp_def)
qed

section \<open>Rejected images\<close>

lemma non_elf_test: "rejects_non_elf arch = Ok ()"
  by (simp add: rejects_non_elf_def parse_image_def Image_parse_def slice_source_def script_bytes_def elf_const_defs)

lemma rejected_image:
  assumes "built_as arch eb (Err r)"
  shows "rbind (ElfBuilder_build eb) (\<lambda>img. rbind (unwrap_err (parse_image arch img)) (\<lambda>r. must (P r))) = must (P r)"
  by (rule built_asE [OF assms]) simp

text \<open>The first broken image is refused for its memory size, before the end of the file is looked at.\<close>

lemma rejects_segment_past_end_of_file_reason:
  "built_as arch (patch_phdr 0 (\<lambda>p. p\<lparr> p_filesz := 0x10000000000 \<rparr>)
      (pie_two_segment (ElfBuilder_new arch)))
    (Err (Malformed ''PT_LOAD filesz exceeds memsz''))"
  by (rule built_asI [where sz = "0x2000" and
        phs = "[seg 5 0 0 0x10000000000 0x1000 0x1000, seg 6 0x1000 0x2000 0x500 0x1500 0x1000]"])
    (simp_all add: fixture_eval header_eval del: EM_NATIVE_def)

lemma rejects_vaddr_memsz_overflow_reason:
  "built_as arch (patch_phdr 0 (\<lambda>p. p\<lparr> p_vaddr := 0xFFFFFFFFFFFFF000, p_memsz := 0x2000 \<rparr>)
      (pie_two_segment (ElfBuilder_new arch)))
    (Err (Malformed ''PT_LOAD vaddr+memsz overflows''))"
  by (rule built_asI [where sz = "0x2000" and
        phs = "[(seg 5 0 0 0x1000 0x2000 0x1000)\<lparr> p_vaddr := 0xFFFFFFFFFFFFF000 \<rparr>, seg 6 0x1000 0x2000 0x500 0x1500 0x1000]"])
    (simp_all add: fixture_eval header_eval del: EM_NATIVE_def)

lemma rejects_filesz_greater_than_memsz_reason:
  "built_as arch (patch_phdr 0 (\<lambda>p. p\<lparr> p_memsz := 1 \<rparr>)
      (pie_two_segment (ElfBuilder_new arch)))
    (Err (Malformed ''PT_LOAD filesz exceeds memsz''))"
  by (rule built_asI [where sz = "0x2000" and
        phs = "[seg 5 0 0 0x1000 1 0x1000, seg 6 0x1000 0x2000 0x500 0x1500 0x1000]"])
    (simp_all add: fixture_eval header_eval del: EM_NATIVE_def)

lemma rejects_non_congruent_segment_reason:
  "built_as arch (patch_phdr 0 (\<lambda>p. p\<lparr> p_vaddr := p_vaddr p + 0x40 \<rparr>)
      (pie_two_segment (ElfBuilder_new arch)))
    (Err (Malformed ''PT_LOAD vaddr and offset are not page-congruent''))"
  by (rule built_asI [where sz = "0x2000" and
        phs = "[(seg 5 0 0 0x1000 0x1000 0x1000)\<lparr> p_vaddr := 0x40 \<rparr>, seg 6 0x1000 0x2000 0x500 0x1500 0x1000]"])
    (simp_all add: fixture_eval header_eval del: EM_NATIVE_def)

lemma rejects_overlapping_segments_reason:
  "built_as arch (patch_phdr 1 (\<lambda>p. p\<lparr> p_vaddr := 0 \<rparr>)
      (pie_two_segment (ElfBuilder_new arch)))
    (Err (Malformed ''overlapping PT_LOAD segments''))"
  by (rule built_asI [where sz = "0x2000" and
        phs = "[seg 5 0 0 0x1000 0x1000 0x1000, (seg 6 0x1000 0x2000 0x500 0x1500 0x1000)\<lparr> p_vaddr := 0 \<rparr>]"])
    (simp_all add: fixture_eval header_eval del: EM_NATIVE_def)

lemma rejects_wrong_machine_reason:
  "built_as arch (eb_with_machine 0x1234 (pie_two_segment (ElfBuilder_new arch)))
    (Err (Unsupported ''ELF machine type mismatch''))"
  by (rule built_asI [where sz = "0x2000" and
        phs = "[seg 5 0 0 0x1000 0x1000 0x1000, seg 6 0x1000 0x2000 0x500 0x1500 0x1000]"])
    (simp_all add: fixture_eval header_eval)

lemma rejection_tests:
  "rejects_segment_past_end_of_file arch = Ok ()"
  "rejects_vaddr_memsz_overflow arch = Ok ()"
  "rejects_filesz_greater_than_memsz arch = Ok ()"
  "rejects_non_congruent_segment arch = Ok ()"
  "rejects_overlapping_segments arch = Ok ()"
  "rejects_wrong_machine arch = Ok ()"
  unfolding rejects_segment_past_end_of_file_def rejects_vaddr_memsz_overflow_def
    rejects_filesz_greater_than_memsz_def rejects_non_congruent_segment_def
    rejects_overlapping_segments_def rejects_wrong_machine_def
    rejected_image [OF rejects_segment_past_end_of_file_reason] rejected_image [OF rejects_vaddr_memsz_overflow_reason]
    rejected_image [OF rejects_filesz_greater_than_memsz_reason] rejected_image [OF rejects_non_congruent_segment_reason]
    rejected_image [OF rejects_overlapping_segments_reason] rejected_image [OF rejects_wrong_machine_reason]
  by simp_all

text \<open>The two files whose table is not read: a forced count, and a file cut off in the table.\<close>

lemma pie_header:
  obtains b where "ElfBuilder_build (pie_two_segment (ElfBuilder_new arch)) = Ok b" and "72 \<le> length b"
    and "Ehdr_parse (take 64 b) = Ok (built_ehdr (pie_two_segment (ElfBuilder_new arch)) 2)"
proof (rule build_parses)
  show "final_phdrs (pie_two_segment (ElfBuilder_new arch)) = Ok (eb_phdrs (pie_two_segment (ElfBuilder_new arch)))"
    by (simp add: fixture_eval)
  show "file_size (pie_two_segment (ElfBuilder_new arch)) (eb_phdrs (pie_two_segment (ElfBuilder_new arch))) = Ok 0x2000"
    by (simp add: fixture_eval)
  show "\<forall>ov\<in>set (eb_overlays (pie_two_segment (ElfBuilder_new arch))).
      64 + 56 * length (eb_phdrs (pie_two_segment (ElfBuilder_new arch))) \<le> unat (fst ov)"
    by (simp add: shape_defs)
  have "length (eb_phdrs (pie_two_segment (ElfBuilder_new arch))) = 2" by (simp add: shape_defs)
  then show "ElfBuilder_build (pie_two_segment (ElfBuilder_new arch)) = Ok b \<Longrightarrow> length b = 0x2000 \<Longrightarrow>
      Ehdr_parse (take 64 b) = Ok (built_ehdr (pie_two_segment (ElfBuilder_new arch))
        (length (eb_phdrs (pie_two_segment (ElfBuilder_new arch))))) \<Longrightarrow> thesis" for b
    using that [of b] by simp
qed

lemma truncated_test: "rejects_truncated_phdr_table arch = Ok ()"
proof (rule pie_header [of arch])
  fix b assume b: "ElfBuilder_build (pie_two_segment (ElfBuilder_new arch)) = Ok b" "72 \<le> length b"
    and eh: "Ehdr_parse (take 64 b) = Ok (built_ehdr (pie_two_segment (ElfBuilder_new arch)) 2)"
  have "parse_image arch (take 72 b) = Err (Malformed ''program header table past end of file'')"
    unfolding parse_image_def using eh b(2)
    by (subst parse_header_of [where eh = "built_ehdr (pie_two_segment (ElfBuilder_new arch)) 2"])
      (simp_all add: header_eval min_absorb2 del: EM_NATIVE_def)
  with b(1) show ?thesis by (simp add: rejects_truncated_phdr_table_def)
qed

lemma xnum_test: "rejects_pn_xnum arch = Ok ()"
proof (rule build_parses)
  let ?eb = "phnum_xnum (pie_two_segment (ElfBuilder_new arch))"
  show "final_phdrs ?eb = Ok (eb_phdrs ?eb)" by (simp add: fixture_eval)
  show "file_size ?eb (eb_phdrs ?eb) = Ok 0x2000" by (simp add: fixture_eval)
  show "\<forall>ov\<in>set (eb_overlays ?eb). 64 + 56 * length (eb_phdrs ?eb) \<le> unat (fst ov)" by (simp add: shape_defs)
  fix b assume b: "ElfBuilder_build ?eb = Ok b" "length b = 0x2000"
    and eh: "Ehdr_parse (take 64 b) = Ok (built_ehdr ?eb (length (eb_phdrs ?eb)))"
  have "parse_image arch b = Err (Unsupported ''PN_XNUM program header count'')"
    unfolding parse_image_def using b(2)
    by (simp add: parse_header_of [OF eh] header_eval del: EM_NATIVE_def)
  with b(1) show ?thesis by (simp add: rejects_pn_xnum_def)
qed

section \<open>The suite\<close>

text \<open>
  The unit tests of the parser pass, for either machine type: the fixtures that should be
  accepted are, with the expected type, span, alignment, interpreter and segment order, and each of
  the broken ones is rejected for the class of reason its test names.
\<close>

lemma elf_tests_pass: "map (\<lambda>t. t arch) elf_tests = replicate 15 (Ok ())"
  by (simp add: elf_tests_def numeral_eq_Suc rejection_tests pie_tests non_pie_test glibc_test non_elf_test
      truncated_test xnum_test musl_test sorted_test exec_stack_test)

end
