(* ===== verification/Layout_Tests.thy ===== *)
theory Layout_Tests
  imports Elf_Tests Layout "HOL-Library.Product_Lexorder"
begin

text \<open>
  The unit tests of \<open>rust/src/layout.rs\<close> as programs of the model, and that they pass on both
  architectures. Sums and differences in the tests are checked, like everywhere in the crate.
\<close>

section \<open>Helpers\<close>

text \<open>\<open>parse\<close> of the test module, on an image that is built first.\<close>

definition parsed :: "target_arch \<Rightarrow> ElfBuilder \<Rightarrow> (Image, error) result" where
  "parsed arch eb = rbind (ElfBuilder_build eb) (\<lambda>img. unwrap (parse_image arch img))"

lemma parsed_built: "built_as arch eb (Ok img) \<Longrightarrow> parsed arch eb = Ok img"
  by (erule built_asE) (simp add: parsed_def)

primrec find_segment ::
  "(Phdr \<Rightarrow> bool) \<Rightarrow> Phdr list \<Rightarrow> SegmentPlan list \<Rightarrow> (SegmentPlan, error) result" where
  "find_segment P phs [] = Panic"
| "find_segment P phs (s # ss) =
     rbind (index_at phs (idx s)) (\<lambda>ph. if P ph then Ok s else find_segment P phs ss)"

primrec find_load :: "(Phdr \<Rightarrow> bool) \<Rightarrow> Phdr list \<Rightarrow> nat list \<Rightarrow> (Phdr, error) result" where
  "find_load P phs [] = Panic"
| "find_load P phs (i # is) = rbind (index_at phs i) (\<lambda>ph. if P ph then Ok ph else find_load P phs is)"

primrec seg_ranges :: "SegmentPlan list \<Rightarrow> ((u64 \<times> u64) list, error) result" where
  "seg_ranges [] = Ok []"
| "seg_ranges (s # ss) = rbind (seg_range s) (\<lambda>r. rbind (seg_ranges ss) (\<lambda>rs. Ok (r # rs)))"

primrec all_ok :: "('a \<Rightarrow> (unit, error) result) \<Rightarrow> 'a list \<Rightarrow> (unit, error) result" where
  "all_ok f [] = Ok ()"
| "all_ok f (x # xs) = rbind (f x) (\<lambda>_. all_ok f xs)"

fun windows_apart :: "(u64 \<times> u64) list \<Rightarrow> (unit, error) result" where
  "windows_apart (a # b # rs) = rbind (must (snd a \<le> fst b)) (\<lambda>_. windows_apart (b # rs))"
| "windows_apart rs = Ok ()"

abbreviation plan_at :: "Image \<Rightarrow> u64 \<Rightarrow> (LoadPlan, error) result" where
  "plan_at img a \<equiv> unwrap (plan any_heap img 4096 (At a))"

section \<open>The tests\<close>

definition default_phdr :: Phdr where
  "default_phdr = \<lparr> p_type = 0, p_flags = 0, p_offset = 0, p_vaddr = 0, p_paddr = 0, p_filesz = 0, p_memsz = 0,
     p_align = 0 \<rparr>"

definition prot_bits_follow_pf_flags_not_prot_constants :: "target_arch \<Rightarrow> (unit, error) result" where
  "prot_bits_follow_pf_flags_not_prot_constants arch =
    (let ph = default_phdr\<lparr> p_flags := PF_R OR PF_X \<rparr> in
     rbind (must (prot_of ph = PROT_READ OR PROT_EXEC)) (\<lambda>_.
     let ph = ph\<lparr> p_flags := PF_R OR PF_W \<rparr> in
     rbind (must (prot_of ph = PROT_READ OR PROT_WRITE)) (\<lambda>_.
     rbind (must (prot_of ph AND PROT_EXEC = 0)) (\<lambda>_.
     let ph = ph\<lparr> p_flags := 0 \<rparr> in
     must (prot_of ph = PROT_NONE)))))"

definition pie_is_biased_to_the_chosen_base :: "target_arch \<Rightarrow> (unit, error) result" where
  "pie_is_biased_to_the_chosen_base arch =
    rbind (parsed arch (pie_two_segment (ElfBuilder_new arch))) (\<lambda>img.
    rbind (plan_at img 0x10000000) (\<lambda>p.
    rbind (must (bias p = 0x10000000)) (\<lambda>_.
    rbind (must (base p = 0x10000000)) (\<lambda>_.
    rbind (padd (e_entry (ehdr img)) 0x10000000) (\<lambda>e.
    must (entry p = e))))))"

definition non_pie_keeps_its_link_address :: "target_arch \<Rightarrow> (unit, error) result" where
  "non_pie_keeps_its_link_address arch =
    rbind (parsed arch (non_pie (ElfBuilder_new arch))) (\<lambda>img.
    rbind (unwrap (plan any_heap img 4096 Fixed)) (\<lambda>p.
    rbind (must (bias p = 0)) (\<lambda>_.
    rbind (must (base p = 0x400000)) (\<lambda>_.
    rbind (must (entry p = e_entry (ehdr img))) (\<lambda>_.
    must (reserve_len p < 0x400000))))))"

definition reservation_absorbs_alignment_slack :: "target_arch \<Rightarrow> (unit, error) result" where
  "reservation_absorbs_alignment_slack arch =
    rbind (parsed arch (glibc_arm64_style (ElfBuilder_new arch))) (\<lambda>img.
    rbind (unwrap (reservation_len img 4096)) (\<lambda>need.
    rbind (unwrap (va_span img 4096)) (\<lambda>(lo, hi).
    rbind (psub hi lo) (\<lambda>span.
    rbind (padd span 0x10000) (\<lambda>n.
    rbind (psub n 0x1000) (\<lambda>n.
    rbind (must (need = n)) (\<lambda>_.
    rbind (plan_at img 0x20000000) (\<lambda>p.
    rbind (must (bias p = 0x20000000)) (\<lambda>_.
    rbind (must (reserve_addr p = 0x20000000)) (\<lambda>_.
    rbind (must (reserve_len p = need)) (\<lambda>_.
    rbind (padd (reserve_addr p) (reserve_len p)) (\<lambda>e.
    must (end_addr p \<le> e)))))))))))))"

definition unaligned_reservation_base_is_rounded_up :: "target_arch \<Rightarrow> (unit, error) result" where
  "unaligned_reservation_base_is_rounded_up arch =
    rbind (parsed arch (glibc_arm64_style (ElfBuilder_new arch))) (\<lambda>img.
    rbind (plan_at img 0x20001000) (\<lambda>p.
    rbind (must (base p = 0x20010000)) (\<lambda>_.
    rbind (must (reserve_addr p = 0x20001000)) (\<lambda>_.
    rbind (must (reserve_addr p < base p)) (\<lambda>_.
    rbind (padd (reserve_addr p) (reserve_len p)) (\<lambda>e.
    must (end_addr p \<le> e)))))))"

definition bss_is_split_into_a_zeroed_tail_and_anonymous_pages :: "target_arch \<Rightarrow> (unit, error) result" where
  "bss_is_split_into_a_zeroed_tail_and_anonymous_pages arch =
    rbind (parsed arch (glibc_arm64_style (ElfBuilder_new arch))) (\<lambda>img.
    rbind (plan_at img 0x10000000) (\<lambda>p.
    rbind (find_segment is_write (phdrs img) (segments p)) (\<lambda>data.
    rbind (index_at (phdrs img) (idx data)) (\<lambda>ph.
    rbind (padd (p_vaddr ph) (bias p)) (\<lambda>vaddr.
    rbind (padd vaddr (p_filesz ph)) (\<lambda>fend.
    rbind (unwrap_some (zero_map data)) (\<lambda>z.
    rbind (must (am_addr z = fend)) (\<lambda>_.
    rbind (padd (am_addr z) (am_len z)) (\<lambda>zend.
    rbind (unwrap (align_up_or fend 4096 ENOMEM)) (\<lambda>fpage.
    rbind (must (zend = fpage)) (\<lambda>_.
    rbind (unwrap_some (anon_map data)) (\<lambda>a.
    rbind (must (am_addr a = fpage)) (\<lambda>_.
    rbind (padd (am_addr a) (am_len a)) (\<lambda>aend.
    rbind (padd vaddr (p_memsz ph)) (\<lambda>mend.
    rbind (unwrap (align_up_or mend 4096 ENOMEM)) (\<lambda>mpage.
    rbind (must (aend = mpage)) (\<lambda>_.
    rbind (unwrap_some (file_map data)) (\<lambda>f.
    rbind (must (fm_addr f mod 4096 = 0)) (\<lambda>_.
    rbind (must (fm_off f mod 4096 = 0)) (\<lambda>_.
    rbind (padd (fm_addr f) (fm_len f)) (\<lambda>e.
    must (e = fpage))))))))))))))))))))))"

definition read_only_segment_with_bss_gets_a_write_window :: "target_arch \<Rightarrow> (unit, error) result" where
  "read_only_segment_with_bss_gets_a_write_window arch =
    rbind (parsed arch (patch_phdr 0 (\<lambda>p. p\<lparr> p_flags := PF_R OR PF_X, p_filesz := 0xf00, p_memsz := 0x1100 \<rparr>)
             (pie_two_segment (ElfBuilder_new arch)))) (\<lambda>img.
    rbind (plan_at img 0x10000000) (\<lambda>p.
    rbind (index_at (segments p) 0) (\<lambda>s.
    rbind (must (zero_map s \<noteq> None)) (\<lambda>_.
    rbind (must (needs_write_window s)) (\<lambda>_.
    must (prot s = PROT_READ OR PROT_EXEC))))))"

definition zero_filesz_segment_is_entirely_anonymous :: "target_arch \<Rightarrow> (unit, error) result" where
  "zero_filesz_segment_is_entirely_anonymous arch =
    rbind (parsed arch (patch_phdr 1 (\<lambda>p. p\<lparr> p_filesz := 0, p_memsz := 0x3000 \<rparr>)
             (pie_two_segment (ElfBuilder_new arch)))) (\<lambda>img.
    rbind (plan_at img 0x10000000) (\<lambda>p.
    rbind (unwrap_some (find (\<lambda>s. idx s = 1) (segments p))) (\<lambda>s.
    rbind (must (file_map s = None)) (\<lambda>_.
    rbind (must (zero_map s = None)) (\<lambda>_.
    rbind (unwrap_some (anon_map s)) (\<lambda>a.
    must (am_len a = 0x3000)))))))"

definition file_mapping_offset_stays_congruent_for_unaligned_vaddr :: "target_arch \<Rightarrow> (unit, error) result" where
  "file_mapping_offset_stays_congruent_for_unaligned_vaddr arch =
    rbind (parsed arch (unaligned_second_segment (ElfBuilder_new arch))) (\<lambda>img.
    rbind (plan_at img 0x10000000) (\<lambda>p.
    all_ok (\<lambda>s. case file_map s of
        None \<Rightarrow> Ok ()
      | Some f \<Rightarrow>
          rbind (index_at (phdrs img) (idx s)) (\<lambda>ph.
          rbind (must (fm_addr f mod 4096 = 0)) (\<lambda>_.
          rbind (must (fm_off f mod 4096 = 0)) (\<lambda>_.
          rbind (psub (p_offset ph) (fm_off f)) (\<lambda>d.
          rbind (padd (fm_addr f) d) (\<lambda>lands.
          rbind (padd (p_vaddr ph) (bias p)) (\<lambda>want.
          must (lands = want))))))))
      (segments p)))"

definition segments_never_overlap_in_the_plan :: "target_arch \<Rightarrow> (unit, error) result" where
  "segments_never_overlap_in_the_plan arch =
    all_ok (\<lambda>eb.
      rbind (parsed arch eb) (\<lambda>e.
      rbind (unwrap (plan any_heap e 4096 (if is_pie e then At 0x10000000 else Fixed))) (\<lambda>p.
      rbind (seg_ranges (segments p)) (\<lambda>ranges.
      let ranges = sort ranges in
      rbind (windows_apart ranges) (\<lambda>_.
      all_ok (\<lambda>(a, b).
        rbind (must (reserve_addr p \<le> a)) (\<lambda>_.
        rbind (padd (reserve_addr p) (reserve_len p)) (\<lambda>e.
        must (b \<le> e)))) ranges)))))
      [pie_two_segment (ElfBuilder_new arch), glibc_arm64_style (ElfBuilder_new arch),
       non_pie (ElfBuilder_new arch), four_segment_separate_code (ElfBuilder_new arch)]"

definition phdr_addr_prefers_pt_phdr_then_falls_back :: "target_arch \<Rightarrow> (unit, error) result" where
  "phdr_addr_prefers_pt_phdr_then_falls_back arch =
    rbind (parsed arch (glibc_arm64_style (ElfBuilder_new arch))) (\<lambda>img.
    rbind (plan_at img 0x10000000) (\<lambda>p.
    rbind (unwrap_some (phdr_seg img)) (\<lambda>pt_phdr.
    rbind (phdr_addr p img) (\<lambda>got.
    rbind (padd (p_vaddr pt_phdr) (bias p)) (\<lambda>want.
    rbind (must (got = Some want)) (\<lambda>_.
    rbind (parsed arch (drop_pt_phdr (glibc_arm64_style (ElfBuilder_new arch)))) (\<lambda>img2.
    rbind (plan_at img2 0x10000000) (\<lambda>p2.
    rbind (phdr_addr p2 img2) (\<lambda>got.
    rbind (padd (e_phoff (ehdr img2)) (bias p2)) (\<lambda>want.
    must (got = Some want)))))))))))"

definition exec_ranges_cover_only_executable_segments :: "target_arch \<Rightarrow> (unit, error) result" where
  "exec_ranges_cover_only_executable_segments arch =
    rbind (parsed arch (four_segment_separate_code (ElfBuilder_new arch))) (\<lambda>img.
    rbind (plan_at img 0x10000000) (\<lambda>p.
    rbind (exec_ranges p img) (\<lambda>ranges.
    rbind (must (length ranges = 1)) (\<lambda>_.
    rbind (find_load is_exec (phdrs img) (loads img)) (\<lambda>x.
    rbind (index_at ranges 0) (\<lambda>r.
    rbind (padd (p_vaddr x) (bias p)) (\<lambda>at.
    rbind (must (fst r \<le> at)) (\<lambda>_.
    rbind (padd (fst r) (snd r)) (\<lambda>r_end.
    rbind (padd at (p_memsz x)) (\<lambda>x_end.
    must (x_end \<le> r_end)))))))))))"

definition layout_tests :: "(target_arch \<Rightarrow> (unit, error) result) list" where
  "layout_tests =
    [prot_bits_follow_pf_flags_not_prot_constants, pie_is_biased_to_the_chosen_base,
     non_pie_keeps_its_link_address, reservation_absorbs_alignment_slack,
     unaligned_reservation_base_is_rounded_up, bss_is_split_into_a_zeroed_tail_and_anonymous_pages,
     read_only_segment_with_bss_gets_a_write_window, zero_filesz_segment_is_entirely_anonymous,
     file_mapping_offset_stays_congruent_for_unaligned_vaddr, segments_never_overlap_in_the_plan,
     phdr_addr_prefers_pt_phdr_then_falls_back, exec_ranges_cover_only_executable_segments]"

section \<open>They pass\<close>

lemmas plan_eval = plain_image_def built_ehdr_def word_eval layout_eval any_heap_def shape_defs seg_range_def

lemmas built_parsed = pie_parses [THEN parsed_built] non_pie_parses [THEN parsed_built]
  glibc_parses [THEN parsed_built] glibc_no_phdr_parses [THEN parsed_built] four_parses [THEN parsed_built]
  unaligned_parses [THEN parsed_built]

lemma prot_test: "prot_bits_follow_pf_flags_not_prot_constants arch = Ok ()"
  by (simp add: prot_bits_follow_pf_flags_not_prot_constants_def default_phdr_def layout_eval)

lemma pie_base_test: "pie_is_biased_to_the_chosen_base arch = Ok ()"
  unfolding pie_is_biased_to_the_chosen_base_def built_parsed all_ok.simps
  by (simp add: pie_image_def plan_eval)

lemma non_pie_plan_test: "non_pie_keeps_its_link_address arch = Ok ()"
  unfolding non_pie_keeps_its_link_address_def built_parsed all_ok.simps
  by (simp add: non_pie_image_def plan_eval)

lemma slack_test: "reservation_absorbs_alignment_slack arch = Ok ()"
  unfolding reservation_absorbs_alignment_slack_def built_parsed all_ok.simps
  by (simp add: glibc_image_def plan_eval reservation_len_def)

lemma rounding_test: "unaligned_reservation_base_is_rounded_up arch = Ok ()"
  unfolding unaligned_reservation_base_is_rounded_up_def built_parsed all_ok.simps
  by (simp add: glibc_image_def plan_eval)

lemma bss_test: "bss_is_split_into_a_zeroed_tail_and_anonymous_pages arch = Ok ()"
  unfolding bss_is_split_into_a_zeroed_tail_and_anonymous_pages_def built_parsed all_ok.simps
  by (simp add: glibc_image_def plan_eval)

lemma congruent_test: "file_mapping_offset_stays_congruent_for_unaligned_vaddr arch = Ok ()"
  unfolding file_mapping_offset_stays_congruent_for_unaligned_vaddr_def built_parsed all_ok.simps
  by (simp add: unaligned_image_def plan_eval)

lemma phdr_addr_test: "phdr_addr_prefers_pt_phdr_then_falls_back arch = Ok ()"
  unfolding phdr_addr_prefers_pt_phdr_then_falls_back_def built_parsed all_ok.simps
  by (simp add: glibc_image_def glibc_no_phdr_image_def
      plan_eval phdr_addr_def covers_def)

lemma exec_ranges_test: "exec_ranges_cover_only_executable_segments arch = Ok ()"
  unfolding exec_ranges_cover_only_executable_segments_def built_parsed all_ok.simps
  by (simp add: four_image_def plan_eval exec_ranges_def)

lemma overlap_test: "segments_never_overlap_in_the_plan arch = Ok ()"
  unfolding segments_never_overlap_in_the_plan_def built_parsed all_ok.simps
  by (simp add: pie_image_def glibc_image_def non_pie_image_def
      four_image_def plan_eval is_pie_def)

lemma window_test: "read_only_segment_with_bss_gets_a_write_window arch = Ok ()"
proof -
  let ?eb = "patch_phdr 0 (\<lambda>p. p\<lparr> p_flags := PF_R OR PF_X, p_filesz := 0xf00, p_memsz := 0x1100 \<rparr>)
    (pie_two_segment (ElfBuilder_new arch))"
  let ?phs = "[seg 5 0 0 0xf00 0x1100 0x1000, seg 6 0x1000 0x2000 0x500 0x1500 0x1000]"
  have "built_as arch ?eb (Ok (plain_image ?eb ?phs [0, 1]))"
    by (rule built_asI [where sz = "0x2000" and phs = ?phs])
      (simp_all add: fixture_eval header_eval plain_image_def del: EM_NATIVE_def)
  note img = this [THEN parsed_built]
  show ?thesis unfolding read_only_segment_with_bss_gets_a_write_window_def img by (simp add: plan_eval)
qed

lemma anonymous_test: "zero_filesz_segment_is_entirely_anonymous arch = Ok ()"
proof -
  let ?eb = "patch_phdr 1 (\<lambda>p. p\<lparr> p_filesz := 0, p_memsz := 0x3000 \<rparr>)
    (pie_two_segment (ElfBuilder_new arch))"
  let ?phs = "[seg 5 0 0 0x1000 0x1000 0x1000, seg 6 0x1000 0x2000 0 0x3000 0x1000]"
  have "built_as arch ?eb (Ok (plain_image ?eb ?phs [0, 1]))"
    by (rule built_asI [where sz = "0x1000" and phs = ?phs])
      (simp_all add: fixture_eval header_eval plain_image_def del: EM_NATIVE_def)
  note img = this [THEN parsed_built]
  show ?thesis unfolding zero_filesz_segment_is_entirely_anonymous_def img by (simp add: plan_eval)
qed

text \<open>
  The unit tests of the planner pass, for either machine type: the bias and the reservation of
  position-independent and fixed images, the slack for 64 KiB alignment, the split of a segment
  into file pages, a cleared tail and anonymous pages, the write window, the congruence of file
  offsets, the separation of the planned ranges, and the address of the program headers.
\<close>

lemma layout_tests_pass: "map (\<lambda>t. t arch) layout_tests = replicate 12 (Ok ())"
  by (simp add: layout_tests_def numeral_eq_Suc prot_test pie_base_test non_pie_plan_test slack_test rounding_test
      bss_test window_test anonymous_test congruent_test overlap_test phdr_addr_test exec_ranges_test)

end
