(* ===== verification/Log.thy ===== *)
theory Log
  imports Errno
begin

text \<open>
  The message buffer of \<open>rust/src/log.rs\<close>. The formatting machinery of the standard library hands
  a message to \<open>write_str\<close> in pieces; the buffer keeps what fits, marks a message that did not with
  an ellipsis, and ends it with a NUL for \<open>elfrs_printk\<close>, which is a parameter. Indexing, slicing
  and the subtraction in \<open>write_str\<close> panic out of range, as in Rust.
\<close>

section \<open>The buffer\<close>

definition LVL_ERR :: i32 where "LVL_ERR = 0"
definition LVL_WARN :: i32 where "LVL_WARN = 1"
definition LVL_INFO :: i32 where "LVL_INFO = 2"
definition LVL_DEBUG :: i32 where "LVL_DEBUG = 3"

definition MSG_MAX :: nat where "MSG_MAX = 512"

record Buf =
  buf_b :: bytes
  buf_n :: nat
  buf_truncated :: bool

definition Buf_new :: Buf where
  "Buf_new = \<lparr> buf_b = replicate MSG_MAX 0, buf_n = 0, buf_truncated = False \<rparr>"

definition write_str :: "bytes \<Rightarrow> Buf \<Rightarrow> (Buf, error) result" where
  "write_str s b =
    (if MSG_MAX - 1 < buf_n b then Panic else
     let room = MSG_MAX - 1 - buf_n b;
         n = min (length s) room;
         b' = (if n < length s then b\<lparr> buf_truncated := True \<rparr> else b)
     in rbind (copy_into (buf_b b') (buf_n b') (take n s)) (\<lambda>bs.
        Ok (b'\<lparr> buf_b := bs, buf_n := buf_n b' + n \<rparr>)))"

definition finish :: "Buf \<Rightarrow> (bytes \<times> Buf, error) result" where
  "finish b =
    rbind (if buf_truncated b \<and> 4 \<le> buf_n b
           then rbind (copy_into (buf_b b) (buf_n b - 4) [0x2e, 0x2e, 0x2e, 0]) (\<lambda>bs. Ok (b\<lparr> buf_b := bs \<rparr>))
           else rbind (copy_into (buf_b b) (buf_n b) [0]) (\<lambda>bs. Ok (b\<lparr> buf_b := bs, buf_n := buf_n b + 1 \<rparr>)))
      (\<lambda>b'. rbind (slice (buf_b b') 0 (buf_n b')) (\<lambda>msg. Ok (msg, b')))"

text \<open>\<open>write_fmt\<close> calls \<open>write_str\<close> once for each piece of the message.\<close>

primrec write_fmt :: "bytes list \<Rightarrow> Buf \<Rightarrow> (Buf, error) result" where
  "write_fmt [] b = Ok b"
| "write_fmt (s # ss) b = rbind (write_str s b) (write_fmt ss)"

definition emit :: "(i32 \<Rightarrow> bytes \<Rightarrow> ('s, unit, error) action) \<Rightarrow> i32 \<Rightarrow> bytes list \<Rightarrow> ('s, unit, error) action" where
  "emit printk lvl args =
    sbind (slift (write_fmt args Buf_new)) (\<lambda>b.
    sbind (slift (finish b)) (\<lambda>(msg, _).
    printk lvl msg))"

definition log_err :: "(i32 \<Rightarrow> bytes \<Rightarrow> ('s, unit, error) action) \<Rightarrow> bytes list \<Rightarrow> ('s, unit, error) action" where
  "log_err printk args = emit printk LVL_ERR args"

definition log_warn :: "(i32 \<Rightarrow> bytes \<Rightarrow> ('s, unit, error) action) \<Rightarrow> bytes list \<Rightarrow> ('s, unit, error) action" where
  "log_warn printk args = emit printk LVL_WARN args"

definition log_info :: "(i32 \<Rightarrow> bytes \<Rightarrow> ('s, unit, error) action) \<Rightarrow> bytes list \<Rightarrow> ('s, unit, error) action" where
  "log_info printk args = emit printk LVL_INFO args"

definition log_debug :: "(i32 \<Rightarrow> bytes \<Rightarrow> ('s, unit, error) action) \<Rightarrow> bytes list \<Rightarrow> ('s, unit, error) action" where
  "log_debug printk args = emit printk LVL_DEBUG args"

section \<open>The panic handler\<close>

text \<open>
  The last message of \<open>rust/src/rt.rs\<close>: a buffer of its own, half the size and without the
  ellipsis, so that a panic needs no heap. \<open>elfrs_crash\<close> gets the buffer up to its first NUL.
\<close>

record PanicBuf =
  pb_b :: bytes
  pb_n :: nat

definition panic_write_str :: "bytes \<Rightarrow> PanicBuf \<Rightarrow> (PanicBuf, error) result" where
  "panic_write_str s b =
    (if length (pb_b b) = 0 \<or> length (pb_b b) - 1 < pb_n b then Panic else
     let room = length (pb_b b) - 1 - pb_n b;
         n = min (length s) room
     in rbind (copy_into (pb_b b) (pb_n b) (take n s)) (\<lambda>bs.
        Ok (b\<lparr> pb_b := bs, pb_n := pb_n b + n \<rparr>)))"

primrec panic_write_fmt :: "bytes list \<Rightarrow> PanicBuf \<Rightarrow> (PanicBuf, error) result" where
  "panic_write_fmt [] b = Ok b"
| "panic_write_fmt (s # ss) b = rbind (panic_write_str s b) (panic_write_fmt ss)"

definition panic_handler :: "bytes list \<Rightarrow> (bytes, error) result" where
  "panic_handler info =
    rbind (panic_write_fmt info \<lparr> pb_b = replicate 256 0, pb_n = 0 \<rparr>) (\<lambda>buf.
    copy_into (pb_b buf) (pb_n buf) [0])"

section \<open>The invariant of the buffer\<close>

text \<open>The buffer holds the first 511 bytes written, and knows whether there were more.\<close>

definition holds_text :: "bytes \<Rightarrow> Buf \<Rightarrow> bool" where
  "holds_text t b \<longleftrightarrow> length (buf_b b) = MSG_MAX \<and> buf_n b = min (length t) (MSG_MAX - 1)
     \<and> take (buf_n b) (buf_b b) = take (MSG_MAX - 1) t \<and> (buf_truncated b \<longleftrightarrow> MSG_MAX - 1 < length t)"

lemma Buf_new_holds: "holds_text [] Buf_new"
  by (simp add: holds_text_def Buf_new_def)

lemma write_str_holds:
  assumes "holds_text t b"
  obtains b' where "write_str s b = Ok b'" and "holds_text (t @ s) b'"
proof -
  let ?n = "min (length s) (MSG_MAX - 1 - buf_n b)"
  have fits: "buf_n b + length (take ?n s) \<le> length (buf_b b)" "buf_n b \<le> MSG_MAX - 1"
    using assms by (auto simp: holds_text_def MSG_MAX_def)
  let ?b' = "b\<lparr> buf_b := take (buf_n b) (buf_b b) @ take ?n s @ drop (buf_n b + ?n) (buf_b b), buf_n := buf_n b + ?n,
      buf_truncated := buf_truncated b \<or> ?n < length s \<rparr>"
  have "write_str s b = Ok ?b'"
    using fits by (auto simp: write_str_def Let_def copy_into_def min_def)
  moreover have "holds_text (t @ s) ?b'"
    using assms by (auto simp: holds_text_def MSG_MAX_def min_def)
  ultimately show thesis by (rule that)
qed

lemma write_fmt_holds:
  assumes "holds_text t b"
  shows "\<exists>b'. write_fmt ss b = Ok b' \<and> holds_text (t @ concat ss) b'"
  using assms
proof (induction ss arbitrary: t b)
  case (Cons s ss)
  obtain b1 where "write_str s b = Ok b1" "holds_text (t @ s) b1" by (rule write_str_holds [OF Cons.prems])
  with Cons.IH [of "t @ s" b1] show ?case by simp
qed simp

text \<open>The message for a text: verbatim when it fits, otherwise cut and marked.\<close>

definition message :: "bytes \<Rightarrow> bytes" where
  "message t = (if length t < MSG_MAX then t @ [0] else take (MSG_MAX - 5) t @ [0x2e, 0x2e, 0x2e, 0])"

lemma finish_holds:
  assumes "holds_text t b"
  obtains b' where "finish b = Ok (message t, b')"
proof (cases "MSG_MAX - 1 < length t")
  case True
  with assms have b: "length (buf_b b) = 512" "buf_n b = 511" "take 511 (buf_b b) = take 511 t" "buf_truncated b"
    by (auto simp: holds_text_def MSG_MAX_def)
  from arg_cong [OF b(3), of "take 507", unfolded take_take] have "take 507 (buf_b b) = take 507 t" by simp
  with b True show thesis
    by (intro that) (simp add: finish_def copy_into_fits slice_def message_def MSG_MAX_def)
next
  case False
  with assms have "length (buf_b b) = 512" "buf_n b = length t" "take (length t) (buf_b b) = t" "\<not> buf_truncated b"
      "length t \<le> 511"
    by (auto simp: holds_text_def MSG_MAX_def min_def)
  then show thesis
    by (intro that) (simp add: finish_def copy_into_fits slice_def message_def MSG_MAX_def)
qed

text \<open>The panic buffer in the same way.\<close>

definition holds_panic :: "bytes \<Rightarrow> PanicBuf \<Rightarrow> bool" where
  "holds_panic t b \<longleftrightarrow> length (pb_b b) = 256 \<and> pb_n b = min (length t) 255 \<and> take (pb_n b) (pb_b b) = take 255 t"

lemma panic_write_str_holds:
  assumes "holds_panic t b"
  shows "\<exists>b'. panic_write_str s b = Ok b' \<and> holds_panic (t @ s) b'"
  using assms by (auto simp: holds_panic_def panic_write_str_def Let_def copy_into_def min_def)

lemma panic_write_fmt_holds:
  "holds_panic t b \<Longrightarrow> \<exists>b'. panic_write_fmt ss b = Ok b' \<and> holds_panic (t @ concat ss) b'"
proof (induction ss arbitrary: t b)
  case (Cons s ss)
  from panic_write_str_holds [OF Cons.prems, of s] obtain b1
    where "panic_write_str s b = Ok b1" "holds_panic (t @ s) b1" by blast
  with Cons.IH [of "t @ s" b1] show ?case by simp
qed simp

section \<open>Properties\<close>

text \<open>
  C26. Logging cannot overrun its buffer: whatever the pieces of a message are and however long it
  is, formatting does not panic and the kernel is called exactly once, with the whole message and a
  NUL when it is shorter than 512 bytes, and otherwise with its first 507 bytes, an ellipsis and a
  NUL; so what the kernel gets is always terminated and never longer than the buffer.
\<close>

theorem emit_message:
  "emit printk lvl args = printk lvl (message (concat args))
   \<and> length (message (concat args)) \<le> MSG_MAX \<and> last (message (concat args)) = 0"
proof -
  obtain b where b: "write_fmt args Buf_new = (Ok b :: (Buf, error) result)" "holds_text (concat args) b"
    using write_fmt_holds [OF Buf_new_holds, of args] by auto
  obtain b' where "finish b = (Ok (message (concat args), b') :: (bytes \<times> Buf, error) result)"
    by (rule finish_holds [OF b(2)])
  with b(1) have "emit printk lvl args = printk lvl (message (concat args))"
    by (simp add: emit_def sbind_sret_left)
  then show ?thesis by (auto simp: message_def MSG_MAX_def)
qed

text \<open>
  The panic handler does not panic: for a panic message of any length the buffer handed to
  \<open>elfrs_crash\<close> is 256 bytes long and holds the first 255 bytes of the message, terminated by a NUL.
\<close>

theorem panic_handler_total:
  "\<exists>rest. panic_handler info = Ok (take 255 (concat info) @ 0 # rest)
     \<and> length (take 255 (concat info) @ 0 # rest) = 256"
proof -
  have "holds_panic [] \<lparr> pb_b = replicate 256 0, pb_n = 0 \<rparr>" by (simp add: holds_panic_def)
  from panic_write_fmt_holds [OF this, of info] obtain b
    where b: "panic_write_fmt info \<lparr> pb_b = replicate 256 0, pb_n = 0 \<rparr> = Ok b"
      "length (pb_b b) = 256" "pb_n b = min (length (concat info)) 255" "take (pb_n b) (pb_b b) = take 255 (concat info)"
    by (auto simp: holds_panic_def)
  then have "panic_handler info = Ok (take 255 (concat info) @ 0 # drop (Suc (pb_n b)) (pb_b b))"
    by (simp add: panic_handler_def copy_into_def)
  with b(2,3) show ?thesis by (intro exI conjI) (auto simp: min_def)
qed

end
