(* ===== verification/Util_Tests.thy ===== *)
theory Util_Tests
  imports Elf_Tests Util Log
begin

text \<open>
  The unit tests of \<open>rust/src/util.rs\<close> and \<open>rust/src/log.rs\<close>, as programs of the model: a failed
  assertion is a panic.
\<close>

section \<open>The tests\<close>

text \<open>A byte string literal.\<close>

definition ascii :: "string \<Rightarrow> bytes" where
  "ascii s = map (\<lambda>c. of_nat (of_char c)) s"

definition basename_handles_the_awkward_cases :: "(unit, error) result" where
  "basename_handles_the_awkward_cases =
    rbind (must (basename (ascii ''/usr/bin/node'') = ascii ''node'')) (\<lambda>_.
    rbind (must (basename (ascii ''node'') = ascii ''node'')) (\<lambda>_.
    rbind (must (basename (ascii ''/usr/bin/'') = ascii ''bin'')) (\<lambda>_.
    rbind (must (basename (ascii ''/usr/bin///'') = ascii ''bin'')) (\<lambda>_.
    rbind (must (basename (ascii ''/'') = ascii '''')) (\<lambda>_.
    rbind (must (basename (ascii ''///'') = ascii '''')) (\<lambda>_.
    rbind (must (basename (ascii '''') = ascii '''')) (\<lambda>_.
    must (basename (ascii ''./x'') = ascii ''x''))))))))"

definition basename_does_not_modify_its_input :: "(unit, error) result" where
  "basename_does_not_modify_its_input =
    (let p = ascii ''/usr/bin/'';
         before = p;
         _ = basename p
     in must (p = before))"

definition only_bare_names_are_searched :: "(unit, error) result" where
  "only_bare_names_are_searched =
    rbind (must (is_bare_name (ascii ''node''))) (\<lambda>_.
    rbind (must (\<not> is_bare_name (ascii ''/usr/bin/node''))) (\<lambda>_.
    rbind (must (\<not> is_bare_name (ascii ''./node''))) (\<lambda>_.
    rbind (must (\<not> is_bare_name (ascii ''../node''))) (\<lambda>_.
    rbind (must (\<not> is_bare_name (ascii ''bin/node''))) (\<lambda>_.
    must (\<not> is_bare_name (ascii '''')))))))"

definition candidates_cover_each_element_in_order :: "(unit, error) result" where
  "candidates_cover_each_element_in_order =
    must (path_candidates any_heap (ascii ''node'') (ascii ''/usr/local/bin:/usr/bin:/bin'')
      = [ascii ''/usr/local/bin/node'', ascii ''/usr/bin/node'', ascii ''/bin/node''])"

definition trailing_slashes_do_not_double_up :: "(unit, error) result" where
  "trailing_slashes_do_not_double_up =
    must (path_candidates any_heap (ascii ''node'') (ascii ''/usr/bin/'') = [ascii ''/usr/bin/node''])"

definition an_empty_element_means_the_current_directory :: "(unit, error) result" where
  "an_empty_element_means_the_current_directory =
    must (path_candidates any_heap (ascii ''node'') (ascii ''/bin::/usr/bin'')
      = [ascii ''/bin/node'', ascii ''./node'', ascii ''/usr/bin/node''])"

definition show_escapes_non_printable_bytes :: "(unit, error) result" where
  "show_escapes_non_printable_bytes = must (Show (ascii ''/usr/bin'' @ [0x01, 0xff]) = ''/usr/bin??'')"

text \<open>
  \<open>write!\<close> passes each piece of the format to \<open>write_str\<close>; its result is dropped, and so is what
  \<open>finish\<close> leaves in the buffer.
\<close>

definition truncates_instead_of_overflowing :: "(unit, error) result" where
  "truncates_instead_of_overflowing =
    rbind (write_fmt [replicate (MSG_MAX * 2) 0x78] Buf_new) (\<lambda>buf.
    rbind (finish buf) (\<lambda>(msg, _).
    rbind (must (length msg \<le> MSG_MAX)) (\<lambda>_.
    must (drop (length msg - 4) msg = ascii ''...'' @ [0]))))"

definition short_messages_are_nul_terminated_verbatim :: "(unit, error) result" where
  "short_messages_are_nul_terminated_verbatim =
    rbind (write_fmt [ascii ''hello '', ascii ''42''] Buf_new) (\<lambda>buf.
    rbind (finish buf) (\<lambda>(msg, _).
    must (msg = ascii ''hello 42'' @ [0])))"

definition util_tests :: "(unit, error) result list" where
  "util_tests =
    [basename_handles_the_awkward_cases, basename_does_not_modify_its_input, only_bare_names_are_searched,
     candidates_cover_each_element_in_order, trailing_slashes_do_not_double_up,
     an_empty_element_means_the_current_directory, show_escapes_non_printable_bytes]"

definition log_tests :: "(unit, error) result list" where
  "log_tests = [truncates_instead_of_overflowing, short_messages_are_nul_terminated_verbatim]"

section \<open>They pass\<close>

lemma ascii_simps [simp]: "ascii [] = []" "ascii (c # cs) = of_nat (of_char c) # ascii cs"
  by (simp_all add: ascii_def)

lemma util_tests_pass: "util_tests = replicate 7 (Ok ())"
proof -
  have "basename_handles_the_awkward_cases = Ok ()" "basename_does_not_modify_its_input = Ok ()"
    by (simp_all add: basename_handles_the_awkward_cases_def basename_does_not_modify_its_input_def basename_def Let_def)
  moreover have "only_bare_names_are_searched = Ok ()"
    by (simp add: only_bare_names_are_searched_def is_bare_name_def)
  moreover have "candidates_cover_each_element_in_order = Ok ()" "trailing_slashes_do_not_double_up = Ok ()"
      "an_empty_element_means_the_current_directory = Ok ()"
    by (simp_all add: candidates_cover_each_element_in_order_def trailing_slashes_do_not_double_up_def
        an_empty_element_means_the_current_directory_def path_candidates_def path_candidate_def List.map_filter_def
        any_heap_def Let_def)
  moreover have "show_escapes_non_printable_bytes = Ok ()"
    by (simp add: show_escapes_non_printable_bytes_def Show_def show_byte_def char_of_def word_le_nat_alt bit_Suc_0_iff)
  ultimately show ?thesis by (simp add: util_tests_def numeral_eq_Suc)
qed

text \<open>The messages are those of the general fact about the buffer.\<close>

lemma written_message:
  obtains b0 b1 where "write_fmt args Buf_new = (Ok b0 :: (Buf, error) result)" and "finish b0 = Ok (message (concat args), b1)"
proof -
  obtain b0 where b0: "write_fmt args Buf_new = (Ok b0 :: (Buf, error) result)" "holds_text (concat args) b0"
    using write_fmt_holds [OF Buf_new_holds, of args] by auto
  obtain b1 where "finish b0 = (Ok (message (concat args), b1) :: (bytes \<times> Buf, error) result)"
    by (rule finish_holds [OF b0(2)])
  with b0(1) that show thesis by blast
qed

lemma log_tests_pass: "log_tests = replicate 2 (Ok ())"
proof -
  obtain b0 b1 where "write_fmt [replicate (MSG_MAX * 2) 0x78] Buf_new = (Ok b0 :: (Buf, error) result)"
      "finish b0 = Ok (message (concat [replicate (MSG_MAX * 2) 0x78]), b1)" by (rule written_message)
  then have "truncates_instead_of_overflowing = Ok ()"
    by (simp add: truncates_instead_of_overflowing_def message_def MSG_MAX_def)
  moreover obtain c0 c1 where "write_fmt [ascii ''hello '', ascii ''42''] Buf_new = (Ok c0 :: (Buf, error) result)"
      "finish c0 = Ok (message (concat [ascii ''hello '', ascii ''42'']), c1)" by (rule written_message)
  then have "short_messages_are_nul_terminated_verbatim = Ok ()"
    by (simp add: short_messages_are_nul_terminated_verbatim_def message_def MSG_MAX_def)
  ultimately show ?thesis by (simp add: log_tests_def numeral_eq_Suc)
qed

end
