(* ===== verification/Stack_Use.thy ===== *)
theory Stack_Use
  imports Initial_Stack
begin

text \<open>
  How much of the stack of the tests a layout uses: everything pushed is counted, so a layout that
  succeeds had room for all of it, and the lowest address written, which \<open>FakeStack\<close> records, is
  the final stack pointer.
\<close>

definition takes :: "(FakeStack Pusher, 'a, error) action \<Rightarrow> nat \<Rightarrow> bool" where
  "takes f n \<longleftrightarrow> (\<forall>p a p'. p_sp p \<le> fs_low (p_w p) \<longrightarrow> f p = (Ok a, p') \<longrightarrow>
     p_sp p' \<le> fs_low (p_w p') \<and> unat (p_sp p') + n \<le> unat (p_sp p) \<and> fs_base (p_w p') = fs_base (p_w p))"

lemma takesD:
  assumes "takes f n" and "p_sp p \<le> fs_low (p_w p)" and "f p = (Ok a, p')"
  shows "p_sp p' \<le> fs_low (p_w p')" and "unat (p_sp p') + n \<le> unat (p_sp p)" and "fs_base (p_w p') = fs_base (p_w p)"
  using assms unfolding takes_def by blast+

lemma takes_mono: "takes f n \<Longrightarrow> k \<le> n \<Longrightarrow> takes f k"
  unfolding takes_def by (meson add_left_mono order_trans)

lemma takes_ret: "takes (sret x) 0" "takes (slift r) 0" "takes (\<lambda>p. (Ok (h p), p)) 0"
  by (auto simp: takes_def slift_def sret_def)

lemma takes_bind:
  assumes "takes f n" and "\<And>a. takes (g a) k"
  shows "takes (sbind f g) (n + k)"
  unfolding takes_def
proof (intro allI impI)
  fix p a p' assume p: "p_sp p \<le> fs_low (p_w p)" and "sbind f g p = (Ok a, p')"
  then obtain x p1 where "f p = (Ok x, p1)" "g x p1 = (Ok a, p')" by (auto simp: sbind_Ok)
  with takesD [OF assms(1) p, of x p1] takesD [OF assms(2), of p1 x a p']
  show "p_sp p' \<le> fs_low (p_w p') \<and> unat (p_sp p') + (n + k) \<le> unat (p_sp p) \<and> fs_base (p_w p') = fs_base (p_w p)" by simp
qed

lemma takes_push_bytes: "takes (push_bytes fake_stack d) (length d)"
  unfolding takes_def
proof (intro allI impI)
  fix p a p' assume low: "p_sp p \<le> fs_low (p_w p)" and run: "push_bytes fake_stack d p = (Ok a, p')"
  let ?sp = "p_sp p - of_nat (length d)"
  from run have len: "length d \<le> unat (p_sp p)" by (auto simp: push_bytes_def split: if_splits)
  from run len obtain w where w: "fs_write ?sp d (p_w p) = (Ok (), w)" "p' = \<lparr> p_w = w, p_sp = ?sp \<rparr>"
    by (auto simp: push_bytes_def Let_def outcome_simps set_sp_def with_writer_def fake_stack_def split: prod.splits if_splits)
  have sp: "unat ?sp = unat (p_sp p) - length d" by (rule unat_minus_of_nat [OF len])
  from w(1) have "fs_low w = min (fs_low (p_w p)) ?sp" "fs_base w = fs_base (p_w p)"
    by (auto simp: fs_write_def Let_def split: if_splits result.splits)
  with w(2) sp low len show "p_sp p' \<le> fs_low (p_w p') \<and> unat (p_sp p') + length d \<le> unat (p_sp p)
      \<and> fs_base (p_w p') = fs_base (p_w p)"
    by (auto simp: min_def word_le_nat_alt)
qed

lemma takes_push_cstr: "takes (push_cstr fake_stack s) (length s + 1)"
proof -
  have "takes (if s = [] then (\<lambda>p. (Ok (p_sp p), p)) else push_bytes fake_stack s) (length s)"
    using takes_ret(3) [of p_sp] takes_push_bytes [of s] by (cases "s = []") simp_all
  from takes_bind [OF takes_push_bytes this, of "[0]"] show ?thesis by (simp add: push_cstr_def)
qed

lemma takes_push_cstrs: "takes (push_cstrs fake_stack ss) (strings_len ss)"
proof (induction ss)
  case (Cons s ss)
  from takes_bind [OF takes_push_cstr takes_bind [OF Cons takes_ret(1)]] show ?case by simp
qed (simp add: takes_ret)

lemma takes_align: "takes (pusher_align SP_ALIGN) 0"
  by (auto simp: takes_def pusher_align_def stack_align_16 set_sp_def sbind_def word_le_nat_alt unat_align_16
      intro: order_trans [OF div_times_less_eq_dividend])

lemma takes_push_blobs: "takes (push_blobs fake_stack aux) (length (ax_execfn aux) + length (ax_random aux))"
proof -
  have name: "takes (if ax_platform aux = [] then sret None
      else sbind (push_cstr fake_stack (ax_platform aux)) (\<lambda>a. sret (Some a))) 0"
    by (auto intro: takes_ret takes_mono [OF takes_bind [OF takes_push_cstr takes_ret(1)]])
  have "takes (push_blobs fake_stack aux) (0 + (length (ax_execfn aux) + 1 + (0 + (length (ax_random aux) + 0))))"
    unfolding push_blobs_def
    by (intro takes_bind name takes_push_cstr takes_align takes_push_bytes takes_ret)
  then show ?thesis by (rule takes_mono) simp
qed

lemma takes_push_strings: "takes (push_strings heap fake_stack argv envp) (strings_len argv + strings_len envp)"
proof -
  have "takes (push_strings heap fake_stack argv envp) (0 + (strings_len (rev envp) + (0 + (strings_len (rev argv) + 0))))"
    unfolding push_strings_def by (intro takes_bind takes_push_cstrs takes_ret)
  then show ?thesis by (simp add: add.commute)
qed

text \<open>The words of the block are written upwards from the final stack pointer.\<close>

definition climbs :: "u64 \<Rightarrow> (FakeStack \<times> u64, 'a, error) action \<Rightarrow> bool" where
  "climbs sp f \<longleftrightarrow> (\<forall>c r c'. fs_low (fst c) = sp \<longrightarrow> sp \<le> snd c \<longrightarrow> f c = (Ok r, c') \<longrightarrow>
     fs_low (fst c') = sp \<and> sp \<le> snd c' \<and> fs_base (fst c') = fs_base (fst c))"

lemma climbsD:
  assumes "climbs sp f" and "fs_low (fst c) = sp" and "sp \<le> snd c" and "f c = (Ok r, c')"
  shows "fs_low (fst c') = sp" and "sp \<le> snd c'" and "fs_base (fst c') = fs_base (fst c)"
  using assms unfolding climbs_def by blast+

lemma put_word_Ok:
  assumes "put_word fake_stack v c = (Ok r, c')"
  shows "fs_low (fst c') = min (fs_low (fst c)) (snd c)" and "fs_base (fst c') = fs_base (fst c)" and "snd c \<le> snd c'"
  using assms by (auto simp: put_word_def fake_stack_def fs_write_def Let_def padd_outcome word_le_nat_alt
      split: prod.splits result.splits if_splits)

lemma climbs_word: "climbs sp (put_word fake_stack v)"
  unfolding climbs_def
proof (intro allI impI)
  fix c r c' assume c: "fs_low (fst c) = sp" "sp \<le> snd c" and run: "put_word fake_stack v c = (Ok r, c')"
  from put_word_Ok [OF run] c show "fs_low (fst c') = sp \<and> sp \<le> snd c' \<and> fs_base (fst c') = fs_base (fst c)"
    by (simp add: min_def)
qed

lemma climbs_bind:
  assumes "climbs sp f" and "\<And>x. climbs sp (g x)"
  shows "climbs sp (sbind f g)"
  unfolding climbs_def
proof (intro allI impI)
  fix c r c' assume c: "fs_low (fst c) = sp" "sp \<le> snd c" and "sbind f g c = (Ok r, c')"
  then obtain x c1 where "f c = (Ok x, c1)" "g x c1 = (Ok r, c')" by (auto simp: sbind_Ok)
  with climbsD [OF assms(1) c, of x c1] climbsD [OF assms(2), of c1 x r c']
  show "fs_low (fst c') = sp \<and> sp \<le> snd c' \<and> fs_base (fst c') = fs_base (fst c)" by simp
qed

lemma climbs_for: "(\<And>x. climbs sp (f x)) \<Longrightarrow> climbs sp (sfor f xs)"
proof (induction xs)
  case Nil
  show ?case unfolding climbs_def by simp
next
  case (Cons x xs)
  then show ?case by (simp add: climbs_bind)
qed

lemma put_block_low:
  assumes "put_block fake_stack argc argv_at envp_at av (s, sp) = (Ok r, c')" and "sp \<le> fs_low s"
  shows "fs_low (fst c') = sp"
proof -
  let ?rest = "sbind (sfor (put_word fake_stack) argv_at) (\<lambda>_.
    sbind (put_word fake_stack 0) (\<lambda>_.
    sbind (sfor (put_word fake_stack) envp_at) (\<lambda>_.
    sbind (put_word fake_stack 0) (\<lambda>_.
    sfor (\<lambda>(k, v). sbind (put_word fake_stack k) (\<lambda>_. put_word fake_stack v)) av))))"
  from assms(1) obtain x c1 where w: "put_word fake_stack argc (s, sp) = (Ok x, c1)" "?rest c1 = (Ok r, c')"
    by (auto simp: put_block_def sbind_Ok)
  have pair: "climbs sp (case kv of (k, v) \<Rightarrow> sbind (put_word fake_stack k) (\<lambda>_. put_word fake_stack v))" for kv
    by (cases kv) (simp add: climbs_bind climbs_word)
  have "climbs sp ?rest" by (intro climbs_bind climbs_word climbs_for pair)
  from climbsD(1) [OF this _ _ w(2)] put_word_Ok [OF w(1)] assms(2) show ?thesis by (simp add: min_def)
qed

text \<open>A layout that succeeds.\<close>

lemma layout_uses:
  assumes "fs_ok fs" and "fs_low fs = fs_top fs" and run: "build_stack heap fake_stack argv envp aux fs = (Ok l, fs')"
  shows "fs_low fs' = sl_sp l"
    and "unat (fs_base fs) + strings_len argv + strings_len envp + 8 * (length argv + length envp) \<le> unat (fs_top fs)"
proof -
  define p where "p = \<lparr> p_w = fs, p_sp = fs_top fs AND - 16 \<rparr>"
  have p: "p_sp p \<le> fs_low (p_w p)" "unat (p_sp p) \<le> unat (fs_top fs)"
    using assms(2) by (simp_all add: p_def word_le_nat_alt unat_align_16)
  from run obtain p3 where "build_pushed heap fake_stack argv envp aux p = (Ok l, p3)" and fs': "fs' = p_w p3"
    by (auto simp: build_stack_def outcome_simps stack_align_16 fake_stack_def p_def split: prod.splits)
  then obtain pl ex rn p1 as es p2 where b: "push_blobs fake_stack aux p = (Ok (pl, ex, rn), p1)"
      "push_strings heap fake_stack argv envp p1 = (Ok (as, es), p2)"
      "write_block fake_stack argv envp as es (auxv_entries aux rn pl (Some ex)) p2 = (Ok l, p3)"
    by (auto simp: build_pushed_def sbind_Ok split: prod.splits)
  note t1 = takesD [OF takes_push_blobs p(1) b(1)]
  note t2 = takesD [OF takes_push_strings t1(1) b(2)]
  let ?av = "auxv_entries aux rn pl (Some ex)"
  from b(3) obtain block sp c where w: "block_len (length argv) (length envp) (length ?av) = Ok block"
      "block \<le> unat (p_sp p2)" "sp = p_sp p2 - of_nat block AND - 16" "fs_base (p_w p2) \<le> sp"
      "put_block fake_stack (of_nat (length argv)) as es ?av (p_w p2, sp) = (Ok (), c)" "fst c = p_w p3" "sl_sp l = sp"
    by (auto simp: write_block_def outcome_simps stack_align_16 fake_stack_def with_writer_def at_cursor_def not_less
        split: prod.splits)
  have sp: "unat sp \<le> unat (p_sp p2) - block"
    unfolding w(3) unat_align_16 unat_minus_of_nat [OF w(2)] by simp
  then have "sp \<le> fs_low (p_w p2)" using t2(1) by (simp add: word_le_nat_alt)
  from put_block_low [OF w(5) this] w(6,7) fs' show "fs_low fs' = sl_sp l" by simp
  have "block = (1 + length argv + 1 + length envp + 1) * 8 + length ?av * 16"
    using w(1) by (simp add: block_len_def Let_def split: if_splits)
  moreover have "fs_base (p_w p2) = fs_base fs" using t1(3) t2(3) by (simp add: p_def)
  ultimately show "unat (fs_base fs) + strings_len argv + strings_len envp + 8 * (length argv + length envp) \<le> unat (fs_top fs)"
    using t1(2) t2(2) p(2) sp w(2,4) by (simp add: word_le_nat_alt)
qed

end
