(* ===== verification/Auxv_Tests.thy ===== *)
theory Auxv_Tests
  imports Util_Tests Stack_Use
begin

text \<open>
  The unit tests of \<open>rust/src/auxv.rs\<close> as programs of the model, on the stack of the test suite. They
  pass because of the general facts about the layout, not by running it: what is laid out is read
  back, and a layout that succeeds had room for all it wrote.
\<close>

section \<open>Shared parts\<close>

definition test_spec :: AuxvSpec where
  "test_spec = AuxvSpec_default\<lparr> ax_phdr := Some 0x10000040, ax_phent := 56, ax_phnum := 9, ax_base := 0x20000000,
     ax_entry := 0x10007930, ax_pagesz := 4096, ax_uid := 0, ax_gid := 0, ax_hwcap := 3, ax_hwcap2 := 0, ax_clktck := 100,
     ax_secure := False, ax_random := ascii ''0123456789abcdef'', ax_platform := ascii ''aarch64'',
     ax_execfn := ascii ''/usr/bin/node'', ax_sysinfo_ehdr := None, ax_minsigstksz := Some 6144 \<rparr>"

text \<open>The decimal digits \<open>format!\<close> prints for a number.\<close>

fun decimal :: "nat \<Rightarrow> bytes" where
  "decimal n = (if n < 10 then [of_nat (48 + n)] else decimal (n div 10) @ [of_nat (48 + n mod 10)])"

text \<open>A fresh stack with a layout on it; the test goes on with the outcome and the stack.\<close>

definition on_stack_of :: "nat \<Rightarrow> bytes list \<Rightarrow> bytes list \<Rightarrow> AuxvSpec
    \<Rightarrow> ((StackLayout, error) result \<Rightarrow> FakeStack \<Rightarrow> (unit, error) result) \<Rightarrow> (unit, error) result" where
  "on_stack_of len argv envp aux k =
    rbind (FakeStack_new 0x70000000 len) (\<lambda>s.
    case build_stack any_heap fake_stack argv envp aux s of (r, s') \<Rightarrow> k r s')"

section \<open>The tests\<close>

definition round_trips_argv_envp_and_auxv :: "(unit, error) result" where
  "round_trips_argv_envp_and_auxv =
    (let argv = [ascii ''/usr/bin/node'', ascii ''/usr/src/server.js''];
         envp = [ascii ''PATH=/usr/bin:/bin'', ascii ''HOME=/'', ascii ''PWD=/'']
     in on_stack_of (64 * 1024) argv envp test_spec (\<lambda>r s.
       rbind (unwrap r) (\<lambda>l.
       rbind (parse_stack s (sl_sp l)) (\<lambda>p.
       rbind (must (pr_argv p = [ascii ''/usr/bin/node'', ascii ''/usr/src/server.js''])) (\<lambda>_.
       rbind (must (pr_envp p = [ascii ''PATH=/usr/bin:/bin'', ascii ''HOME=/'', ascii ''PWD=/''])) (\<lambda>_.
       rbind (must (parsed_get p AT_PHDR = Some 0x10000040)) (\<lambda>_.
       rbind (must (parsed_get p AT_PHENT = Some 56)) (\<lambda>_.
       rbind (must (parsed_get p AT_PHNUM = Some 9)) (\<lambda>_.
       rbind (must (parsed_get p AT_BASE = Some 0x20000000)) (\<lambda>_.
       rbind (must (parsed_get p AT_ENTRY = Some 0x10007930)) (\<lambda>_.
       rbind (must (parsed_get p AT_PAGESZ = Some 4096)) (\<lambda>_.
       rbind (must (parsed_get p AT_CLKTCK = Some 100)) (\<lambda>_.
       rbind (must (parsed_get p AT_SECURE = Some 0)) (\<lambda>_.
       must (parsed_get p AT_MINSIGSTKSZ = Some 6144)))))))))))))))"

definition shape_is_aligned :: "nat \<Rightarrow> nat \<Rightarrow> (unit, error) result" where
  "shape_is_aligned na ne =
    (let args = map (\<lambda>i. ascii ''arg'' @ decimal i) [0..<na];
         envs = map (\<lambda>i. ascii ''E'' @ decimal i @ ascii ''=v'') [0..<ne]
     in on_stack_of (64 * 1024) args envs test_spec (\<lambda>r s.
       rbind (unwrap r) (\<lambda>l.
       rbind (must (unat (sl_sp l) mod 16 = 0)) (\<lambda>_.
       rbind (parse_stack s (sl_sp l)) (\<lambda>p.
       must (length (pr_argv p) = na))))))"

definition sp_is_sixteen_byte_aligned_for_every_shape :: "(unit, error) result" where
  "sp_is_sixteen_byte_aligned_for_every_shape =
    fst (sfor (\<lambda>na. sfor (\<lambda>ne. slift (shape_is_aligned na ne)) [0..<8]) [0..<8] ())"

definition at_random_points_at_sixteen_readable_bytes_on_the_stack :: "(unit, error) result" where
  "at_random_points_at_sixteen_readable_bytes_on_the_stack =
    on_stack_of (64 * 1024) [ascii ''prog''] [] test_spec (\<lambda>r s.
      rbind (unwrap r) (\<lambda>l.
      rbind (parse_stack s (sl_sp l)) (\<lambda>p.
      rbind (unwrap_some (parsed_get p AT_RANDOM)) (\<lambda>at.
      rbind (must (sl_sp l \<le> at \<and> at < fs_top s)) (\<lambda>_.
      rbind (fs_read s at 16) (\<lambda>bytes_read.
      must (bytes_read = ascii ''0123456789abcdef'')))))))"

definition platform_and_execfn_are_copied_onto_the_stack :: "(unit, error) result" where
  "platform_and_execfn_are_copied_onto_the_stack =
    on_stack_of (64 * 1024) [ascii ''prog''] [] test_spec (\<lambda>r s.
      rbind (unwrap r) (\<lambda>l.
      rbind (parse_stack s (sl_sp l)) (\<lambda>p.
      rbind (unwrap_some (parsed_get p AT_PLATFORM)) (\<lambda>plat.
      rbind (unwrap_some (parsed_get p AT_EXECFN)) (\<lambda>execfn.
      rbind (must (sl_sp l \<le> plat \<and> plat < fs_top s)) (\<lambda>_.
      rbind (must (sl_sp l \<le> execfn \<and> execfn < fs_top s)) (\<lambda>_.
      rbind (cstr_at s plat) (\<lambda>name.
      rbind (must (name = ascii ''aarch64'')) (\<lambda>_.
      rbind (cstr_at s execfn) (\<lambda>file.
      must (file = ascii ''/usr/bin/node'')))))))))))"

definition strings_are_nul_terminated_including_empty_ones :: "(unit, error) result" where
  "strings_are_nul_terminated_including_empty_ones =
    on_stack_of (64 * 1024) [ascii ''prog'', ascii '''', ascii ''x''] [ascii ''''] test_spec (\<lambda>r s.
      rbind (unwrap r) (\<lambda>l.
      rbind (parse_stack s (sl_sp l)) (\<lambda>p.
      rbind (must (pr_argv p = [ascii ''prog'', [], ascii ''x''])) (\<lambda>_.
      must (pr_envp p = [[]])))))"

definition no_auxv_entry_is_duplicated :: "(unit, error) result" where
  "no_auxv_entry_is_duplicated =
    on_stack_of (64 * 1024) [ascii ''p''] [] test_spec (\<lambda>r s.
      rbind (unwrap r) (\<lambda>l.
      rbind (parse_stack s (sl_sp l)) (\<lambda>p.
      let keys = sort (map fst (pr_auxv p));
          n = length keys;
          keys = remdups_adj keys
      in must (length keys = n))))"

definition omits_phdr_entries_when_the_headers_are_not_mapped :: "(unit, error) result" where
  "omits_phdr_entries_when_the_headers_are_not_mapped =
    on_stack_of (64 * 1024) [ascii ''p''] [] (test_spec\<lparr> ax_phdr := None \<rparr>) (\<lambda>r s.
      rbind (unwrap r) (\<lambda>l.
      rbind (parse_stack s (sl_sp l)) (\<lambda>p.
      rbind (must (parsed_get p AT_PHDR = None)) (\<lambda>_.
      rbind (must (parsed_get p AT_PHENT = None)) (\<lambda>_.
      must (parsed_get p AT_PHNUM = None))))))"

definition oversized_environment_is_rejected_not_overflowed :: "(unit, error) result" where
  "oversized_environment_is_rejected_not_overflowed =
    on_stack_of (16 * 1024) [ascii ''p''] [replicate (32 * 1024) 0x78] test_spec (\<lambda>r s.
      rbind (unwrap_err r) (\<lambda>e. must (e = E2BIG)))"

definition a_stack_that_is_merely_tight_still_fails_cleanly :: "(unit, error) result" where
  "a_stack_that_is_merely_tight_still_fails_cleanly =
    on_stack_of 4096 [ascii ''p''] (map (\<lambda>i. ascii ''VAR'' @ decimal i @ ascii ''=0123456789'') [0..<200]) test_spec (\<lambda>r s.
      case r of Err e \<Rightarrow> (if e = E2BIG then Ok () else Panic) | _ \<Rightarrow> Panic)"

definition everything_written_stays_inside_the_stack :: "(unit, error) result" where
  "everything_written_stays_inside_the_stack =
    on_stack_of (64 * 1024) [ascii ''/usr/bin/node'', ascii ''/usr/src/server.js'']
      [ascii ''PATH=/usr/bin'', ascii ''HOME=/''] test_spec (\<lambda>r s.
      rbind (unwrap r) (\<lambda>l.
      rbind (must (fs_base s \<le> fs_low s)) (\<lambda>_.
      must (fs_low s = sl_sp l))))"

definition size_check_counts_terminators_and_pointers :: "(unit, error) result" where
  "size_check_counts_terminators_and_pointers =
    (let stack = 4 * 1024 * 1024 :: u64;
         v = replicate 110000 (ascii ''a'');
         strlen_only = sum_list (map length v)
     in rbind (must (of_nat strlen_only < stack div 4)) (\<lambda>_.
        rbind (unwrap_err (check_arg_env_size v [] stack)) (\<lambda>e.
        rbind (must (e = E2BIG)) (\<lambda>_.
        must (case check_arg_env_size [ascii ''prog''] [ascii ''HOME=/''] (8 * 1024) of Ok _ \<Rightarrow> True | _ \<Rightarrow> False)))))"

definition auxv_tests :: "(unit, error) result list" where
  "auxv_tests =
    [round_trips_argv_envp_and_auxv, sp_is_sixteen_byte_aligned_for_every_shape,
     at_random_points_at_sixteen_readable_bytes_on_the_stack, platform_and_execfn_are_copied_onto_the_stack,
     strings_are_nul_terminated_including_empty_ones, no_auxv_entry_is_duplicated,
     omits_phdr_entries_when_the_headers_are_not_mapped, oversized_environment_is_rejected_not_overflowed,
     a_stack_that_is_merely_tight_still_fails_cleanly, everything_written_stays_inside_the_stack,
     size_check_counts_terminators_and_pointers]"

section \<open>What every test finds\<close>

declare decimal.simps [simp del]

lemma test_spec_fields:
  "ax_phdr test_spec = Some 0x10000040" "ax_platform test_spec = ascii ''aarch64''" "ax_execfn test_spec = ascii ''/usr/bin/node''"
  "ax_random test_spec = ascii ''0123456789abcdef''" "ax_sysinfo_ehdr test_spec = None" "ax_minsigstksz test_spec = Some 6144"
  by (simp_all add: test_spec_def)

lemma fresh_stack:
  assumes "len < 2 ^ 32"
  obtains s where "FakeStack_new 0x70000000 len = (Ok s :: (FakeStack, error) result)" and "fs_ok s" and "fs_low s = fs_top s"
    and "unat (fs_top s) = unat (fs_base s) + len"
proof -
  define s :: FakeStack where "s = \<lparr> fs_base = 0x70000000, fs_mem = replicate len 0xAA, fs_low = 0x70000000 + of_nat len \<rparr>"
  have len: "unat (of_nat len :: u64) = len" using assms by (simp add: unat_of_nat take_bit_nat_eq_self_iff)
  then have "FakeStack_new 0x70000000 len = (Ok s :: (FakeStack, error) result)"
    using assms by (simp add: FakeStack_new_def padd_ok s_def)
  moreover have "fs_ok s" "fs_low s = fs_top s" using assms by (simp_all add: s_def fs_ok_def fs_top_def)
  moreover from this(1) have "unat (fs_top s) = unat (fs_base s) + len" by (simp add: fs_top_unat s_def)
  ultimately show thesis by (rule that)
qed

text \<open>A layout that fits: what the tests can ask about it.\<close>

lemma fitting_layout:
  assumes "aux = test_spec \<or> aux = test_spec\<lparr> ax_phdr := None \<rparr>"
    and "strings_len (argv @ envp) + 8 * length (argv @ envp) \<le> 32768"
    and nul: "\<forall>s\<in>set (argv @ envp). 0 \<notin> set s"
  obtains s s' l pl ex rn where "FakeStack_new 0x70000000 65536 = (Ok s :: (FakeStack, error) result)"
    and "build_stack any_heap fake_stack argv envp aux s = (Ok l, s')"
    and "parse_stack s' (sl_sp l) = Ok \<lparr> pr_argv = argv, pr_envp = envp, pr_auxv = final_auxv aux (Some pl) ex rn \<rparr>"
    and "unat (sl_sp l) mod 16 = 0" and "fs_low s' = sl_sp l" and "fs_base s' \<le> fs_low s'"
    and "\<forall>a\<in>{pl, ex, rn}. sl_sp l \<le> a \<and> a < fs_top s'"
    and "fs_read s' rn 16 = Ok (ascii ''0123456789abcdef'')" and "cstr_at s' ex = Ok (ascii ''/usr/bin/node'')"
    and "cstr_at s' pl = Ok (ascii ''aarch64'')"
proof -
  obtain s where s: "FakeStack_new 0x70000000 65536 = (Ok s :: (FakeStack, error) result)" "fs_ok s" "fs_low s = fs_top s"
      "unat (fs_top s) = unat (fs_base s) + 65536" by (rule fresh_stack [of 65536]) simp
  have aux: "ax_platform aux = ascii ''aarch64''" "ax_execfn aux = ascii ''/usr/bin/node''" "ax_random aux = ascii ''0123456789abcdef''"
    using assms(1) by (auto simp: test_spec_fields)
  have "\<not> over_budget argv envp 65536" "stack_need argv envp aux + 16 \<le> 65536"
    using assms(2) by (simp_all add: over_budget_def ARG_MAX_LEN_def stack_need_def aux)
  with fake_writer.build_stack_yields [OF s(2), of any_heap argv envp aux] s(4)
  obtain l s' where run: "build_stack any_heap fake_stack argv envp aux s = (Ok l, s')" and dvd: "16 dvd unat (sl_sp l)"
      and base: "fs_base s' = fs_base s" "unat (fs_base s) \<le> unat (sl_sp l)"
    by (auto elim!: yieldsE simp: any_heap_def fake_stack_def inside_def)
  note low = layout_uses(1) [OF s(2,3) run]
  from laid_out [OF s(2) run] obtain as es pl ex rn where ok: "fs_ok s'" and at:
      "words_at s' (sl_sp l) (stack_words (of_nat (length argv)) as es (auxv_entries aux rn pl (Some ex)))"
      "list_all2 (\<lambda>a s. on_stack s' a (s @ [0])) as argv" "list_all2 (\<lambda>a s. on_stack s' a (s @ [0])) es envp"
      "0 \<notin> set es" "on_stack s' ex (ax_execfn aux @ [0])" "on_stack s' rn (ax_random aux)"
      "case pl of None \<Rightarrow> ax_platform aux = [] | Some a \<Rightarrow> ax_platform aux \<noteq> [] \<and> on_stack s' a (ax_platform aux @ [0])"
      "\<forall>a\<in>set_option pl \<union> {ex, rn}. unat (sl_sp l) \<le> unat a"
    by metis
  obtain a where pl: "pl = Some a" "on_stack s' a (ax_platform aux @ [0])" using at(7) aux(1) by (cases pl) auto
  have "readable s' as argv" "readable s' es envp" using at(2,3) nul by (auto intro: readable_placed)
  note parsed = startup_reads(1) [OF ok at(1) this at(4), unfolded pl(1)]
  have top: "sl_sp l \<le> x \<and> x < fs_top s'" if "on_stack s' x (d @ [b])" "unat (sl_sp l) \<le> unat x" for x d b
    using that fs_top_unat [OF ok] by (simp add: placed_def word_le_nat_alt word_less_nat_alt)
  have "\<forall>x\<in>{a, ex, rn}. sl_sp l \<le> x \<and> x < fs_top s'"
    using top [OF at(5)] top [of rn "butlast (ax_random aux)" "last (ax_random aux)"] at(6) top [OF pl(2)] at(8) pl(1) aux(3)
    by simp
  moreover have "length (ax_random aux) = 16" by (simp add: aux(3))
  with fs_read_placed [OF at(6)] aux(3) have "fs_read s' rn 16 = Ok (ascii ''0123456789abcdef'')" by metis
  moreover have "cstr_at s' ex = Ok (ascii ''/usr/bin/node'')" "cstr_at s' a = Ok (ascii ''aarch64'')"
    using cstr_at_placed [OF at(5)] cstr_at_placed [OF pl(2)] by (simp_all add: aux)
  ultimately show thesis
    using that [OF s(1) run parsed _ low] dvd base low by (simp add: word_le_nat_alt)
qed

text \<open>A layout that cannot fit is refused with \<open>E2BIG\<close>.\<close>

lemma refused_layout:
  assumes "len < 2 ^ 32" and "len < strings_len envp + 8 * length envp"
  obtains s s' where "FakeStack_new 0x70000000 len = (Ok s :: (FakeStack, error) result)"
    and "build_stack any_heap fake_stack argv envp aux s = (Err E2BIG, s')"
proof -
  obtain s where s: "FakeStack_new 0x70000000 len = (Ok s :: (FakeStack, error) result)" "fs_ok s" "fs_low s = fs_top s"
      "unat (fs_top s) = unat (fs_base s) + len" by (rule fresh_stack [OF assms(1)])
  obtain r s' where run: "build_stack any_heap fake_stack argv envp aux s = (r, s')" by (metis prod.exhaust)
  from fake_writer.build_stack_yields [OF s(2), of any_heap argv envp aux] run have "r \<noteq> Panic" "r = Err e \<Longrightarrow> e = E2BIG" for e
    by (auto simp: yields_def any_heap_def)
  moreover have "r \<noteq> Ok l" for l using layout_uses(2) [OF s(2,3), of any_heap argv envp aux l s'] run s(4) assms(2) by auto
  ultimately show thesis using that [OF s(1)] run by (cases r) auto
qed

section \<open>They pass\<close>

lemma decimal_facts: "0 < length (decimal n)" "0 \<notin> set (decimal n)" "n < 10 \<Longrightarrow> length (decimal n) = 1"
proof -
  have digit: "(of_nat (48 + k) :: u8) \<noteq> 0" if "k < 10" for k
  proof
    assume "(of_nat (48 + k) :: u8) = 0"
    then have "unat (of_nat (48 + k) :: u8) = 0" by simp
    with that show False by (simp add: unat_of_nat take_bit_nat_eq_self_iff del: of_nat_add)
  qed
  show "0 < length (decimal n)" by (subst decimal.simps) simp
  show "n < 10 \<Longrightarrow> length (decimal n) = 1" by (simp add: decimal.simps)
  show "0 \<notin> set (decimal n)"
  proof (induction n rule: decimal.induct)
    case (1 n)
    with digit [of n] digit [of "n mod 10"] show ?case by (subst decimal.simps) (auto simp del: of_nat_add)
  qed
qed

lemma strings_len_map: "strings_len (map f xs) = sum_list (map (\<lambda>x. length (f x) + 1) xs)"
  by (induction xs) simp_all

lemma numbered_len: "n \<le> 10 \<Longrightarrow> strings_len (map (\<lambda>i. a @ decimal i @ b) [0..<n]) = (length a + length b + 2) * n"
  by (induction n) (simp_all add: strings_len_map decimal_facts(3))

lemmas auxv_eval = parsed_get_def auxv_entries_def butlast_append test_spec_def AuxvSpec_default_def at_defs

lemma on_fitting_stack:
  assumes "aux = test_spec \<or> aux = test_spec\<lparr> ax_phdr := None \<rparr>"
    and "strings_len (argv @ envp) + 8 * length (argv @ envp) \<le> 32768"
    and "\<forall>s\<in>set (argv @ envp). 0 \<notin> set s"
    and "\<And>l s pl ex rn. parse_stack s (sl_sp l) = Ok \<lparr> pr_argv = argv, pr_envp = envp, pr_auxv = final_auxv aux (Some pl) ex rn \<rparr>
      \<Longrightarrow> unat (sl_sp l) mod 16 = 0 \<Longrightarrow> fs_low s = sl_sp l \<Longrightarrow> fs_base s \<le> fs_low s
      \<Longrightarrow> \<forall>a\<in>{pl, ex, rn}. sl_sp l \<le> a \<and> a < fs_top s \<Longrightarrow> fs_read s rn 16 = Ok (ascii ''0123456789abcdef'')
      \<Longrightarrow> cstr_at s ex = Ok (ascii ''/usr/bin/node'') \<Longrightarrow> cstr_at s pl = Ok (ascii ''aarch64'') \<Longrightarrow> k (Ok l) s = Ok ()"
  shows "on_stack_of (64 * 1024) argv envp aux k = Ok ()"
  by (rule fitting_layout [OF assms(1-3)]) (simp add: on_stack_of_def assms(4))

lemma on_refused_stack:
  assumes "len < 2 ^ 32" and "len < strings_len envp + 8 * length envp" and "\<And>s. k (Err E2BIG) s = Ok ()"
  shows "on_stack_of len argv envp aux k = Ok ()"
  by (rule refused_layout [OF assms(1,2), where argv = argv and aux = aux]) (simp add: on_stack_of_def assms(3))

lemma round_trip_tests:
  "round_trips_argv_envp_and_auxv = Ok ()" "strings_are_nul_terminated_including_empty_ones = Ok ()"
  "everything_written_stays_inside_the_stack = Ok ()"
  unfolding round_trips_argv_envp_and_auxv_def strings_are_nul_terminated_including_empty_ones_def
    everything_written_stays_inside_the_stack_def Let_def
  by (rule on_fitting_stack; simp add: auxv_eval)+

lemma pointer_tests:
  "at_random_points_at_sixteen_readable_bytes_on_the_stack = Ok ()"
  "platform_and_execfn_are_copied_onto_the_stack = Ok ()"
  unfolding at_random_points_at_sixteen_readable_bytes_on_the_stack_def platform_and_execfn_are_copied_onto_the_stack_def
  by (rule on_fitting_stack; simp add: auxv_eval)+

lemma entry_tests:
  "no_auxv_entry_is_duplicated = Ok ()" "omits_phdr_entries_when_the_headers_are_not_mapped = Ok ()"
proof -
  have "distinct (map fst (final_auxv test_spec (Some pl) ex rn))" for pl ex rn by (simp add: auxv_eval)
  then have "length (remdups_adj (sort (map fst (final_auxv test_spec (Some pl) ex rn))))
      = length (final_auxv test_spec (Some pl) ex rn)" for pl ex rn
    by (simp add: remdups_adj_distinct)
  then show "no_auxv_entry_is_duplicated = Ok ()"
    unfolding no_auxv_entry_is_duplicated_def Let_def by (intro on_fitting_stack) simp_all
  show "omits_phdr_entries_when_the_headers_are_not_mapped = Ok ()"
    unfolding omits_phdr_entries_when_the_headers_are_not_mapped_def by (rule on_fitting_stack; simp add: auxv_eval)
qed

text \<open>Eight arguments and eight variables of one digit each fit, so every shape does.\<close>

lemma shape_is_aligned_ok:
  assumes "na < 8" and "ne < 8"
  shows "shape_is_aligned na ne = Ok ()"
proof -
  let ?args = "map (\<lambda>i. ascii ''arg'' @ decimal i) [0..<na]" and ?envs = "map (\<lambda>i. ascii ''E'' @ decimal i @ ascii ''=v'') [0..<ne]"
  have "strings_len ?args = 5 * na" "strings_len ?envs = 5 * ne"
    using assms numbered_len [of na "ascii ''arg''" "[]"] numbered_len [of ne "ascii ''E''" "ascii ''=v''"] by simp_all
  then have "strings_len (?args @ ?envs) + 8 * length (?args @ ?envs) \<le> 32768" using assms by simp
  moreover have "\<forall>s\<in>set (?args @ ?envs). 0 \<notin> set s" by (auto simp: decimal_facts(2) ascii_def)
  ultimately show ?thesis
    unfolding shape_is_aligned_def Let_def by (intro on_fitting_stack) simp_all
qed

lemma shape_test: "sp_is_sixteen_byte_aligned_for_every_shape = Ok ()"
proof -
  have "sfor (\<lambda>ne. slift (shape_is_aligned na ne)) [0..<8] () = (Ok (), ())" if "na < 8" for na
    using shape_is_aligned_ok [OF that] by (simp add: upt_rec sbind_def slift_def)
  then show ?thesis
    by (simp add: sp_is_sixteen_byte_aligned_for_every_shape_def upt_rec [of _ 8] sbind_def)
qed

lemma refused_tests:
  "oversized_environment_is_rejected_not_overflowed = Ok ()" "a_stack_that_is_merely_tight_still_fails_cleanly = Ok ()"
proof -
  show "oversized_environment_is_rejected_not_overflowed = Ok ()"
    unfolding oversized_environment_is_rejected_not_overflowed_def by (rule on_refused_stack) simp_all
  let ?envs = "map (\<lambda>i. ascii ''VAR'' @ decimal i @ ascii ''=0123456789'') [0..<200]"
  have "sum_list (map (\<lambda>i. 15 :: nat) [0..<200]) \<le> strings_len ?envs"
    unfolding strings_len_map using decimal_facts(1) by (intro sum_list_mono) (simp add: Suc_le_eq)
  then have "4096 < strings_len ?envs + 8 * length ?envs" by (simp add: sum_list_triv)
  then show "a_stack_that_is_merely_tight_still_fails_cleanly = Ok ()"
    unfolding a_stack_that_is_merely_tight_still_fails_cleanly_def by (intro on_refused_stack) simp_all
qed

text \<open>A hundred thousand variables of one letter: two bytes and a pointer each.\<close>

lemma size_test: "size_check_counts_terminators_and_pointers = Ok ()"
proof -
  have "strings_len (replicate n s) = n * (length s + 1)" for n and s :: bytes by (induction n) simp_all
  then have "over_budget (replicate 110000 (ascii ''a'')) [] (4 * 1024 * 1024)"
    by (simp add: over_budget_def ARG_MAX_LEN_def)
  moreover have "\<not> over_budget [ascii ''prog''] [ascii ''HOME=/''] (8 * 1024)"
    by (simp add: over_budget_def ARG_MAX_LEN_def)
  moreover have "sum_list (map length (replicate 110000 (ascii ''a''))) = 110000" by (simp add: map_replicate_const sum_list_replicate)
  ultimately show ?thesis
    by (simp add: size_check_counts_terminators_and_pointers_def check_arg_env_size_iff)
qed

lemma auxv_tests_pass: "auxv_tests = replicate 11 (Ok ())"
  by (simp add: auxv_tests_def round_trip_tests pointer_tests entry_tests shape_test refused_tests size_test numeral_eq_Suc)

end
