(* ===== verification/Vm_Refinement.thy ===== *)
theory Vm_Refinement
  imports Fake_Vm_Facts
begin

text \<open>
  The trait \<open>Vm\<close> of \<open>rust/src/loader.rs\<close> as a transition system, and what it promises. A call is one
  method with its arguments; the abstract machine works on the cells alone, is deterministic but for
  the choice of a free range, and has one rule per method. Every implementation that meets the
  contract \<open>address_space\<close> refines it: a run of calls on the implementation is, seen through its
  cells, a run of the abstract machine with the same calls and the same returned addresses. The
  interpretation \<open>fake\<close> gives this for the address space of the test suite.
\<close>

section \<open>Calls\<close>

datatype vm_call =
    CallMap Where u64 u32 MapSrc
  | CallUnmap u64 u64
  | CallProtect u64 u64 u32
  | CallWrite u64 bytes
  | CallZero u64 u64
  | CallIcacheSync u64 u64
  | CallAllocAligned u64 u64
  | CallFreeAligned u64 u64

text \<open>The methods that return nothing return 0 here.\<close>

primrec run_call :: "'s Vm \<Rightarrow> vm_call \<Rightarrow> ('s, u64, error) action" where
  "run_call vm (CallMap at len p src) = vm_map vm at len p src"
| "run_call vm (CallUnmap a len) = sbind (vm_unmap vm a len) (\<lambda>_. sret 0)"
| "run_call vm (CallProtect a len p) = sbind (vm_protect vm a len p) (\<lambda>_. sret 0)"
| "run_call vm (CallWrite a bs) = sbind (vm_write vm a bs) (\<lambda>_. sret 0)"
| "run_call vm (CallZero a len) = sbind (vm_zero vm a len) (\<lambda>_. sret 0)"
| "run_call vm (CallIcacheSync a len) = sbind (vm_icache_sync vm a len) (\<lambda>_. sret 0)"
| "run_call vm (CallAllocAligned al len) = vm_alloc_aligned vm al len"
| "run_call vm (CallFreeAligned a len) = sbind (vm_free_aligned vm a len) (\<lambda>_. sret 0)"

definition vacant :: "cells \<Rightarrow> nat \<Rightarrow> nat \<Rightarrow> bool" where
  "vacant m lo hi \<longleftrightarrow> (\<forall>x. lo \<le> x \<and> x < hi \<longrightarrow> m x = None)"

text \<open>
  What a caller owes: ranges are not empty, a protection changes whole mappings, and nothing has
  been mapped over the memory the allocator hands out.
\<close>

primrec call_legal :: "cells \<Rightarrow> (nat \<Rightarrow> bool) \<Rightarrow> vm_call \<Rightarrow> u64 \<Rightarrow> bool" where
  "call_legal m bd (CallMap at len p src) r \<longleftrightarrow> 0 < unat len"
| "call_legal m bd (CallUnmap a len) r \<longleftrightarrow> 0 < unat len"
| "call_legal m bd (CallProtect a len p) r \<longleftrightarrow> 0 < unat len \<and> bd (unat a) \<and> bd (unat a + unat len)"
| "call_legal m bd (CallWrite a bs) r \<longleftrightarrow> True"
| "call_legal m bd (CallZero a len) r \<longleftrightarrow> True"
| "call_legal m bd (CallIcacheSync a len) r \<longleftrightarrow> True"
| "call_legal m bd (CallAllocAligned al len) r \<longleftrightarrow>
     0 < unat len \<and> is_power_of_two al \<and> vacant m (unat r) (unat r + unat len)"
| "call_legal m bd (CallFreeAligned a len) r \<longleftrightarrow> 0 < unat len"

inductive vm_trace :: "'s Vm \<Rightarrow> ('s \<Rightarrow> cells) \<Rightarrow> ('s \<Rightarrow> nat \<Rightarrow> bool) \<Rightarrow> 's \<Rightarrow> (vm_call \<times> u64) list \<Rightarrow> 's \<Rightarrow> bool"
  for vm cells bd where
  vm_start: "vm_trace vm cells bd s [] s"
| vm_step: "vm_trace vm cells bd s tr s1 \<Longrightarrow> call_legal (cells s1) (bd s1) c r \<Longrightarrow>
    run_call vm c s1 = (Ok r, s2) \<Longrightarrow> vm_trace vm cells bd s (tr @ [(c, r)]) s2"

section \<open>The abstract machine\<close>

inductive cells_step :: "(i32 \<Rightarrow> nat \<Rightarrow> u8) \<Rightarrow> nat \<Rightarrow> cells \<Rightarrow> vm_call \<Rightarrow> u64 \<Rightarrow> cells \<Rightarrow> bool"
  for fbyte page where
  exact: "cells_step fbyte page m (CallMap (Exact a) len p src) r
    (overlay m (unat a) (unat a + unat len) (\<lambda>x. Some (p, src_byte fbyte src (x - unat a))))"
| placed: "at = Anywhere \<or> at = Hint h \<Longrightarrow> page dvd unat r \<Longrightarrow> vacant m (unat r) (unat r + unat len) \<Longrightarrow>
    cells_step fbyte page m (CallMap at len p src) r
      (overlay m (unat r) (unat r + unat len) (\<lambda>x. Some (p, src_byte fbyte src (x - unat r))))"
| unmap: "cells_step fbyte page m (CallUnmap a len) 0 (overlay m (unat a) (unat a + unat len) (\<lambda>_. None))"
| protect: "cells_step fbyte page m (CallProtect a len p) 0
    (overlay m (unat a) (unat a + unat len) (\<lambda>x. set_prot p (m x)))"
| written: "cells_step fbyte page m (CallWrite a bs) 0
    (overlay m (unat a) (unat a + length bs) (\<lambda>x. set_byte (bs ! (x - unat a)) (m x)))"
| zero: "cells_step fbyte page m (CallZero a len) 0
    (overlay m (unat a) (unat a + unat len) (\<lambda>x. set_byte 0 (m x)))"
| sync: "cells_step fbyte page m (CallIcacheSync a len) 0 m"
| alloc: "unat al dvd unat r \<Longrightarrow> vacant m (unat r) (unat r + unat len) \<Longrightarrow>
    cells_step fbyte page m (CallAllocAligned al len) r
      (overlay m (unat r) (unat r + unat len) (\<lambda>x. Some (RW, f x)))"
| free: "cells_step fbyte page m (CallFreeAligned a len) 0 (overlay m (unat a) (unat a + unat len) (\<lambda>_. None))"

inductive cells_trace :: "(i32 \<Rightarrow> nat \<Rightarrow> u8) \<Rightarrow> nat \<Rightarrow> cells \<Rightarrow> (vm_call \<times> u64) list \<Rightarrow> cells \<Rightarrow> bool"
  for fbyte page where
  cells_start: "cells_trace fbyte page m [] m"
| cells_next: "cells_trace fbyte page m tr m1 \<Longrightarrow> cells_step fbyte page m1 c r m2 \<Longrightarrow>
    cells_trace fbyte page m (tr @ [(c, r)]) m2"

inductive_cases cells_step_cases: "cells_step fbyte page m c r m'"

text \<open>The addresses a call may change.\<close>

fun footprint :: "vm_call \<times> u64 \<Rightarrow> nat set" where
  "footprint (CallMap (Exact a) len p src, r) = {unat a ..< unat a + unat len}"
| "footprint (CallMap at len p src, r) = {unat r ..< unat r + unat len}"
| "footprint (CallUnmap a len, r) = {unat a ..< unat a + unat len}"
| "footprint (CallProtect a len p, r) = {unat a ..< unat a + unat len}"
| "footprint (CallWrite a bs, r) = {unat a ..< unat a + length bs}"
| "footprint (CallZero a len, r) = {unat a ..< unat a + unat len}"
| "footprint (CallIcacheSync a len, r) = {}"
| "footprint (CallAllocAligned al len, r) = {unat r ..< unat r + unat len}"
| "footprint (CallFreeAligned a len, r) = {unat a ..< unat a + unat len}"

lemma cells_step_frame: "cells_step fbyte page m c r m' \<Longrightarrow> x \<notin> footprint (c, r) \<Longrightarrow> m' x = m x"
  by (erule cells_step_cases) (auto simp: overlay_def)

lemma cells_trace_frame:
  "cells_trace fbyte page m tr m' \<Longrightarrow> x \<notin> (\<Union>e\<in>set tr. footprint e) \<Longrightarrow> m' x = m x"
  by (induction rule: cells_trace.induct) (auto dest: cells_step_frame)

section \<open>Simulation\<close>

context address_space
begin

lemma run_call_simulates:
  assumes "inv s" and "call_legal (cells s) (cut s) c r" and "run_call vm c s = (Ok r, s')"
  shows "inv s' \<and> cells_step fbyte (unat (vm_page_size vm)) (cells s) c r (cells s')"
proof (cases c)
  case (CallMap at len p src)
  then have run: "vm_map vm at len p src s = (Ok r, s')" and len: "0 < unat len"
    using assms(2,3) by auto
  show ?thesis
  proof (cases at)
    case (Exact a)
    with map_exact [OF assms(1) len] run have "inv s'"
      "cells s' = overlay (cells s) (unat a) (unat a + unat len) (\<lambda>x. Some (p, src_byte fbyte src (x - unat a)))"
      by blast+
    with CallMap Exact show ?thesis by (simp add: cells_step.exact)
  qed (use CallMap map_free [OF assms(1) len TrueI _ run] in \<open>auto simp: vacant_def intro!: cells_step.placed\<close>)
next
  case (CallAllocAligned al len)
  with assms alloc_ok [OF assms(1), of len al r s'] show ?thesis
    by (auto simp: vacant_def intro!: cells_step.alloc)
qed (use assms unmap_ok [OF assms(1)] protect_ok [OF assms(1)] write_ok [OF assms(1)]
      zero_ok [OF assms(1) zero_inside [OF disjI1]] sync_ok [OF assms(1)] free_ok [OF assms(1)]
    in \<open>auto simp: sbind_Ok sret_def intro: cells_step.intros\<close>)

lemma vm_trace_refines:
  assumes "vm_trace vm cells cut s tr s'" and "inv s"
  shows "inv s' \<and> cells_trace fbyte (unat (vm_page_size vm)) (cells s) tr (cells s')"
  using assms
proof (induction rule: vm_trace.induct)
  case (vm_step s tr s1 c r s2)
  then show ?case using run_call_simulates [of s1 c r s2] by (auto intro: cells_trace.cells_next)
qed (auto intro: cells_trace.cells_start)

lemma vm_trace_frame:
  assumes "vm_trace vm cells cut s tr s'" and "inv s" and "x \<notin> (\<Union>e\<in>set tr. footprint e)"
  shows "cells s' x = cells s x"
  using vm_trace_refines [OF assms(1,2)] cells_trace_frame assms(3) by blast

end

section \<open>The address space of the tests\<close>

abbreviation fake_trace :: "FakeVm \<Rightarrow> files \<Rightarrow> State \<Rightarrow> (vm_call \<times> u64) list \<Rightarrow> State \<Rightarrow> bool" where
  "fake_trace fv fls \<equiv> vm_trace (fake_vm fv fls) fake_cells fake_cut"

text \<open>Two pages of 8 bytes mapped at the base, filled, sealed, and the second one given back.\<close>

definition small_fv :: FakeVm where "small_fv = \<lparr> fv_page = 8, fv_can_map_files = False \<rparr>"

definition small_trace :: "(vm_call \<times> u64) list" where
  "small_trace = [(CallMap Anywhere 16 3 Anon, 16), (CallWrite 20 [1, 2], 0), (CallProtect 16 16 1, 0),
     (CallUnmap 24 8, 0)]"

definition small_state :: "regions \<Rightarrow> Op list \<Rightarrow> State" where
  "small_state rs ops = \<lparr> st_base = 16, st_regions = rs, st_log = ops, st_heap = 4096 \<rparr>"

lemmas small_eval = fake_map_def fake_protect_def fake_unmap_def fake_write_def choose_place_def punch_def
  region_hits_def bt_below_def punch_one_def bt_remove_def bt_update_def bt_last_upto_def first_fit_def
  map_data_def map_file_def store_at_def push_op_def slice_def small_fv_def small_state_def sbind_def prot_defs
  word_eval

lemma small_run:
  "fake_trace small_fv (\<lambda>_. None) (small_state [] []) small_trace
     (small_state [(16, \<lparr> r_len = 8, r_prot = 1, r_data = replicate 4 0 @ [1, 2] @ replicate 2 0, r_file = None \<rparr>)]
        [OpMap 16 16 3, OpProtect 16 16 1, OpUnmap 24 8])"
proof -
  let ?r = "\<lambda>q d. [(16, \<lparr> r_len = 16, r_prot = q, r_data = d, r_file = None \<rparr>)]"
  let ?d = "replicate 4 0 @ [1, 2] @ replicate 10 0"
  let ?trace = "fake_trace small_fv (\<lambda>_. None) (small_state [] [])"
  have "?trace ([] @ [(CallMap Anywhere 16 3 Anon, 16)]) (small_state (?r 3 (replicate 16 0)) [OpMap 16 16 3])"
    by (rule vm_trace.vm_step [OF vm_trace.vm_start]) (simp_all add: small_eval)
  then have "?trace (([] @ [(CallMap Anywhere 16 3 Anon, 16)]) @ [(CallWrite 20 [1, 2], 0)])
      (small_state (?r 3 ?d) [OpMap 16 16 3])"
    by (rule vm_trace.vm_step) (simp_all add: small_eval)
  then have "?trace ((([] @ [(CallMap Anywhere 16 3 Anon, 16)]) @ [(CallWrite 20 [1, 2], 0)]) @ [(CallProtect 16 16 1, 0)])
      (small_state (?r 1 ?d) [OpMap 16 16 3, OpProtect 16 16 1])"
    by (rule vm_trace.vm_step) (simp_all add: small_eval fake_cut_def region_cut_def)
  then have "?trace (((([] @ [(CallMap Anywhere 16 3 Anon, 16)]) @ [(CallWrite 20 [1, 2], 0)]) @ [(CallProtect 16 16 1, 0)])
      @ [(CallUnmap 24 8, 0)])
     (small_state [(16, \<lparr> r_len = 8, r_prot = 1, r_data = replicate 4 0 @ [1, 2] @ replicate 2 0, r_file = None \<rparr>)]
        [OpMap 16 16 3, OpProtect 16 16 1, OpUnmap 24 8])"
    by (rule vm_trace.vm_step) (simp_all add: small_eval)
  then show ?thesis by (simp add: small_trace_def)
qed



end
