(* ===== verification/Serving.thy ===== *)
theory Serving
  imports Loader_Facts
begin

text \<open>
  When a load through file mappings succeeds. The locale \<open>serving_space\<close> extends \<open>mapping_space\<close> with
  what an address space grants: in a \<open>tidy\<close> state a fixed mapping of whole pages below the end of
  the address space, clearing bytes of a writable mapping, a change of protection of mapped pages,
  and a range of its own choice as long as there is room above \<open>ceiling\<close>. Under these the loader
  neither fails nor panics.
\<close>

lemma yields_and_ends:
  "yields m s Q E \<Longrightarrow> ends m s Q' E' \<Longrightarrow> yields m s (\<lambda>x s'. Q x s' \<and> Q' x s') E"
  by (auto simp: yields_def ends_def split: prod.splits result.splits)

lemma yields_for:
  assumes "I s" and "\<And>x s. x \<in> set xs \<Longrightarrow> I s \<Longrightarrow> yields (f x) s (\<lambda>_ s'. I s') E"
  shows "yields (sfor f xs) s (\<lambda>_ s'. I s') E"
  using assms
proof (induction xs arbitrary: s)
  case (Cons x xs)
  have rest: "yields (sfor f xs) s' (\<lambda>_. I) E" if "I s'" for s' using Cons.IH [OF that] Cons.prems(2) by simp
  have "yields (f x) s (\<lambda>_. I) E" using Cons.prems by simp
  then show ?case unfolding sfor.simps wp by (rule yields_weaken) (auto intro: rest)
qed (simp add: wp)

lemma write_bit: "(p OR PROT_WRITE) AND PROT_WRITE \<noteq> 0"
  by (simp add: word_ao_absorbs PROT_WRITE_def)

lemma planned_from:
  assumes "seg_plans_ok ps b phs is segs" and "seg \<in> set segs"
  shows "\<exists>i\<in>set is. seg_plan_ok ps b i (phs ! i) seg"
proof -
  from assms(2) obtain k where "k < length segs" "seg = segs ! k" by (auto simp: in_set_conv_nth)
  with assms(1) show ?thesis by (metis list_all2_lengthD list_all2_nthD2 nth_mem)
qed

text \<open>The part of the file a segment maps: from the page of its offset to the end of its last page.\<close>

lemma file_map_range:
  assumes pow: "is_power_of_two ps" and ok: "load_ok ps ph" and dvd: "unat ps dvd unat b"
    and sp: "seg_plan_ok ps b i ph seg" and fm: "file_map seg = Some fm"
  shows "unat (fm_off fm) \<le> unat (p_offset ph)"
    and "unat (fm_off fm) + unat (fm_len fm) = ceil_to (unat (p_offset ph) + unat (p_filesz ph)) (unat ps)"
proof -
  let ?r = "sv b ph mod unat ps"
  note geo = file_geometry [OF pow ok dvd sp fm]
  have off: "unat (fm_off fm) + ?r = unat (p_offset ph)" using sp fm by (simp add: seg_plan_ok_def)
  then show "unat (fm_off fm) \<le> unat (p_offset ph)" by simp
  let ?k = "?r + unat (p_filesz ph)"
  have "unat ps dvd unat (fm_off fm)"
    using off congruent_offset [OF ok geo(6) dvd] by (metis add_diff_cancel_right' dvd_minus_mod)
  from ceil_to_add [OF this, of ?k] off
  have "ceil_to (unat (p_offset ph) + unat (p_filesz ph)) (unat ps) = ceil_to ?k (unat ps) + unat (fm_off fm)"
    by (metis add.commute add.left_commute)
  moreover have "unat ps dvd unat (fm_addr fm)" "unat (fm_addr fm) + ?r = sv b ph"
    using geo(1) page_bounds_dvd(1) [OF dvd, of ph] sp fm by (simp_all add: seg_plan_ok_def floor_to_eq)
  from ceil_to_add [OF this(1), of ?k] this(2)
  have "file_pages_end ps b ph = ceil_to ?k (unat ps) + unat (fm_addr fm)"
    using geo(6) by (simp add: file_pages_end_def ac_simps)
  ultimately show "unat (fm_off fm) + unat (fm_len fm) = ceil_to (unat (p_offset ph) + unat (p_filesz ph)) (unat ps)"
    using geo(2) by simp
qed

locale serving_space = mapping_space +
  fixes tidy :: "'a \<Rightarrow> bool"
    and ceiling :: "'a \<Rightarrow> nat"
    and lowest :: "'a \<Rightarrow> nat"
    and whole :: "'a \<Rightarrow> nat \<Rightarrow> nat \<Rightarrow> bool"
    and backed :: "i32 \<Rightarrow> nat \<Rightarrow> nat \<Rightarrow> bool"
  assumes map_exact_serves:
      "inv s \<Longrightarrow> tidy s \<Longrightarrow> 0 < unat len \<Longrightarrow> unat (vm_page_size vm) dvd unat a \<Longrightarrow>
       unat (vm_page_size vm) dvd unat len \<Longrightarrow> unat a + unat len < 2 ^ 64 \<Longrightarrow>
       (\<And>fd off. src = File fd off \<Longrightarrow> backed fd (unat off) (unat len)) \<Longrightarrow>
       yields (vm_map vm (Exact a) len p src) s
         (\<lambda>_ s'. tidy s' \<and> ceiling s' \<le> max (ceiling s) (unat a + unat len)
            \<and> (p AND PROT_WRITE \<noteq> 0 \<longrightarrow> whole s' (unat a) (unat a + unat len))) (\<lambda>_ _. False)"
    and map_any_serves:
      "inv s \<Longrightarrow> tidy s \<Longrightarrow> 0 < unat len \<Longrightarrow> unat (vm_page_size vm) dvd unat len \<Longrightarrow>
       ceiling s + unat len < 2 ^ 64 \<Longrightarrow>
       yields (vm_map vm Anywhere len p Anon) s
         (\<lambda>got s'. tidy s' \<and> ceiling s' \<le> max (ceiling s) (unat got + unat len)
            \<and> lowest s \<le> unat got \<and> unat got \<le> ceiling s) (\<lambda>_ _. False)"
    and zero_serves:
      "inv s \<Longrightarrow> tidy s \<Longrightarrow> whole s lo hi \<Longrightarrow> lo \<le> unat a \<Longrightarrow> 0 < unat len \<Longrightarrow> unat a + unat len \<le> hi \<Longrightarrow>
       yields (vm_zero vm a len) s (\<lambda>_ s'. tidy s' \<and> ceiling s' = ceiling s) (\<lambda>_ _. False)"
    and protect_serves:
      "inv s \<Longrightarrow> tidy s \<Longrightarrow> 0 < unat len \<Longrightarrow> unat a + unat len < 2 ^ 64 \<Longrightarrow> cells s (unat a) \<noteq> None \<Longrightarrow>
       yields (vm_protect vm a len p) s (\<lambda>_ s'. inv s' \<and> tidy s' \<and> ceiling s' = ceiling s) (\<lambda>_ _. False)"
    and sync_serves:
      "tidy s \<Longrightarrow> yields (vm_icache_sync vm a len) s (\<lambda>_ s'. tidy s' \<and> ceiling s' = ceiling s) (\<lambda>_ _. False)"
begin

text \<open>What holds between the steps of a load that ends below \<open>cap\<close>.\<close>

abbreviation good :: "nat \<Rightarrow> 'a \<Rightarrow> bool" where
  "good cap s \<equiv> inv s \<and> tidy s \<and> ceiling s \<le> cap"

lemma map_piece:
  assumes "good cap s" and "0 < unat len" and "unat (vm_page_size vm) dvd unat a" and "unat (vm_page_size vm) dvd unat len"
    and "unat a + unat len \<le> cap" and "cap < 2 ^ 64" and "fixable (unat a)" and "exactly (unat len) p"
    and "\<And>fd off. src = File fd off \<Longrightarrow> backed fd (unat off) (unat len)"
  shows "yields (vm_map vm (Exact a) len p src) s
    (\<lambda>_ s'. good cap s' \<and> (p AND PROT_WRITE \<noteq> 0 \<longrightarrow> whole s' (unat a) (unat a + unat len))
       \<and> (\<forall>x. cells s x \<noteq> None \<or> unat a \<le> x \<and> x < unat a + unat len \<longrightarrow> cells s' x \<noteq> None)) (\<lambda>_ _. False)"
proof -
  have fits: "unat a + unat len < 2 ^ 64" using assms(5,6) by simp
  have "inv s" "tidy s" using assms(1) by auto
  from yields_and_ends [OF map_exact_serves [OF this assms(2-4) fits assms(9)]
      map_exact_ends [OF this(1) assms(2,7,8), of src]]
  show ?thesis by (rule yields_weaken) (use assms(1,5) in \<open>auto simp: overlay_def\<close>)
qed

lemma fill_segment_serves:
  assumes s: "good cap s" and page: "vm_page_size vm = ps" and pow: "is_power_of_two ps" and i: "i < length (phdrs img)"
    and ok: "load_ok ps (phdrs img ! i)" and dvd: "unat ps dvd unat b" and sp: "seg_plan_ok ps b i (phdrs img ! i) seg"
    and cap: "seg_hi ps (phdrs img ! i) + unat b \<le> cap" "cap < 2 ^ 64"
    and fixed: "room ps (seg_lo ps (phdrs img ! i) + unat b)"
    and data: "\<And>fm. file_map seg = Some fm \<Longrightarrow> backed fd (unat (fm_off fm)) (unat (fm_len fm))"
  shows "yields (fill_mapped_segment vm img fd seg) s (\<lambda>_ s'. good cap s') (\<lambda>_ _. False)"
proof -
  let ?ph = "phdrs img ! i"
  let ?lo = "seg_lo ps ?ph + unat b" and ?mid = "file_pages_end ps b ?ph" and ?hi = "seg_hi ps ?ph + unat b"
  define q where "q = (if needs_write_window seg then prot seg OR PROT_WRITE else prot seg)"
  have bits: "prot seg \<le> 7" "q \<le> 7" using sp prot_of_le by (auto simp: q_def seg_plan_ok_def)
  have q: "q AND PROT_WRITE \<noteq> 0" if "zero_map seg \<noteq> None"
    using sp that write_bit no_write_bit [of ?ph] by (auto simp: q_def seg_plan_ok_def)
  note mid = pages_end_geometry [OF pow ok dvd]
  have fits: "?hi < 2 ^ 64" using cap by simp
  obtain lo hi where range: "seg_range seg = Ok (lo, hi)"
    using seg_range_ok [OF pow ok dvd sp fits] by auto
  let ?held = "\<lambda>s. good cap s \<and> (needs_write_window seg \<longrightarrow> cells s ?lo \<noteq> None)"
  let ?prot = "if needs_write_window seg then
        sbind (slift (seg_range seg)) (\<lambda>(s, e). sbind (slift (psub e s)) (\<lambda>n. vm_protect vm s n (prot seg)))
        else sret ()"
  let ?anon = "case anon_map seg of None \<Rightarrow> sret ()
       | Some a \<Rightarrow> sbind (vm_map vm (Exact (am_addr a)) (am_len a) (prot seg) Anon) (\<lambda>got. sret ())"
  let ?zero = "case zero_map seg of None \<Rightarrow> sret () | Some z \<Rightarrow> vm_zero vm (am_addr z) (am_len z)"
  let ?file = "case file_map seg of None \<Rightarrow> sret ()
       | Some fm \<Rightarrow> sbind (vm_map vm (Exact (fm_addr fm)) (fm_len fm) q (File fd (fm_off fm))) (\<lambda>got. sret ())"
  have protect: "yields ?prot s3 (\<lambda>_. good cap) (\<lambda>_ _. False)" if s3: "?held s3" for s3
  proof (cases "needs_write_window seg")
    case True
    then obtain fm where "file_map seg = Some fm" using sp by (cases "file_map seg") (auto simp: seg_plan_ok_def)
    then have lohi: "unat lo = ?lo" "unat hi = ?hi" and lt: "?lo < ?hi"
      using seg_range_ok [OF pow ok dvd sp fits] range file_geometry(1-3) [OF pow ok dvd sp, of fm] mid
      by (auto split: if_splits)
    then have n: "psub hi lo = (Ok (hi - lo) :: (u64, error) result)" "0 < unat (hi - lo)" "unat lo + unat (hi - lo) = ?hi"
      by (simp_all add: psub_ok unat_sub_ok)
    have "yields (vm_protect vm lo (hi - lo) (prot seg)) s3 (\<lambda>_. good cap) (\<lambda>_ _. False)"
      by (rule yields_weaken [OF protect_serves]) (use s3 n lohi fits True in auto)
    with True range n(1) show ?thesis by (simp add: wp)
  qed (use s3 in \<open>simp add: wp\<close>)
  have anon: "yields ?anon s2 (\<lambda>_. ?held) (\<lambda>_ _. False)" if s2: "?held s2" for s2
  proof (cases "anon_map seg")
    case (Some a)
    note geo = anon_geometry(2-4) [OF sp dvd Some]
    have "yields (vm_map vm (Exact (am_addr a)) (am_len a) (prot seg) Anon) s2 (\<lambda>_. ?held) (\<lambda>_ _. False)"
      by (rule yields_weaken [OF map_piece [where cap = cap]])
        (use s2 geo page_bounds_dvd(2) [OF dvd, of ?ph] anon_len_dvd [OF dvd sp Some] cap fixed bits mid page in auto)
    then show ?thesis by (simp add: Some wp)
  qed (use s2 in \<open>simp add: wp\<close>)
  have zero: "yields ?zero s1 (\<lambda>_. ?held) (\<lambda>_ _. False)" if s1: "?held s1" "zero_map seg \<noteq> None \<longrightarrow> whole s1 ?lo ?mid" for s1
  proof (cases "zero_map seg")
    case (Some z)
    then have z: "p_filesz ?ph \<noteq> 0" "0 < unat (am_len z)" using sp by (auto simp: seg_plan_ok_def)
    note geo = zero_geometry(2,3) [OF sp z(1) Some]
    obtain fm where fm: "file_map seg = Some fm" using sp z(1) by (cases "file_map seg") (auto simp: seg_plan_ok_def)
    have "?lo \<le> unat (am_addr z)" using geo(1) file_geometry(7) [OF pow ok dvd sp fm] by simp
    from zero_serves [OF _ _ _ this z(2), of s1 ?mid] s1 geo(2) Some
    have "yields (vm_zero vm (am_addr z) (am_len z)) s1 (\<lambda>_ s'. tidy s' \<and> ceiling s' = ceiling s1) (\<lambda>_ _. False)" by simp
    from yields_and_ends [OF this zero_ends [of s1]] s1 geo mid fits
    have "yields (vm_zero vm (am_addr z) (am_len z)) s1 (\<lambda>_. ?held) (\<lambda>_ _. False)"
      by (auto elim!: yields_weaken simp: overlay_def)
    then show ?thesis by (simp add: Some)
  qed (use s1 in \<open>simp add: wp\<close>)
  have mapped: "yields ?file s
      (\<lambda>_ s1. ?held s1 \<and> (zero_map seg \<noteq> None \<longrightarrow> whole s1 ?lo ?mid)) (\<lambda>_ _. False)"
  proof (cases "file_map seg")
    case None
    then have "zero_map seg = None" "\<not> needs_write_window seg" using sp by (auto simp: seg_plan_ok_def split: option.splits)
    with None s show ?thesis by (simp add: wp)
  next
    case (Some fm)
    note geo = file_geometry [OF pow ok dvd sp Some]
    have "yields (vm_map vm (Exact (fm_addr fm)) (fm_len fm) q (File fd (fm_off fm))) s
        (\<lambda>_ s1. ?held s1 \<and> (zero_map seg \<noteq> None \<longrightarrow> whole s1 ?lo ?mid)) (\<lambda>_ _. False)"
      by (rule yields_weaken [OF map_piece [where cap = cap]])
        (use s geo(1-3) page_bounds_dvd(1) [OF dvd, of ?ph] file_len_dvd [OF dvd sp Some] cap fixed bits mid page q data [OF Some] in auto)
    then show ?thesis by (simp add: Some wp)
  qed
  let ?none = "\<lambda>_ _. False"
  have tail: "yields ?anon s2 (\<lambda>_ s3. yields ?prot s3 (\<lambda>_. good cap) ?none) ?none" if "?held s2" for s2
    using anon [OF that] by (rule yields_weaken) (blast intro: protect)+
  have step: "yields ?file s (\<lambda>_ s1. yields ?zero s1 (\<lambda>_ s2. yields ?anon s2 (\<lambda>_ s3. yields ?prot s3 (\<lambda>_. good cap) ?none) ?none) ?none) ?none"
  proof (rule yields_weaken [OF mapped])
    fix s1 assume "?held s1 \<and> (zero_map seg \<noteq> None \<longrightarrow> whole s1 ?lo ?mid)"
    then show "yields ?zero s1 (\<lambda>_ s2. yields ?anon s2 (\<lambda>_ s3. yields ?prot s3 (\<lambda>_. good cap) ?none) ?none) ?none"
      by (intro yields_weaken [OF zero]) (blast intro: tail)+
  qed
  have "idx seg = i" using sp by (simp add: seg_plan_ok_def)
  then show ?thesis
    unfolding fill_mapped_segment_def q_def [symmetric] wp using step i range by (simp add: index_at_outcome)
qed

lemma fill_segments_serves:
  assumes "vm_page_size vm = ps" and "is_power_of_two ps" and "unat ps dvd unat b"
    and "seg_plans_ok ps b (phdrs img) is segs"
    and "\<forall>i\<in>set is. i < length (phdrs img) \<and> load_ok ps (phdrs img ! i) \<and> lo \<le> seg_lo ps (phdrs img ! i) + unat b
      \<and> seg_hi ps (phdrs img ! i) + unat b \<le> cap"
    and "cap < 2 ^ 64" and "room ps lo" and "good cap s"
    and "\<forall>seg\<in>set segs. \<forall>fm. file_map seg = Some fm \<longrightarrow> backed fd (unat (fm_off fm)) (unat (fm_len fm))"
  shows "yields (sfor (fill_mapped_segment vm img fd) segs) s (\<lambda>_ s'. good cap s') (\<lambda>_ _. False)"
proof (rule yields_for [where I = "good cap"])
  fix seg s' assume seg: "seg \<in> set segs" and s': "good cap s'"
  from seg obtain i where i: "i \<in> set is" "seg_plan_ok ps b i (phdrs img ! i) seg"
    using planned_from [OF assms(4)] by blast
  show "yields (fill_mapped_segment vm img fd seg) s' (\<lambda>_. good cap) (\<lambda>_ _. False)"
    by (rule fill_segment_serves [OF s' assms(1,2) _ _ assms(3) i(2) _ assms(6)])
      (use i(1) seg assms(5,7,9) in auto)
qed (rule assms(8))

lemma sync_zeroed_serves:
  assumes "good cap s" and "idx seg < length (phdrs img)"
  shows "yields (sync_zeroed vm img seg) s (\<lambda>_ s'. good cap s') (\<lambda>_ _. False)"
proof -
  have "yields (vm_icache_sync vm a len) s (\<lambda>_. good cap) (\<lambda>_ _. False)" for a len
    by (rule yields_weaken [OF yields_and_ends [OF sync_serves sync_ends]]) (use assms(1) in auto)
  with assms show ?thesis
    by (auto simp: sync_zeroed_def wp index_at_outcome split: option.split)
qed

text \<open>
  Position-independent images. There must be room for the reservation, the image must not start
  above where mappings are placed, its entry must not leave the address space, and the file must
  have the bytes of its segments.
\<close>

lemma load_mapped_serves:
  assumes wf: "wf_image ps img" and page: "vm_page_size vm = ps" and pie: "e_type (ehdr img) = ET_DYN"
    and s: "inv s" "tidy s" and need: "reservation_len img ps = Ok need" "0 < unat need"
    and above: "img_lo ps img \<le> lowest s" and entry: "ceiling s + unat need + unat (e_entry (ehdr img)) < 2 ^ 64"
    and mem: "heap AllocSegments (length (loads img))"
    and data: "\<And>i off len. i \<in> set (loads img) \<Longrightarrow> off \<le> unat (p_offset (phdrs img ! i)) \<Longrightarrow>
      off + len \<le> ceil_to (unat (p_offset (phdrs img ! i)) + unat (p_filesz (phdrs img ! i))) (unat ps) \<Longrightarrow> backed fd off len"
  shows "yields (load_mapped vm heap img fd ps) s
    (\<lambda>l s'. inv s' \<and> tidy s' \<and> ceiling s' \<le> ceiling s + unat need \<and> reserve_len (ld_plan l) = need) (\<lambda>_ _. False)"
proof -
  let ?cap = "ceiling s + unat need"
  obtain lo hi al where span: "va_span img ps = Ok (lo, hi)" and al: "seg_align img ps = Ok al" "unat ps dvd unat al" "is_power_of_two al"
      "unat ps \<le> unat al" and len: "unat need = img_hi ps img - img_lo ps img + (unat al - unat ps)"
    using reservation_len_Ok [OF wf need(1)] by metis
  have dvd: "unat ps dvd unat need" unfolding len using img_bounds_dvd [of ps img] al(2) by (simp add: dvd_diff_nat)
  have "ends (vm_map vm Anywhere need PROT_NONE Anon) s (\<lambda>got s1. inv s1 \<and> unat ps dvd unat got \<and> room ps (unat got)) (\<lambda>_. True)"
    using map_free [OF s(1) need(2) _ disjI1 [OF refl], of PROT_NONE Anon] exact_pages dvd page
    by (intro endsI) (auto simp: PROT_NONE_def)
  from yields_and_ends [OF map_any_serves [OF s need(2), of PROT_NONE] this] dvd page entry
  have reserve: "yields (vm_map vm Anywhere need PROT_NONE Anon) s (\<lambda>got s1. good ?cap s1 \<and> lowest s \<le> unat got
      \<and> unat got \<le> ceiling s \<and> unat ps dvd unat got \<and> room ps (unat got)) (\<lambda>_ _. False)"
    by (auto elim!: yields_weaken)
  have rest: "yields (slift (plan heap img ps (At got))) s1 (\<lambda>p s1. yields (fill_mapped vm img fd p) s1 (\<lambda>_. good ?cap) (\<lambda>_ _. False)
      \<and> reserve_len p = need) (\<lambda>_ _. False)"
    if s1: "good ?cap s1" "lowest s \<le> unat got" "unat got \<le> ceiling s" "unat ps dvd unat got" "room ps (unat got)" for got s1
  proof -
    have "ceil_to (unat got) (unat al) \<le> unat got + (unat al - unat ps)"
      using power_of_two_pos [OF wf_imageD(1) [OF wf]] power_of_two_pos [OF al(3)] al(2) s1(4) by (intro ceil_to_slack)
    moreover have "unat got \<le> ceil_to (unat got) (unat al)" by (rule ceil_to_ge [OF power_of_two_pos [OF al(3)]])
    ultimately obtain p where p: "plan heap img ps (At got) = Ok p"
      using plan_At_outcome [OF wf need(1) al(1) s1(4), of heap] mem above s1(2,3) entry len by force
    note ok = plan_Ok [OF wf p] and res = reserved_At [OF wf need(1) p]
    note cov = reservation_covers [OF wf ok [THEN conjunct1] ok [THEN conjunct2]]
    have plans: "unat ps dvd unat (bias p)" "seg_plans_ok ps (bias p) (phdrs img) (loads img) (segments p)"
      using ok by (simp_all add: plan_ok_def)
    have served: "\<forall>seg\<in>set (segments p). \<forall>fm. file_map seg = Some fm \<longrightarrow> backed fd (unat (fm_off fm)) (unat (fm_len fm))"
    proof (intro ballI allI impI)
      fix seg fm assume "seg \<in> set (segments p)" and fm: "file_map seg = Some fm"
      with planned_from [OF plans(2)] obtain i where i: "i \<in> set (loads img)" "seg_plan_ok ps (bias p) i (phdrs img ! i) seg" by blast
      from file_map_range [OF wf_imageD(1) [OF wf] wf_imageD(4) [OF wf i(1)] plans(1) i(2) fm] data [OF i(1)]
      show "backed fd (unat (fm_off fm)) (unat (fm_len fm))" by simp
    qed
    have segs: "\<forall>i\<in>set (loads img). i < length (phdrs img) \<and> load_ok ps (phdrs img ! i)
        \<and> unat got \<le> seg_lo ps (phdrs img ! i) + unat (bias p) \<and> seg_hi ps (phdrs img ! i) + unat (bias p) \<le> ?cap"
      using wf_imageD(3,4) [OF wf] seg_in_span [OF wf ok [THEN conjunct1]] cov s1(3,4) res by fastforce
    have idx: "idx seg < length (phdrs img)" if "seg \<in> set (segments p)" for seg
      using planned_from [OF plans(2) that] wf_imageD(3) [OF wf] by (auto simp: seg_plan_ok_def)
    have "?cap < 2 ^ 64" using entry by simp
    note fill = fill_segments_serves [OF page wf_imageD(1) [OF wf] plans segs this s1(5,1) served]
    have "yields (fill_mapped vm img fd p) s1 (\<lambda>_. good ?cap) (\<lambda>_ _. False)"
      unfolding fill_mapped_def wp
      by (rule yields_weaken [OF fill]) (blast intro: yields_for sync_zeroed_serves idx)+
    with p res show ?thesis by (simp add: wp)
  qed
  from reserve obtain got s1 where got: "vm_map vm Anywhere need PROT_NONE Anon s = (Ok got, s1)"
      "good ?cap s1" "lowest s \<le> unat got" "unat got \<le> ceiling s" "unat ps dvd unat got" "room ps (unat got)"
    by (rule yieldsE) auto
  from rest [OF got(2-6)] obtain p where p: "plan heap img ps (At got) = Ok p" "reserve_len p = need"
      "yields (fill_mapped vm img fd p) s1 (\<lambda>_. good ?cap) (\<lambda>_ _. False)"
    by (cases "plan heap img ps (At got)") (auto simp: wp)
  from p(3) obtain s' where "fill_mapped vm img fd p s1 = (Ok (), s')" "good ?cap s'"
    by (rule yieldsE) auto
  with got(1) p(1,2) span need(1) pie show ?thesis
    by (simp add: yields_def load_mapped_def sbind_def son_err_def Let_def)
qed

end

end
