(* ===== verification/Fake_Serving.thy ===== *)
theory Fake_Serving
  imports Serving Fake_Vm_Facts
begin

text \<open>
  The address space of the test suite is a \<open>serving_space\<close>. Its states are tidy when every region and
  the base of the allocator are page-aligned and no region reaches the end of the address space,
  also in the file it shows; then carving never panics.
\<close>

section \<open>Tidy regions\<close>

definition region_tidy :: "nat \<Rightarrow> u64 \<times> Region \<Rightarrow> bool" where
  "region_tidy pg p \<longleftrightarrow> pg dvd unat (fst p) \<and> pg dvd unat (r_len (snd p)) \<and> region_end p < 2 ^ 64
     \<and> (\<forall>fd fo. r_file (snd p) = Some (fd, fo) \<longrightarrow> unat fo + unat (r_len (snd p)) < 2 ^ 64)"

abbreviation regions_tidy :: "nat \<Rightarrow> regions \<Rightarrow> bool" where
  "regions_tidy pg m \<equiv> \<forall>p\<in>set m. region_tidy pg p"

lemma rfilter_serves: "\<forall>x\<in>set xs. \<exists>b. f x = Ok b \<Longrightarrow> \<exists>ys. rfilter f xs = Ok ys"
  by (induction xs) auto

lemma region_end_word:
  assumes "region_tidy pg p"
  shows "padd (fst p) (r_len (snd p)) = (Ok (fst p + r_len (snd p)) :: (u64, error) result)" and "unat (fst p + r_len (snd p)) = region_end p"
  using assms by (simp_all add: region_tidy_def padd_ok unat_add_ok)

lemma region_hits_serves:
  assumes "regions_tidy pg m"
  shows "\<exists>hs. region_hits a b m = Ok hs"
proof -
  have "\<forall>p\<in>set (bt_below b m). \<exists>c. rbind (padd (fst p) (r_len (snd p))) (\<lambda>e. Ok (a < e)) = (Ok c :: (bool, error) result)"
    using assms by (auto simp: bt_below_def region_end_word [where pg = pg])
  from rfilter_serves [OF this] show ?thesis by (auto simp: region_hits_def)
qed

section \<open>Carving\<close>

lemma punch_one_serves:
  assumes ok: "regions_ok m" and tidy: "regions_tidy pg m" and r: "(s, r) \<in> set m"
    and hit: "s < e" "unat a < region_end (s, r)" and dvd: "pg dvd unat a" "pg dvd unat e"
  shows "\<exists>m'. punch_one a e s m = Ok m' \<and> regions_tidy pg m'"
proof -
  have rok: "region_ok (s, r)" and sorted: "sorted_wrt (<) (map fst m)" using ok r by (auto simp: regions_ok_def)
  have rt: "region_tidy pg (s, r)" using tidy r by blast
  have found: "map_of m s = Some r" using map_of_region [OF ok] r by simp
  have rem: "regions_tidy pg (bt_remove s m)" "sorted_wrt (<) (map fst (bt_remove s m))"
    using tidy bt_remove_ok(1) [OF ok r] by (auto simp: bt_remove_def regions_ok_def)
  have ins: "regions_tidy pg (bt_insert k v m1)" if "regions_tidy pg m1" "region_tidy pg (k, v)" "sorted_wrt (<) (map fst m1)" for k v m1
    using that by (auto simp: bt_insert_set)
  obtain m1 where left: "(if s < a then
              rbind (psub a s) (\<lambda>n.
              rbind (slice (r_data r) 0 (unat n)) (\<lambda>d.
              Ok (bt_insert s \<lparr> r_len = n, r_prot = r_prot r, r_data = d, r_file = r_file r \<rparr>
                    (bt_remove s m))))
            else Ok (bt_remove s m)) = (Ok m1 :: (regions, error) result)" "regions_tidy pg m1" "sorted_wrt (<) (map fst m1)"
  proof (cases "s < a")
    case True
    then have n: "psub a s = (Ok (a - s) :: (u64, error) result)" "unat (a - s) = unat a - unat s" "unat s < unat a"
      by (simp_all add: psub_ok unat_sub_ok word_less_nat_alt)
    let ?pc = "\<lparr> r_len = a - s, r_prot = r_prot r, r_data = take (unat (a - s)) (r_data r), r_file = r_file r \<rparr>"
    have "region_tidy pg (s, ?pc)" using rt n hit(2) dvd(1) by (auto simp: region_tidy_def dvd_diff_nat)
    note ins [OF rem(1) this rem(2)]
    moreover have "slice (r_data r) 0 (unat (a - s)) = (Ok (take (unat (a - s)) (r_data r)) :: (bytes, error) result)"
      using n hit(2) rok by (simp add: slice_def region_ok_def)
    ultimately show thesis using True n(1) bt_insert_sorted [OF rem(2)] by (intro that [of "bt_insert s ?pc (bt_remove s m)"]) simp_all
  qed (use that rem in simp)
  let ?e = "s + r_len r"
  note re = region_end_word [OF rt, unfolded fst_conv snd_conv]
  have "\<exists>m'. (if e < ?e then
           rbind (psub e s) (\<lambda>off.
           rbind (psub ?e e) (\<lambda>n.
           if length (r_data r) < unat off then Panic else
           rbind
             (case r_file r of
                None \<Rightarrow> Ok None
              | Some (fd, fo) \<Rightarrow> rbind (padd fo off) (\<lambda>fo'. Ok (Some (fd, fo')))) (\<lambda>fl.
           Ok (bt_insert e \<lparr> r_len = n, r_prot = r_prot r, r_data = drop (unat off) (r_data r),
                 r_file = fl \<rparr> m1))))
         else Ok m1) = (Ok m' :: (regions, error) result) \<and> regions_tidy pg m'"
  proof (cases "e < ?e")
    case True
    then have n: "psub e s = (Ok (e - s) :: (u64, error) result)" "psub ?e e = (Ok (?e - e) :: (u64, error) result)"
        "unat (e - s) = unat e - unat s" "unat (?e - e) = region_end (s, r) - unat e" "unat s < unat e" "unat e < region_end (s, r)"
      using hit(1) re(2) by (simp_all add: psub_ok unat_sub_ok word_less_nat_alt)
    then have data: "\<not> length (r_data r) < unat (e - s)" using rok by (simp add: region_ok_def)
    obtain fl where fl: "(case r_file r of None \<Rightarrow> Ok None
        | Some (fd, fo) \<Rightarrow> rbind (padd fo (e - s)) (\<lambda>fo'. Ok (Some (fd, fo')))) = (Ok fl :: ((i32 \<times> u64) option, error) result)"
        "\<forall>fd fo. fl = Some (fd, fo) \<longrightarrow> unat fo + unat (?e - e) < 2 ^ 64"
    proof (cases "r_file r")
      case (Some f)
      moreover obtain fd fo where "f = (fd, fo)" by (cases f)
      moreover have "unat fo + unat (r_len r) < 2 ^ 64" using rt calculation by (auto simp: region_tidy_def)
      then have "padd fo (e - s) = (Ok (fo + (e - s)) :: (u64, error) result)" "unat (fo + (e - s)) = unat fo + unat (e - s)"
        using n by (simp_all add: padd_ok unat_add_ok)
      ultimately show thesis using that [of "Some (fd, fo + (e - s))"] n rt by (auto simp: region_tidy_def)
    qed (use that [of None] in simp)
    let ?pc = "\<lparr> r_len = ?e - e, r_prot = r_prot r, r_data = drop (unat (e - s)) (r_data r), r_file = fl \<rparr>"
    have "pg dvd unat (?e - e)" unfolding n(4) using rt dvd(2) by (auto simp: region_tidy_def dvd_diff_nat)
    then have "region_tidy pg (e, ?pc)" using rt n fl(2) dvd(2) by (auto simp: region_tidy_def)
    with ins [OF left(2) this left(3)] True n(1,2) data fl(1) show ?thesis by simp
  qed (use left in simp)
  with left(1) found re(1) show ?thesis by (simp add: punch_one_def)
qed

lemma punch_all_serves:
  assumes "regions_ok m" and "regions_tidy pg m" and "a \<le> e" and "distinct ss" and "pg dvd unat a" "pg dvd unat e"
    and "\<forall>s\<in>set ss. s < e \<and> (\<exists>r. (s, r) \<in> set m \<and> unat a < region_end (s, r))"
  shows "\<exists>m'. punch_all a e ss m = Ok m' \<and> regions_tidy pg m'"
  using assms
proof (induction ss arbitrary: m)
  case (Cons s ss)
  then obtain r where r: "(s, r) \<in> set m" "s < e" "unat a < region_end (s, r)" by auto
  obtain m1 where m1: "punch_one a e s m = Ok m1" "regions_tidy pg m1"
    using punch_one_serves [OF Cons.prems(1,2) r Cons.prems(5,6)] by blast
  note one = punch_one_Ok [OF Cons.prems(1) r(1) m1(1) Cons.prems(3) r(2,3)]
  have "\<forall>t\<in>set ss. t < e \<and> (\<exists>r. (t, r) \<in> set m1 \<and> unat a < region_end (t, r))"
    using Cons.prems(4,7) one(2) by fastforce
  with Cons.IH [OF one(1) m1(2) Cons.prems(3)] Cons.prems(4-6) m1(1) show ?case by auto
qed simp

lemma punch_serves:
  assumes ok: "regions_ok m" and tidy: "regions_tidy pg m" and dvd: "pg dvd unat a" "pg dvd unat len"
    and fits: "unat a + unat len < 2 ^ 64"
  shows "\<exists>m'. punch a len m = Ok m' \<and> regions_tidy pg m'"
proof -
  let ?e = "a + len"
  have e: "padd a len = (Ok ?e :: (u64, error) result)" "unat ?e = unat a + unat len"
    using fits by (simp_all add: padd_ok unat_add_ok)
  obtain hs where hs: "region_hits a ?e m = Ok hs" using region_hits_serves [OF tidy] by blast
  have hits: "hs = map fst (filter (\<lambda>p. fst p < ?e \<and> unat a < region_end p) m)" by (rule region_hits_Ok [OF hs])
  have "distinct (map fst m)" using ok by (simp add: regions_ok_def strict_sorted_iff)
  then have "distinct hs" unfolding hits by (rule distinct_map_filter)
  moreover have "\<forall>s\<in>set hs. s < ?e \<and> (\<exists>r. (s, r) \<in> set m \<and> unat a < region_end (s, r))" unfolding hits by auto
  moreover have "a \<le> ?e" "pg dvd unat ?e" using e(2) dvd by (simp_all add: word_le_nat_alt)
  ultimately have "\<exists>m'. punch_all a ?e hs m = Ok m' \<and> regions_tidy pg m'"
    using punch_all_serves [OF ok tidy] dvd(1) by blast
  with e(1) hs show ?thesis by (simp add: punch_def)
qed

section \<open>Placing\<close>

lemma first_fit_serves:
  assumes "regions_tidy pg m" and "pg dvd unat cur" and "unat cur \<le> hi" and "\<forall>p\<in>set m. region_end p \<le> hi"
    and "hi + unat len < 2 ^ 64"
  shows "\<exists>a. first_fit_from len m cur = Ok a \<and> pg dvd unat a \<and> unat a \<le> hi"
  using assms
proof (induction m arbitrary: cur)
  case (Cons p m)
  then have p: "region_tidy pg p" by simp
  note e = region_end_word [OF p]
  have "pg dvd unat (fst p + r_len (snd p))" unfolding e(2) using p by (simp add: region_tidy_def)
  with Cons.IH [of cur] Cons.IH [of "fst p + r_len (snd p)"] Cons.prems e
  show ?case by (auto simp: padd_ok)
qed simp

section \<open>Finding a region\<close>

lemma sorted_last: "sorted_wrt P xs \<Longrightarrow> x \<in> set xs \<Longrightarrow> x = last xs \<or> P x (last xs)"
  by (induction xs) auto

lemma bt_last_upto_holder:
  assumes ok: "regions_ok m" and p: "p \<in> set m" and x: "holds_addr (unat a) p"
  shows "bt_last_upto a m = Some p"
proof -
  let ?q = "filter (\<lambda>p. fst p \<le> a) m"
  have mem: "p \<in> set ?q" using p x by (simp add: holds_addr_def word_le_nat_alt)
  then have ne: "?q \<noteq> []" by (metis empty_iff list.set(1))
  then have l: "last ?q \<in> set m" "fst (last ?q) \<le> a" using last_in_set [OF ne] by auto
  have "sorted_wrt (\<lambda>p q. fst p < fst q) ?q"
    using ok by (simp add: regions_ok_def sorted_wrt_map sorted_wrt_filter)
  then have "p = last ?q \<or> fst p < fst (last ?q)"
    by (rule sorted_last) (rule mem)
  moreover have "\<not> fst p < fst (last ?q)"
  proof
    assume "fst p < fst (last ?q)"
    with ok p l(1) have "region_end p \<le> unat (fst (last ?q))" unfolding regions_ok_def by blast
    with x l(2) show False by (simp add: holds_addr_def word_le_nat_alt)
  qed
  ultimately show ?thesis using ne by (auto simp: bt_last_upto_def Let_def)
qed

lemma store_at_serves:
  assumes ok: "regions_ok m" and tidy: "regions_tidy pg m" and p: "p \<in> set m" "r_prot (snd p) AND PROT_WRITE \<noteq> 0"
    and x: "unat (fst p) \<le> unat a" "0 < unat n" "unat a + unat n \<le> region_end p" "length bs = unat n"
  shows "\<exists>m'. store_at m a n bs = Ok m'"
proof -
  have t: "region_tidy pg p" "region_ok p" using tidy p(1) ok by (auto simp: regions_ok_def)
  have "bt_last_upto a m = Some p" using x by (intro bt_last_upto_holder [OF ok p(1)]) (simp add: holds_addr_def)
  moreover have "padd a n = (Ok (a + n) :: (u64, error) result)" "a + n \<le> fst p + r_len (snd p)"
    using x t(1) region_end_word(2) [OF t(1)] by (simp_all add: region_tidy_def padd_ok unat_add_ok word_le_nat_alt)
  moreover have "psub a (fst p) = (Ok (a - fst p) :: (u64, error) result)" "unat (a - fst p) = unat a - unat (fst p)"
    using x(1) by (simp_all add: psub_ok unat_sub_ok word_le_nat_alt)
  moreover have "length (r_data (snd p)) = unat (r_len (snd p))" using t(2) by (simp add: region_ok_def)
  ultimately show ?thesis
    using p(2) x region_end_word(1) [OF t(1)] by (simp add: store_at_def split_beta)
qed

section \<open>The contract\<close>

definition fake_tidy :: "FakeVm \<Rightarrow> State \<Rightarrow> bool" where
  "fake_tidy fv st \<longleftrightarrow> unat (fv_page fv) dvd unat (st_base st) \<and> regions_tidy (unat (fv_page fv)) (st_regions st)"

definition fake_ceiling :: "State \<Rightarrow> nat" where
  "fake_ceiling st = Max (insert (unat (st_base st)) (set (map region_end (st_regions st))))"

definition fake_whole :: "State \<Rightarrow> nat \<Rightarrow> nat \<Rightarrow> bool" where
  "fake_whole st lo hi \<longleftrightarrow> (\<exists>p\<in>set (st_regions st). r_prot (snd p) AND PROT_WRITE \<noteq> 0 \<and> unat (fst p) \<le> lo \<and> hi \<le> region_end p)"

definition file_backed :: "files \<Rightarrow> i32 \<Rightarrow> nat \<Rightarrow> nat \<Rightarrow> bool" where
  "file_backed fls fd off len \<longleftrightarrow> (\<exists>body. fls fd = Some body \<and> off \<le> length body) \<and> off + len < 2 ^ 64"

lemma fake_ceiling_le: "fake_ceiling st \<le> n \<longleftrightarrow> unat (st_base st) \<le> n \<and> (\<forall>p\<in>set (st_regions st). region_end p \<le> n)"
  by (simp add: fake_ceiling_def)

lemma map_data_serves:
  assumes "\<And>fd off. src = File fd off \<Longrightarrow> file_backed fls fd (unat off) (unat len)"
  obtains d where "map_data fls src len = Ok d"
proof (cases src)
  case (File fd off)
  with assms obtain body where "fls fd = Some body" "unat off \<le> length body" by (auto simp: file_backed_def)
  moreover from this(2) have "unat off + min (unat len) (length body - unat off) \<le> length body" by simp
  ultimately show thesis using File that by (simp add: map_data_def slice_def Let_def)
qed (use that in \<open>simp add: map_data_def\<close>)

text \<open>A mapping placed in regions that are left after carving.\<close>

lemma placed_tidy:
  assumes "regions_ok m" and "regions_tidy pg m" and "pg dvd unat a" and "pg dvd unat len" and "unat a + unat len < 2 ^ 64"
    and "\<And>fd off. src = File fd off \<Longrightarrow> file_backed fls fd (unat off) (unat len)"
  shows "regions_tidy pg (bt_insert a \<lparr> r_len = len, r_prot = p, r_data = d, r_file = map_file src \<rparr> m)"
proof -
  have "region_tidy pg (a, \<lparr> r_len = len, r_prot = p, r_data = d, r_file = map_file src \<rparr>)"
    using assms(3-6) by (cases src) (auto simp: region_tidy_def map_file_def file_backed_def)
  with assms(1,2) show ?thesis by (auto simp: bt_insert_set regions_ok_def)
qed

lemma fake_map_serves:
  assumes "fake_inv st" and "fake_tidy fv st" and "choose_place st at len = Ok (a, m)" and "regions_tidy (unat (fv_page fv)) m"
    and "regions_ok m" and "carved_from (st_regions st) m" and "0 < unat (fv_page fv)"
    and dvd: "unat (fv_page fv) dvd unat a" "unat (fv_page fv) dvd unat len" and fits: "unat a + unat len < 2 ^ 64"
    and src: "\<And>fd off. src = File fd off \<Longrightarrow> file_backed fls fd (unat off) (unat len)"
  shows "\<exists>st'. fake_map fv fls at len p src st = (Ok a, st') \<and> fake_tidy fv st'
    \<and> fake_ceiling st' \<le> max (fake_ceiling st) (unat a + unat len)
    \<and> (p AND PROT_WRITE \<noteq> 0 \<longrightarrow> fake_whole st' (unat a) (unat a + unat len))"
proof -
  obtain d where d: "map_data fls src len = Ok d" using map_data_serves [OF src] by metis
  let ?r = "\<lparr> r_len = len, r_prot = p, r_data = d, r_file = map_file src \<rparr>"
  let ?st = "push_op (OpMap a len p) (st\<lparr> st_regions := bt_insert a ?r m \<rparr>)"
  have "fv_page fv \<noteq> 0" "len mod fv_page fv = 0" "a mod fv_page fv = 0"
    using assms(7) dvd by (auto simp: unat_eqI unat_mod dvd_eq_mod_eq_0)
  with assms(3) d have run: "fake_map fv fls at len p src st = (Ok a, ?st)" by (simp add: fake_map_def)
  have set: "set (bt_insert a ?r m) \<subseteq> insert (a, ?r) (set m)" "(a, ?r) \<in> set (bt_insert a ?r m)"
    using assms(5) by (auto simp: bt_insert_set regions_ok_def)
  have "fake_tidy fv ?st"
    using placed_tidy [OF assms(5,4) dvd fits src] assms(2) by (simp add: fake_tidy_def push_op_def)
  moreover have "region_end q \<le> fake_ceiling st" if "q \<in> set m" for q
    using that assms(6) fake_ceiling_le [of st "fake_ceiling st"] by (fastforce simp: carved_from_def)
  then have "fake_ceiling ?st \<le> max (fake_ceiling st) (unat a + unat len)"
    unfolding fake_ceiling_le using set(1) fake_ceiling_le [of st "fake_ceiling st"] by (auto simp: push_op_def le_max_iff_disj)
  moreover have "fake_whole ?st (unat a) (unat a + unat len)" if "p AND PROT_WRITE \<noteq> 0"
    using set(2) that by (auto simp: fake_whole_def push_op_def intro!: bexI [of _ "(a, ?r)"])
  ultimately show ?thesis using run by blast
qed

lemma fake_store_keeps:
  assumes "store_at (st_regions st) a n bs = Ok m" and "fake_tidy fv st" and "st_regions st' = m" and "st_base st' = st_base st"
  shows "fake_tidy fv st'" and "fake_ceiling st' = fake_ceiling st"
proof -
  let ?t = "\<lambda>p. (fst p, r_len (snd p), r_file (snd p))"
  have "map ?t m = map ?t (st_regions st)"
    using assms(1) by (auto simp: store_at_def outcome_simps bt_update_def split: option.splits if_splits)
  then have same: "?t ` set m = ?t ` set (st_regions st)" unfolding set_map [symmetric] by (rule arg_cong)
  have "region_tidy pg q" if tidy: "regions_tidy pg (st_regions st)" and "q \<in> set m" for pg q
  proof -
    from that(2) have "?t q \<in> ?t ` set (st_regions st)" unfolding same [symmetric] by (rule imageI)
    then obtain p where "p \<in> set (st_regions st)" "?t q = ?t p" by (rule imageE)
    with tidy show ?thesis by (auto simp: region_tidy_def)
  qed
  with assms(2-4) show "fake_tidy fv st'" by (simp add: fake_tidy_def)
  have "map region_end m = map region_end (st_regions st)"
    using assms(1) by (auto simp: store_at_def outcome_simps bt_update_def split: option.splits if_splits)
  with assms(3,4) show "fake_ceiling st' = fake_ceiling st" by (simp add: fake_ceiling_def del: set_map)
qed

lemma fake_protect_serves:
  assumes "fake_inv st" and "fake_tidy fv st" and "0 < unat len" and "unat a + unat len < 2 ^ 64" and "fake_cells st (unat a) \<noteq> None"
  shows "\<exists>st'. fake_protect a len p st = (Ok (), st') \<and> fake_inv st' \<and> fake_tidy fv st' \<and> fake_ceiling st' = fake_ceiling st"
proof -
  let ?m = "st_regions st" and ?e = "a + len"
  have ok: "regions_ok ?m" and tidy: "regions_tidy (unat (fv_page fv)) ?m" using assms(1,2) by (simp_all add: fake_inv_def fake_tidy_def)
  have e: "padd a len = (Ok ?e :: (u64, error) result)" "unat ?e = unat a + unat len"
    using assms(4) by (simp_all add: padd_ok unat_add_ok)
  obtain hs where hs: "region_hits a ?e ?m = Ok hs" using region_hits_serves [OF tidy] by blast
  obtain q where "q \<in> set ?m" "holds_addr (unat a) q"
    using assms(5) by (auto simp: fake_cells_def region_cells_None)
  then have "fst q \<in> set hs"
    unfolding region_hits_Ok [OF hs] set_map_filter_iff using e(2) assms(3) by (auto simp: holds_addr_def word_less_nat_alt)
  then have ne: "hs \<noteq> []" by auto
  define m where "m = fold (\<lambda>s. bt_update s (\<lambda>r. r\<lparr> r_prot := p \<rparr>)) hs ?m"
  let ?st = "push_op (OpProtect a len p) (st\<lparr> st_regions := m \<rparr>)"
  have "map region_end m = map region_end ?m" "regions_tidy (unat (fv_page fv)) m"
    using tidy by (auto simp: m_def fold_protect region_tidy_def)
  then have "fake_ceiling ?st = fake_ceiling st" "fake_tidy fv ?st"
    using assms(2) by (simp_all add: fake_ceiling_def fake_tidy_def push_op_def del: set_map)
  moreover have "fake_inv ?st" using protect_regions(1) [OF ok] by (simp add: fake_inv_def m_def)
  moreover have "fake_protect a len p st = (Ok (), ?st)" using e(1) hs ne by (simp add: fake_protect_def m_def)
  ultimately show ?thesis by blast
qed

lemma yields_intro: "(\<exists>x s'. m s = (Ok x, s') \<and> Q x s') \<Longrightarrow> yields m s Q E"
  by (auto simp: yields_def)

interpretation fake_serves: serving_space "fake_vm fv fls" fake_inv fake_cells fake_cut "file_byte fls" "\<lambda>_. True" "\<lambda>_ _. True"
    "\<lambda>st. fake_tidy fv st \<and> 0 < unat (fv_page fv)" fake_ceiling "\<lambda>st. unat (st_base st)" fake_whole "file_backed fls"
  for fv fls
proof (unfold_locales, unfold fake_vm_ops, goal_cases)
  case (1 s len a src p)
  then have ok: "regions_ok (st_regions s)" "regions_tidy (unat (fv_page fv)) (st_regions s)" by (auto simp: fake_inv_def fake_tidy_def)
  obtain m where m: "punch a len (st_regions s) = Ok m" "regions_tidy (unat (fv_page fv)) m"
    using punch_serves [OF ok] 1 by blast
  have place: "choose_place s (Exact a) len = Ok (a, m)" using m(1) by (simp add: choose_place_def)
  show ?case
    using fake_map_serves [OF 1(1) _ place m(2) punch_Ok(1,2) [OF ok(1) m(1)], where src = src and p = p and fls = fls] 1
    by (intro yields_intro) auto
next
  case (2 s len p)
  then have ok: "regions_ok (st_regions s)" "regions_tidy (unat (fv_page fv)) (st_regions s)" "unat (fv_page fv) dvd unat (st_base s)"
    by (auto simp: fake_inv_def fake_tidy_def)
  obtain a where a: "first_fit s len = Ok a" "unat (fv_page fv) dvd unat a" "unat a \<le> fake_ceiling s"
    using first_fit_serves [OF ok(2,3), of "fake_ceiling s" len] fake_ceiling_le [of s "fake_ceiling s"] 2(5)
    by (auto simp: first_fit_def)
  have "st_base s \<le> a" using first_fit_free [OF _ regions_ok_sorted [OF ok(1)]] a(1) by (auto simp: first_fit_def)
  moreover have place: "choose_place s Anywhere len = Ok (a, st_regions s)" using a(1) by (simp add: choose_place_def)
  ultimately show ?case
    using fake_map_serves [OF 2(1) _ place ok(2,1) carved_from_refl, where src = Anon and p = p and fls = fls] 2 a
    by (intro yields_intro) (auto simp: word_le_nat_alt)
next
  case (3 s lo hi a len)
  then obtain q where q: "q \<in> set (st_regions s)" "r_prot (snd q) AND PROT_WRITE \<noteq> 0" "unat (fst q) \<le> lo" "hi \<le> region_end q"
    by (auto simp: fake_whole_def)
  from 3 have ok: "regions_ok (st_regions s)" "regions_tidy (unat (fv_page fv)) (st_regions s)" by (auto simp: fake_inv_def fake_tidy_def)
  obtain m where m: "store_at (st_regions s) a len (replicate (unat len) 0) = Ok m"
    using store_at_serves [OF ok q(1,2), of a len "replicate (unat len) 0"] q(3,4) 3 by auto
  let ?s = "push_op (OpZero a len) (s\<lparr> st_regions := m \<rparr>)"
  have "fake_zero a len s = (Ok (), ?s)" using m by (simp add: fake_zero_def)
  moreover have "fake_tidy fv ?s" "fake_ceiling ?s = fake_ceiling s"
    using fake_store_keeps [OF m, of fv ?s] 3 by (simp_all add: push_op_def)
  ultimately show ?case using 3 by (intro yields_intro) auto
next
  case (4 s len a p)
  then show ?case using fake_protect_serves [of s fv len a p] by (intro yields_intro) auto
next
  case (5 s a len)
  then show ?case by (auto simp: yields_def fake_icache_sync_def push_op_def fake_tidy_def fake_ceiling_def)
qed

end
