(* ===== verification/Shim.thy ===== *)
theory Shim
  imports Sys
begin

text \<open>
  The C half of the boundary, \<open>glue/shim.c\<close>: the functions the Rust code calls, each over the functions
  of Unikraft and of the C library it calls. Those are not part of the repository: they are the
  fields of a record \<open>Unikraft\<close>, a call that sets \<open>errno\<close> returning it beside its result. The build
  configuration, on which the preprocessor decides, is a record \<open>Kconfig\<close>, and the constants of the
  platform's headers, which the shim exists to keep away from Rust, are a record \<open>Platform\<close>.
  The assertions are left out, as in a build without them, and so are the log, the crash and
  the endless sleep. Reading a file again while a signal interrupts it needs a bound for the
  model to be a function: \<open>kc_eintr\<close> interruptions in a row are waited out.
\<close>

section \<open>Outside the shim\<close>

record Kconfig =
  kc_stack_nbpages :: u32
  kc_page_shift :: nat
  kc_posix_user :: bool
  kc_uid :: u32
  kc_gid :: u32
  kc_have_vfs :: bool
  kc_posix_mmap :: bool
  kc_ukvmem :: bool
  kc_posix_environ :: bool
  kc_ukrandom :: bool
  kc_multithreading :: bool
  kc_vfsexec :: bool
  kc_customappname :: bool
  kc_envpath :: bool
  kc_envpwd :: bool
  kc_execbit :: bool
  kc_debug :: bool
  kc_vdso :: bool
  kc_arm64 :: bool
  kc_fpsimd :: bool
  kc_vfsexec_path :: u64
  kc_vdso_image_addr :: u64
  kc_platform_name :: u64
  kc_eintr :: nat

record Platform =
  pl_prot_none :: i32
  pl_prot_read :: i32
  pl_prot_write :: i32
  pl_prot_exec :: i32
  pl_map_private :: i32
  pl_map_anonymous :: i32
  pl_map_fixed :: i32
  pl_attr_read :: u64
  pl_attr_write :: u64
  pl_attr_exec :: u64

record Stat =
  st_size :: i64
  st_is_reg :: bool
  st_ixusr :: bool

record 'k Unikraft =
  uk_memalign :: "u64 \<Rightarrow> u64 \<Rightarrow> ('k, u64) ccall"
  uk_free :: "u64 \<Rightarrow> ('k, unit) ccall"
  c_mmap :: "u64 \<Rightarrow> u64 \<Rightarrow> i32 \<Rightarrow> i32 \<Rightarrow> i32 \<Rightarrow> i64 \<Rightarrow> ('k, u64 \<times> i32) ccall"
  c_munmap :: "u64 \<Rightarrow> u64 \<Rightarrow> ('k, i32 \<times> i32) ccall"
  c_mprotect :: "u64 \<Rightarrow> u64 \<Rightarrow> i32 \<Rightarrow> ('k, i32 \<times> i32) ccall"
  uk_vas_get_active :: "('k, u64 option) ccall"
  uk_vma_set_attr :: "u64 \<Rightarrow> u64 \<Rightarrow> u64 \<Rightarrow> u64 \<Rightarrow> ('k, i32) ccall"
  c_open :: "bytes \<Rightarrow> ('k, i32 \<times> i32) ccall"
  c_close :: "i32 \<Rightarrow> ('k, unit) ccall"
  c_pread :: "i32 \<Rightarrow> u64 \<Rightarrow> i64 \<Rightarrow> ('k, i64 \<times> bytes \<times> i32) ccall"
  c_fstat :: "i32 \<Rightarrow> ('k, i32 \<times> Stat \<times> i32) ccall"
  c_stat :: "bytes \<Rightarrow> ('k, i32 \<times> Stat \<times> i32) ccall"
  c_environ :: "('k, u64) ccall"
  c_getenv :: "bytes \<Rightarrow> ('k, u64) ccall"
  c_chdir :: "bytes \<Rightarrow> ('k, i32 \<times> i32) ccall"
  uk_random_fill_buffer :: "u64 \<Rightarrow> ('k, i32 \<times> bytes) ccall"
  ukplat_memregion_find_initrd0 :: "('k, i32 \<times> u64 \<times> u64) ccall"
  uk_thread_create_container :: "u64 \<Rightarrow> bytes \<Rightarrow> ('k, u64) ccall"
  uk_thread_release :: "u64 \<Rightarrow> ('k, unit) ccall"
  uk_thread_ctx :: "u64 \<Rightarrow> ('k, u64) ccall"
  uk_thread_stack :: "u64 \<Rightarrow> ('k, u64) ccall"
  uk_thread_set_runnable :: "u64 \<Rightarrow> ('k, unit) ccall"
  uk_posix_process_create_pthread :: "u64 \<Rightarrow> ('k, i32) ccall"
  uk_sched_thread_add :: "u64 \<Rightarrow> ('k, unit) ccall"
  ukarch_ctx_sp :: "u64 \<Rightarrow> ('k, u64) ccall"
  ukarch_ctx_init :: "u64 \<Rightarrow> u64 \<Rightarrow> u64 \<Rightarrow> u64 \<Rightarrow> ('k, unit) ccall"
  invalidate_icache_range :: "u64 \<Rightarrow> u64 \<Rightarrow> ('k, unit) ccall"
  read_id_aa64isar0 :: "('k, u64) ccall"

text \<open>The error numbers that only the shim uses; the others have names in Rust too.\<close>

definition EINTR :: i32 where "EINTR = 4"
definition EACCES :: i32 where "EACCES = 13"

section \<open>Configuration and allocation\<close>

definition elfrs_on :: "bool \<Rightarrow> u8" where "elfrs_on b = (if b then 1 else 0)"

definition kc_page_size :: "Kconfig \<Rightarrow> u32" where "kc_page_size kc = push_bit (kc_page_shift kc) 1"

definition shim_cfg :: "Kconfig \<Rightarrow> Cfg" where
  "shim_cfg kc =
    \<lparr> stack_len = push_bit (kc_page_shift kc) (kc_stack_nbpages kc),
      cf_page_size = kc_page_size kc,
      cf_uid = (if kc_posix_user kc then kc_uid kc else 0),
      cf_gid = (if kc_posix_user kc then kc_gid kc else 0),
      have_vfs = elfrs_on (kc_have_vfs kc),
      have_mmap = elfrs_on (kc_posix_mmap kc),
      have_vmem = elfrs_on (kc_ukvmem kc),
      have_environ = elfrs_on (kc_posix_environ kc),
      have_random = elfrs_on (kc_ukrandom kc),
      have_pthread = elfrs_on (kc_multithreading kc),
      vfsexec = elfrs_on (kc_vfsexec kc),
      customappname = elfrs_on (kc_customappname kc),
      envpath = elfrs_on (kc_envpath kc),
      envpwd = elfrs_on (kc_envpwd kc),
      execbit = elfrs_on (kc_execbit kc),
      cf_debug = elfrs_on (kc_debug kc),
      vfsexec_path = (if kc_vfsexec kc \<and> \<not> kc_customappname kc then kc_vfsexec_path kc else 0),
      vdso_addr = (if kc_vdso kc then kc_vdso_image_addr kc else 0) \<rparr>"

definition shim_memalign :: "'k Unikraft \<Rightarrow> u64 \<Rightarrow> u64 \<Rightarrow> ('k, u64) ccall" where
  "shim_memalign uk al bytes_wanted = uk_memalign uk (if al < 8 then 8 else al) bytes_wanted"

section \<open>Virtual memory\<close>

definition shim_to_prot :: "Platform \<Rightarrow> i32 \<Rightarrow> i32" where
  "shim_to_prot pl pr =
    (let p = pl_prot_none pl;
         p = (if pr AND 1 \<noteq> 0 then p OR pl_prot_read pl else p);
         p = (if pr AND 2 \<noteq> 0 then p OR pl_prot_write pl else p);
         p = (if pr AND 4 \<noteq> 0 then p OR pl_prot_exec pl else p)
     in p)"

definition shim_to_attr :: "Platform \<Rightarrow> i32 \<Rightarrow> u64" where
  "shim_to_attr pl pr =
    (let p = 0;
         p = (if pr AND 1 \<noteq> 0 then p OR pl_attr_read pl else p);
         p = (if pr AND 2 \<noteq> 0 then p OR pl_attr_write pl else p);
         p = (if pr AND 4 \<noteq> 0 then p OR pl_attr_exec pl else p)
     in p)"

definition map_flags :: "Platform \<Rightarrow> bool \<Rightarrow> bool \<Rightarrow> i32" where
  "map_flags pl anon fixed =
    (let flags = pl_map_private pl;
         flags = (if anon then flags OR pl_map_anonymous pl else flags)
     in if fixed then flags OR pl_map_fixed pl else flags)"

definition MAP_FAILED :: u64 where "MAP_FAILED = - 1"

text \<open>The result and what is stored through \<open>err\<close>: the code itself, not its negation.\<close>

definition shim_map :: "Kconfig \<Rightarrow> Platform \<Rightarrow> 'k Unikraft \<Rightarrow>
    u64 \<Rightarrow> u64 \<Rightarrow> i32 \<Rightarrow> i32 \<Rightarrow> i32 \<Rightarrow> i64 \<Rightarrow> i32 \<Rightarrow> ('k, u64 \<times> i32) ccall" where
  "shim_map kc pl uk addr len pr kind fd off replace m =
    (if kc_posix_mmap kc then
       let anon = (kind = MAP_ANON);
           flags = map_flags pl anon (addr \<noteq> 0 \<and> replace \<noteq> 0);
           fd = (if anon then - 1 else fd);
           off = (if anon then 0 else off)
       in case c_mmap uk addr len (shim_to_prot pl pr) flags fd off m of ((got, en), m') \<Rightarrow>
            if got = MAP_FAILED then ((0, if en \<noteq> 0 then en else errno ENOMEM), m')
            else ((got, 0), m')
     else ((0, errno ENOSYS), m))"

text \<open>A C call that returns a negative number on failure, with \<open>errno\<close> beside it.\<close>

definition neg_errno :: "('k, i32 \<times> i32) ccall \<Rightarrow> ('k, i32) ccall" where
  "neg_errno f m = (case f m of ((rc, en), m') \<Rightarrow> (if sint rc < 0 then - en else 0, m'))"

definition shim_unmap :: "Kconfig \<Rightarrow> 'k Unikraft \<Rightarrow> u64 \<Rightarrow> u64 \<Rightarrow> ('k, i32) ccall" where
  "shim_unmap kc uk addr len m =
    (if kc_posix_mmap kc then neg_errno (c_munmap uk addr len) m else (- errno ENOSYS, m))"

text \<open>Without \<open>mmap\<close> there may still be a page table: the range is widened to whole pages.\<close>

definition shim_protect :: "Kconfig \<Rightarrow> Platform \<Rightarrow> 'k Unikraft \<Rightarrow> u64 \<Rightarrow> u64 \<Rightarrow> i32 \<Rightarrow> ('k, i32) ccall" where
  "shim_protect kc pl uk addr len pr m =
    (if kc_posix_mmap kc then neg_errno (c_mprotect uk addr len (shim_to_prot pl pr)) m
     else if kc_ukvmem kc then
       (case uk_vas_get_active uk m of
          (None, m') \<Rightarrow> (- errno ENOTSUP, m')
        | (Some vas, m') \<Rightarrow>
            let mask = ucast (kc_page_size kc) - 1;
                start = addr AND NOT mask;
                vlen = ((addr + len + mask) AND NOT mask) - start
            in uk_vma_set_attr uk vas start vlen (shim_to_attr pl pr) m')
     else (- errno ENOTSUP, m))"

section \<open>Files\<close>

definition shim_open_ro :: "Kconfig \<Rightarrow> 'k Unikraft \<Rightarrow> bytes \<Rightarrow> ('k, i32) ccall" where
  "shim_open_ro kc uk path m =
    (if kc_have_vfs kc then
       (case c_open uk path m of ((fd, en), m') \<Rightarrow> (if sint fd < 0 then - en else fd, m'))
     else (- errno ENOSYS, m))"

definition shim_close :: "Kconfig \<Rightarrow> 'k Unikraft \<Rightarrow> i32 \<Rightarrow> ('k, unit) ccall" where
  "shim_close kc uk fd m = (if kc_have_vfs kc \<and> 0 \<le> sint fd then c_close uk fd m else ((), m))"

fun pread_again :: "'k Unikraft \<Rightarrow> nat \<Rightarrow> i32 \<Rightarrow> u64 \<Rightarrow> i64 \<Rightarrow> ('k, i64 \<times> bytes) ccall" where
  "pread_again uk fuel fd len off m =
    (case c_pread uk fd len off m of ((rc, data, en), m') \<Rightarrow>
       if sint rc < 0 \<and> en = EINTR then
         (case fuel of 0 \<Rightarrow> ((- scast en, data), m') | Suc fuel \<Rightarrow> pread_again uk fuel fd len off m')
       else ((if sint rc < 0 then - scast en else rc, data), m'))"

declare pread_again.simps [simp del]

definition shim_pread :: "Kconfig \<Rightarrow> 'k Unikraft \<Rightarrow> i32 \<Rightarrow> u64 \<Rightarrow> i64 \<Rightarrow> ('k, i64 \<times> bytes) ccall" where
  "shim_pread kc uk fd len off m =
    (if kc_have_vfs kc then pread_again uk (kc_eintr kc) fd len off m else ((- scast (errno ENOSYS), []), m))"

definition shim_fsize :: "Kconfig \<Rightarrow> 'k Unikraft \<Rightarrow> i32 \<Rightarrow> ('k, i64) ccall" where
  "shim_fsize kc uk fd m =
    (if kc_have_vfs kc then
       (case c_fstat uk fd m of ((rc, st, en), m') \<Rightarrow> (if sint rc < 0 then - scast en else st_size st, m'))
     else (- scast (errno ENOSYS), m))"

definition shim_fd_is_exec :: "Kconfig \<Rightarrow> 'k Unikraft \<Rightarrow> i32 \<Rightarrow> ('k, i32) ccall" where
  "shim_fd_is_exec kc uk fd m =
    (if kc_have_vfs kc then
       (case c_fstat uk fd m of ((rc, st, en), m') \<Rightarrow>
          (if sint rc < 0 then - en
           else if \<not> st_is_reg st then - EACCES
           else if \<not> st_ixusr st then - EACCES
           else 0, m'))
     else (- errno ENOSYS, m))"

definition shim_path_is_exec :: "Kconfig \<Rightarrow> 'k Unikraft \<Rightarrow> bytes \<Rightarrow> ('k, i32) ccall" where
  "shim_path_is_exec kc uk path m =
    (if kc_have_vfs kc then
       (case c_stat uk path m of ((rc, st, en), m') \<Rightarrow>
          (if sint rc < 0 then - en
           else if \<not> st_is_reg st then - EACCES
           else if kc_execbit kc \<and> \<not> st_ixusr st then - EACCES
           else 0, m'))
     else (- errno ENOSYS, m))"

section \<open>Environment, randomness, initrd\<close>

definition shim_environ :: "Kconfig \<Rightarrow> 'k Unikraft \<Rightarrow> ('k, u64) ccall" where
  "shim_environ kc uk m = (if kc_posix_environ kc then c_environ uk m else (0, m))"

definition shim_getenv :: "Kconfig \<Rightarrow> 'k Unikraft \<Rightarrow> bytes \<Rightarrow> ('k, u64) ccall" where
  "shim_getenv kc uk name m = (if kc_posix_environ kc then c_getenv uk name m else (0, m))"

definition shim_chdir :: "Kconfig \<Rightarrow> 'k Unikraft \<Rightarrow> bytes \<Rightarrow> ('k, i32) ccall" where
  "shim_chdir kc uk path m = (if kc_have_vfs kc then neg_errno (c_chdir uk path) m else (- errno ENOSYS, m))"

definition shim_random_fill :: "Kconfig \<Rightarrow> 'k Unikraft \<Rightarrow> u64 \<Rightarrow> ('k, i32 \<times> bytes) ccall" where
  "shim_random_fill kc uk len m =
    (if kc_ukrandom kc then uk_random_fill_buffer uk len m else ((- errno ENOTSUP, []), m))"

definition shim_initrd :: "'k Unikraft \<Rightarrow> ('k, i32 \<times> u64 \<times> u64) ccall" where
  "shim_initrd uk m =
    (case ukplat_memregion_find_initrd0 uk m of ((rc, vbase, len), m') \<Rightarrow>
       if sint rc < 0 \<or> vbase = 0 \<or> len = 0 then ((- errno ENOENT, 0, 0), m')
       else ((0, vbase, len), m'))"

section \<open>Threads and contexts\<close>

definition shim_thread_release :: "'k Unikraft \<Rightarrow> u64 \<Rightarrow> ('k, unit) ccall" where
  "shim_thread_release uk thread m = (if thread \<noteq> 0 then uk_thread_release uk thread m else ((), m))"

definition shim_thread_make_pthread :: "Kconfig \<Rightarrow> 'k Unikraft \<Rightarrow> u64 \<Rightarrow> ('k, i32) ccall" where
  "shim_thread_make_pthread kc uk thread m =
    (if kc_multithreading kc then uk_posix_process_create_pthread uk thread m else (0, m))"

definition shim_thread_schedule :: "'k Unikraft \<Rightarrow> u64 \<Rightarrow> ('k, i32) ccall" where
  "shim_thread_schedule uk thread m = (case uk_sched_thread_add uk thread m of (_, m') \<Rightarrow> (0, m'))"

section \<open>The architecture\<close>

definition shim_icache_sync :: "Kconfig \<Rightarrow> 'k Unikraft \<Rightarrow> u64 \<Rightarrow> u64 \<Rightarrow> ('k, unit) ccall" where
  "shim_icache_sync kc uk addr len m =
    (if kc_arm64 kc \<and> len \<noteq> 0 then invalidate_icache_range uk addr len m else ((), m))"

text \<open>The capability bits, each from its four-bit field of the identification register.\<close>

definition isar0_field :: "u64 \<Rightarrow> nat \<Rightarrow> u64" where
  "isar0_field isar0 n = drop_bit n isar0 AND 0xf"

definition hwcap_of :: "u64 \<Rightarrow> u64" where
  "hwcap_of isar0 =
    (let caps = push_bit 0 1 OR push_bit 1 1;
         caps = (if 1 \<le> isar0_field isar0 4 then caps OR push_bit 3 1 else caps);
         caps = (if 2 \<le> isar0_field isar0 4 then caps OR push_bit 4 1 else caps);
         caps = (if 1 \<le> isar0_field isar0 8 then caps OR push_bit 5 1 else caps);
         caps = (if 1 \<le> isar0_field isar0 12 then caps OR push_bit 6 1 else caps);
         caps = (if 1 \<le> isar0_field isar0 16 then caps OR push_bit 7 1 else caps);
         caps = (if 2 \<le> isar0_field isar0 20 then caps OR push_bit 8 1 else caps);
         caps = (if 1 \<le> isar0_field isar0 28 then caps OR push_bit 12 1 else caps)
     in caps)"

definition shim_hwcap :: "Kconfig \<Rightarrow> 'k Unikraft \<Rightarrow> ('k, u64) ccall" where
  "shim_hwcap kc uk m =
    (if kc_arm64 kc \<and> kc_fpsimd kc then (case read_id_aa64isar0 uk m of (isar0, m') \<Rightarrow> (hwcap_of isar0, m'))
     else (0, m))"

section \<open>The shim\<close>

definition c_shim :: "Kconfig \<Rightarrow> Platform \<Rightarrow> 'k Unikraft \<Rightarrow> 'k Shim" where
  "c_shim kc pl uk =
    \<lparr> elfrs_cfg_get = (\<lambda>m. (shim_cfg kc, m)),
      elfrs_memalign = shim_memalign uk,
      elfrs_free = uk_free uk,
      elfrs_map = shim_map kc pl uk,
      elfrs_unmap = shim_unmap kc uk,
      elfrs_protect = shim_protect kc pl uk,
      elfrs_open_ro = shim_open_ro kc uk,
      elfrs_close = shim_close kc uk,
      elfrs_pread = shim_pread kc uk,
      elfrs_fsize = shim_fsize kc uk,
      elfrs_fd_is_exec = shim_fd_is_exec kc uk,
      elfrs_path_is_exec = shim_path_is_exec kc uk,
      elfrs_environ = shim_environ kc uk,
      elfrs_getenv = shim_getenv kc uk,
      elfrs_chdir = shim_chdir kc uk,
      elfrs_random_fill = shim_random_fill kc uk,
      elfrs_initrd = shim_initrd uk,
      elfrs_thread_create = (\<lambda>name len. uk_thread_create_container uk len name),
      elfrs_thread_release = shim_thread_release uk,
      elfrs_thread_ctx = uk_thread_ctx uk,
      elfrs_thread_stack_base = uk_thread_stack uk,
      elfrs_thread_set_runnable = uk_thread_set_runnable uk,
      elfrs_thread_make_pthread = shim_thread_make_pthread kc uk,
      elfrs_thread_schedule = shim_thread_schedule uk,
      elfrs_ctx_get_sp = ukarch_ctx_sp uk,
      elfrs_ctx_init = (\<lambda>ctx sp ip. ukarch_ctx_init uk ctx sp 0 ip),
      elfrs_icache_sync = shim_icache_sync kc uk,
      elfrs_hwcap = shim_hwcap kc uk,
      elfrs_hwcap2 = (\<lambda>m. (0, m)),
      elfrs_platform = (\<lambda>m. (kc_platform_name kc, m)) \<rparr>"

end
