(* ===== verification/Shim_Facts.thy ===== *)
theory Shim_Facts
  imports Shim Sys_Facts App_Facts
begin

text \<open>
  What crosses the boundary between C and Rust: the error numbers of the kernel reach the callers in
  Rust unchanged, whichever call failed.
\<close>

section \<open>Status codes\<close>

text \<open>An error number on its way from C to Rust: negated, widened, negated back and narrowed.\<close>

lemma c_status_errno: "0 < sint en \<Longrightarrow> c_status (- en) = Err (Error en)"
  by (simp add: c_status_def from_c_neg)

lemma c_status_zero: "c_status 0 = Ok ()"
  by (simp add: c_status_def from_c_def)

text \<open>A status that reaches Rust as success was success in C.\<close>

lemma c_status_neg_errno:
  assumes "neg_errno f m = (rc, m')" and "f m = ((r, en), m1)" and "sint r < 0 \<Longrightarrow> 0 < sint en"
  shows "m' = m1" and "c_status rc = Ok u \<longleftrightarrow> 0 \<le> sint r" and "c_status rc = Err e \<longleftrightarrow> sint r < 0 \<and> e = Error en"
proof -
  show "m' = m1" using assms(1,2) by (auto simp: neg_errno_def)
  have "rc = (if sint r < 0 then - en else 0)" using assms(1,2) by (auto simp: neg_errno_def)
  then show "c_status rc = Ok u \<longleftrightarrow> 0 \<le> sint r" "c_status rc = Err e \<longleftrightarrow> sint r < 0 \<and> e = Error en"
    using assms(3) c_status_errno [of en] by (auto simp: c_status_zero)
qed

text \<open>The 64-bit results of \<open>pread\<close> take the same way.\<close>

lemma errno_wide:
  assumes "0 < sint (en :: i32)"
  shows "sint (- scast en :: i64) < 0" and "(- scast en :: i64) \<noteq> 0x8000000000000000" and "(- scast en :: i64) \<noteq> 0"
    and "ucast (- (- scast en :: i64)) = en"
proof -
  have neg: "sint (- scast en :: i64) = - sint en" by (rule sint_neg_scast(2) [OF assms])
  then show "sint (- scast en :: i64) < 0" using assms by simp
  show "(- scast en :: i64) \<noteq> 0x8000000000000000"
  proof
    assume "(- scast en :: i64) = 0x8000000000000000"
    with neg have "sint en = 2 ^ 63" by simp
    with sint_lt [of en] show False by simp
  qed
  show "(- scast en :: i64) \<noteq> 0" using neg assms by auto
  have "ucast (scast en :: i64) = en" by (rule bit_word_eqI) (simp add: bit_simps)
  then show "ucast (- (- scast en :: i64)) = en" by simp
qed

section \<open>The calls\<close>

lemma uk_calls_fail:
  assumes "kc_posix_mmap kc" and "0 < sint en" and "sint rc < 0"
  shows "c_munmap uk a len m = ((rc, en), m') \<Longrightarrow> uk_unmap (c_shim kc pl uk) a len m = (Err (Error en), m')"
    and "c_mprotect uk a len (shim_to_prot pl p) m = ((rc, en), m') \<Longrightarrow>
      uk_protect (c_shim kc pl uk) a len p m = (Err (Error en), m')"
  using assms
  by (simp_all add: uk_unmap_def uk_protect_def c_shim_def shim_unmap_def shim_protect_def neg_errno_def sbind_def call_def
      slift_def c_status_errno)

lemma uk_map_fails:
  assumes "kc_posix_mmap kc" and "0 < sint en"
    and "c_mmap uk (case at of Anywhere \<Rightarrow> 0 | Hint h \<Rightarrow> h | Exact x \<Rightarrow> x) len (shim_to_prot pl p)
          (map_flags pl (src = Anon) (case at of Exact x \<Rightarrow> x \<noteq> 0 | _ \<Rightarrow> False))
          (case src of Anon \<Rightarrow> - 1 | File fd off \<Rightarrow> fd) (case src of Anon \<Rightarrow> 0 | File fd off \<Rightarrow> off) m
          = ((MAP_FAILED, en), m')"
  shows "uk_map (c_shim kc pl uk) at len p src m = (Err (Error en), m')"
  using assms
  by (cases "at"; cases src) (auto simp: uk_map_def c_shim_def shim_map_def Let_def MAP_ANON_def MAP_FILE_def sbind_def call_def
      slift_def)

lemma file_calls_fail:
  assumes "kc_have_vfs kc" and "0 < sint en"
  shows "CString_new heap path = Ok c \<Longrightarrow> c_open uk c m = ((rc, en), m') \<Longrightarrow> sint rc < 0 \<Longrightarrow>
      File_open (c_shim kc pl uk) heap path m = (Err (Error en), m')"
    and "0 < n \<Longrightarrow> en \<noteq> EINTR \<Longrightarrow> c_pread uk (sf_fd f) (of_nat n) off m = ((rc64, data, en), m') \<Longrightarrow> sint rc64 < 0 \<Longrightarrow>
      File_read_exact_at (c_shim kc pl uk) f off n m = (Err (Error en), m')"
proof -
  have neg: "sint (- en) < 0" "- en \<noteq> 0x80000000" using sint_neg [OF assms(2)] assms(2) sint_lt [of en] by auto
  then show "File_open (c_shim kc pl uk) heap path m = (Err (Error en), m')"
    if "CString_new heap path = Ok c" "c_open uk c m = ((rc, en), m')" "sint rc < 0"
    using that assms(1) by (simp add: File_open_def sbind_def slift_def call_def c_shim_def shim_open_ro_def)
  show "File_read_exact_at (c_shim kc pl uk) f off n m = (Err (Error en), m')"
    if "0 < n" "en \<noteq> EINTR" "c_pread uk (sf_fd f) (of_nat n) off m = ((rc64, data, en), m')" "sint rc64 < 0"
  proof -
    have "elfrs_pread (c_shim kc pl uk) (sf_fd f) (of_nat n) off m = ((- scast en, data), m')"
      using that(2-4) assms(1) by (simp add: c_shim_def shim_pread_def pread_again.simps)
    with that(1) errno_wide [OF assms(2)] show ?thesis
      by (simp add: File_read_exact_at_def pread_loop.simps not_le)
  qed
qed

end
