(* ===== verification/Kernel.thy ===== *)
theory Kernel
  imports Shim_Facts Program_Facts
begin

text \<open>
  The loader on the real thing: the address space \<open>UkVm\<close> and the opener \<open>VfsOpener\<close> of the Rust code,
  over the C shim, on a kernel of which only the documented behaviour of \<open>mmap\<close>, \<open>munmap\<close>, \<open>mprotect\<close>,
  \<open>open\<close>, \<open>close\<close> and \<open>fstat\<close> is known. That behaviour is the locale \<open>posix_kernel\<close>; what the loader
  relies on, the locale \<open>program_space\<close>, follows from it.
\<close>

section \<open>The memory of a machine\<close>

text \<open>The mapped addresses with their protections, and the bytes the memory holds there.\<close>

definition machine_cells :: "('k \<Rightarrow> u64 \<Rightarrow> u32 option) \<Rightarrow> 'k Machine \<Rightarrow> cells" where
  "machine_cells prots m x =
    (if x < 2 ^ 64 then map_option (\<lambda>p. (p, mc_mem m (of_nat x))) (prots (mc_kernel m) (of_nat x)) else None)"

definition kernel_inv :: "('k \<Rightarrow> bool) \<Rightarrow> Kconfig \<Rightarrow> 'k Machine \<Rightarrow> bool" where
  "kernel_inv kok kc m \<longleftrightarrow> kok (mc_kernel m) \<and> mc_cfg m = Some (shim_cfg kc)"

definition kc_page :: "Kconfig \<Rightarrow> u64" where
  "kc_page kc = ucast (kc_page_size kc)"

abbreviation page_bytes :: "Kconfig \<Rightarrow> nat" where
  "page_bytes kc \<equiv> unat (kc_page kc)"

lemma kc_page_pow: "kc_page_shift kc < 32 \<Longrightarrow> is_power_of_two (kc_page kc)"
proof -
  assume small: "kc_page_shift kc < 32"
  have "kc_page kc = 2 ^ kc_page_shift kc"
    using small by (intro bit_word_eqI) (auto simp: kc_page_def kc_page_size_def bit_simps)
  with small show ?thesis by (auto simp: is_power_of_two_iff intro!: exI [of _ "kc_page_shift kc"])
qed

lemma machine_cells_zero:
  assumes "unat a + unat len \<le> 2 ^ 64"
  shows "machine_cells prots (m\<lparr> mc_mem := poke a (replicate (unat len) 0) (mc_mem m) \<rparr>)
    = overlay (machine_cells prots m) (unat a) (unat a + unat len) (\<lambda>x. set_byte 0 (machine_cells prots m x))"
proof
  fix x
  have "unat (of_nat x - a) < unat len \<longleftrightarrow> unat a \<le> x \<and> x < unat a + unat len" if "x < 2 ^ 64"
  proof -
    from that have x: "unat (of_nat x :: u64) = x" by (simp add: unat_of_nat take_bit_nat_eq_self_iff)
    show ?thesis
    proof (cases "unat a \<le> x")
      case True
      then show ?thesis by (simp add: unat_sub_ok x) linarith
    next
      case False
      with x have "unat (of_nat x - a) = 2 ^ 64 + x - unat a"
        by (simp add: unat_sub_if_size word_size not_le)
      with False assms show ?thesis by linarith
    qed
  qed
  then show "machine_cells prots (m\<lparr> mc_mem := poke a (replicate (unat len) 0) (mc_mem m) \<rparr>) x
    = overlay (machine_cells prots m) (unat a) (unat a + unat len) (\<lambda>x. set_byte 0 (machine_cells prots m x)) x"
    by (auto simp: machine_cells_def poke_def overlay_def set_byte_def option.map_comp o_def)
qed

lemma uk_vm_ops:
  "vm_page_size (UkVm (c_shim kc pl uk) (shim_cfg kc)) = kc_page kc"
  "vm_map (UkVm sh c) = uk_map sh" "vm_unmap (UkVm sh c) = uk_unmap sh" "vm_protect (UkVm sh c) = uk_protect sh"
  "vm_zero (UkVm sh c) = uk_zero" "vm_icache_sync (UkVm sh c) = (\<lambda>a len. call (elfrs_icache_sync sh a len))"
  by (simp_all add: UkVm_def kc_page_def shim_cfg_def)

section \<open>What is known of the kernel\<close>

text \<open>
  A fixed mapping replaces what its whole pages showed, any other is put where nothing was and never
  at address 0; both show zeros or the file from the given offset on. A failed fixed mapping and a
  failed change of protection may have touched their own range. A failure is reported with a
  positive error number. A descriptor stands for the file it was opened from, and file operations
  touch no mapping.
\<close>

locale posix_kernel =
  fixes kc :: Kconfig and pl :: Platform and uk :: "'k Unikraft"
    and kok :: "'k \<Rightarrow> bool"
    and prots :: "'k \<Rightarrow> u64 \<Rightarrow> u32 option"
    and fbyte :: "i32 \<Rightarrow> nat \<Rightarrow> u8"
    and content :: "bytes \<Rightarrow> nat \<Rightarrow> u8"
  assumes has_mmap: "kc_posix_mmap kc" and has_vfs: "kc_have_vfs kc"
    and mmap_fixed:
      "kernel_inv kok kc m \<Longrightarrow> a \<noteq> 0 \<Longrightarrow> 0 < unat len \<Longrightarrow> page_bytes kc dvd unat len \<Longrightarrow> p \<le> 7 \<Longrightarrow>
       c_mmap uk a len (shim_to_prot pl p) (map_flags pl anon True) fd off m = ((got, en), m') \<Longrightarrow>
       kernel_inv kok kc m' \<and>
       (if got = MAP_FAILED then same_outside (machine_cells prots m) (machine_cells prots m') (unat a) (unat a + unat len)
        else got = a \<and> machine_cells prots m' = overlay (machine_cells prots m) (unat a) (unat a + unat len)
          (\<lambda>x. Some (p, if anon then 0 else fbyte fd (unat off + (x - unat a)))))"
    and mmap_failed:
      "kernel_inv kok kc m \<Longrightarrow> c_mmap uk a len pr (map_flags pl anon False) fd off m = ((MAP_FAILED, en), m') \<Longrightarrow>
       kernel_inv kok kc m' \<and> machine_cells prots m' = machine_cells prots m"
    and mmap_not_null:
      "kernel_inv kok kc m \<Longrightarrow> c_mmap uk a len pr (map_flags pl anon False) fd off m = ((got, en), m') \<Longrightarrow> got \<noteq> 0"
    and mmap_free:
      "kernel_inv kok kc m \<Longrightarrow> 0 < unat len \<Longrightarrow> page_bytes kc dvd unat len \<Longrightarrow> p \<le> 7 \<Longrightarrow>
       c_mmap uk a len (shim_to_prot pl p) (map_flags pl anon False) fd off m = ((got, en), m') \<Longrightarrow> got \<noteq> MAP_FAILED \<Longrightarrow>
       kernel_inv kok kc m' \<and> page_bytes kc dvd unat got
       \<and> (\<forall>x. unat got \<le> x \<and> x < unat got + unat len \<longrightarrow> machine_cells prots m x = None)
       \<and> machine_cells prots m' = overlay (machine_cells prots m) (unat got) (unat got + unat len)
          (\<lambda>x. Some (p, if anon then 0 else fbyte fd (unat off + (x - unat got))))"
    and munmap:
      "kernel_inv kok kc m \<Longrightarrow> 0 < unat len \<Longrightarrow> page_bytes kc dvd unat len \<Longrightarrow>
       c_munmap uk a len m = ((rc, en), m') \<Longrightarrow>
       (if sint rc < 0 then 0 < sint en
        else kernel_inv kok kc m' \<and> machine_cells prots m'
          = overlay (machine_cells prots m) (unat a) (unat a + unat len) (\<lambda>_. None))"
    and mprotect:
      "kernel_inv kok kc m \<Longrightarrow> page_bytes kc dvd unat len \<Longrightarrow> p \<le> 7 \<Longrightarrow>
       c_mprotect uk a len (shim_to_prot pl p) m = ((rc, en), m') \<Longrightarrow>
       kernel_inv kok kc m' \<and>
       (if sint rc < 0
        then 0 < sint en \<and> same_outside (machine_cells prots m) (machine_cells prots m') (unat a) (unat a + unat len)
        else machine_cells prots m' = overlay (machine_cells prots m) (unat a) (unat a + unat len)
          (\<lambda>x. set_prot p (machine_cells prots m x)))"
    and icache:
      "kernel_inv kok kc m \<Longrightarrow> invalidate_icache_range uk a len m = (u, m') \<Longrightarrow>
       kernel_inv kok kc m' \<and> machine_cells prots m' = machine_cells prots m"
    and opens:
      "kernel_inv kok kc m \<Longrightarrow> c_open uk path m = ((fd, en), m') \<Longrightarrow>
       kernel_inv kok kc m' \<and> machine_cells prots m' = machine_cells prots m
       \<and> (if sint fd < 0 then 0 < sint en else fbyte fd = content path)"
    and closes:
      "kernel_inv kok kc m \<Longrightarrow> c_close uk fd m = (u, m') \<Longrightarrow>
       kernel_inv kok kc m' \<and> machine_cells prots m' = machine_cells prots m"
    and stats:
      "kernel_inv kok kc m \<Longrightarrow> c_fstat uk fd m = (st, m') \<Longrightarrow>
       kernel_inv kok kc m' \<and> machine_cells prots m' = machine_cells prots m"
begin

abbreviation sh :: "'k Shim" where "sh \<equiv> c_shim kc pl uk"
abbreviation vm :: "'k Machine Vm" where "vm \<equiv> UkVm (c_shim kc pl uk) (shim_cfg kc)"
abbreviation kinv :: "'k Machine \<Rightarrow> bool" where "kinv \<equiv> kernel_inv kok kc"
abbreviation kcells :: "'k Machine \<Rightarrow> cells" where "kcells \<equiv> machine_cells prots"

lemma map_exact_kernel:
  assumes "kinv m" and "0 < unat len" and "0 < unat a" and "page_bytes kc dvd unat len" and "p \<le> 7"
    and "uk_map sh (Exact a) len p src m = (r, m')" and "r \<noteq> Panic"
  shows "kinv m' \<and> (case r of
      Ok got \<Rightarrow> kcells m' = overlay (kcells m) (unat a) (unat a + unat len) (\<lambda>x. Some (p, src_byte fbyte src (x - unat a)))
    | _ \<Rightarrow> same_outside (kcells m) (kcells m') (unat a) (unat a + unat len))"
proof -
  have a: "a \<noteq> 0" using assms(3) by auto
  let ?anon = "src = Anon"
  obtain fd off where fo: "src = Anon \<or> src = File fd off" by (cases src) auto
  let ?fd = "if ?anon then - 1 else fd" and ?off = "if ?anon then 0 else off"
  obtain got en m1 where c: "c_mmap uk a len (shim_to_prot pl p) (map_flags pl ?anon True) ?fd ?off m = ((got, en), m1)"
    by (metis prod.exhaust)
  note law = mmap_fixed [OF assms(1) a assms(2,4,5) c]
  show ?thesis
  proof (cases "got = MAP_FAILED")
    case True
    with assms(6,7) c a fo law show ?thesis
      by (auto simp: uk_map_def c_shim_def shim_map_def has_mmap Let_def MAP_ANON_def MAP_FILE_def sbind_def call_def slift_def
          split: if_splits)
  next
    case False
    with assms(6,7) c a fo law show ?thesis
      by (auto simp: uk_map_def c_shim_def shim_map_def has_mmap Let_def MAP_ANON_def MAP_FILE_def sbind_def call_def
          sret_def src_byte_def split: if_splits)
  qed
qed

lemma map_free_kernel:
  assumes "kinv m" and "at = Anywhere \<or> at = Hint h" and "uk_map sh at len p src m = (r, m')" and "r \<noteq> Panic"
  shows "case r of
      Ok got \<Rightarrow> 0 < unat len \<and> page_bytes kc dvd unat len \<and> p \<le> 7 \<longrightarrow>
        kinv m' \<and> page_bytes kc dvd unat got \<and> (\<forall>x\<ge>unat got. 0 < x)
        \<and> (\<forall>x. unat got \<le> x \<and> x < unat got + unat len \<longrightarrow> kcells m x = None)
        \<and> kcells m' = overlay (kcells m) (unat got) (unat got + unat len) (\<lambda>x. Some (p, src_byte fbyte src (x - unat got)))
    | _ \<Rightarrow> kinv m' \<and> kcells m' = kcells m"
proof -
  let ?anon = "src = Anon" and ?a = "case at of Hint a \<Rightarrow> a | _ \<Rightarrow> 0"
  obtain fd off where fo: "src = Anon \<or> src = File fd off" by (cases src) auto
  let ?fd = "if ?anon then - 1 else fd" and ?off = "if ?anon then 0 else off"
  obtain got en m1 where c: "c_mmap uk ?a len (shim_to_prot pl p) (map_flags pl ?anon False) ?fd ?off m = ((got, en), m1)"
    by (metis prod.exhaust)
  have null: "got \<noteq> 0" "\<forall>x\<ge>unat got. 0 < x"
    using mmap_not_null [OF assms(1) c] unat_gt_0 [of got] by (simp, metis less_le_trans)
  show ?thesis
  proof (cases "got = MAP_FAILED")
    case True
    with mmap_failed [OF assms(1)] c have "kinv m1 \<and> kcells m1 = kcells m" by blast
    with True assms(2-4) c fo show ?thesis
      by (auto simp: uk_map_def c_shim_def shim_map_def has_mmap Let_def MAP_ANON_def MAP_FILE_def sbind_def call_def slift_def
          split: if_splits)
  next
    case False
    with assms(2-4) c fo null mmap_free [OF assms(1) _ _ _ c False] show ?thesis
      by (auto simp: uk_map_def c_shim_def shim_map_def has_mmap Let_def MAP_ANON_def MAP_FILE_def sbind_def call_def
          sret_def src_byte_def split: if_splits)
  qed
qed

lemma unmap_kernel:
  assumes "kinv m" and "0 < unat len" and "page_bytes kc dvd unat len" and "uk_unmap sh a len m = (Ok u, m')"
  shows "kinv m' \<and> kcells m' = overlay (kcells m) (unat a) (unat a + unat len) (\<lambda>_. None)"
proof -
  obtain rc en m1 where c: "c_munmap uk a len m = ((rc, en), m1)" by (metis prod.exhaust)
  note law = munmap [OF assms(1-3) c]
  obtain st m2 where st: "neg_errno (c_munmap uk a len) m = (st, m2)" by (metis prod.exhaust)
  note status = c_status_neg_errno [OF st c]
  from assms(4) st have "m' = m2" "c_status st = Ok ()"
    by (auto simp: uk_unmap_def c_shim_def shim_unmap_def has_mmap sbind_def call_def slift_def)
  with status law show ?thesis by (simp split: if_splits)
qed

lemma protect_kernel:
  assumes "kinv m" and "page_bytes kc dvd unat len" and "p \<le> 7" and "uk_protect sh a len p m = (r, m')" and "r \<noteq> Panic"
  shows "kinv m' \<and> (case r of
      Ok _ \<Rightarrow> kcells m' = overlay (kcells m) (unat a) (unat a + unat len) (\<lambda>x. set_prot p (kcells m x))
    | _ \<Rightarrow> same_outside (kcells m) (kcells m') (unat a) (unat a + unat len))"
proof -
  obtain rc en m1 where c: "c_mprotect uk a len (shim_to_prot pl p) m = ((rc, en), m1)" by (metis prod.exhaust)
  note law = mprotect [OF assms(1-3) c]
  obtain st m2 where st: "neg_errno (c_mprotect uk a len (shim_to_prot pl p)) m = (st, m2)" by (metis prod.exhaust)
  have pos: "sint rc < 0 \<Longrightarrow> 0 < sint en" using law by (simp split: if_splits)
  note status = c_status_neg_errno [OF st c pos]
  from assms(4) st have "m' = m2" "r = c_status st"
    by (auto simp: uk_protect_def c_shim_def shim_protect_def has_mmap sbind_def call_def slift_def)
  with status law assms(5) show ?thesis by (auto split: if_splits result.splits)
qed

end

sublocale posix_kernel \<subseteq> uk: mapping_space "UkVm (c_shim kc pl uk) (shim_cfg kc)" "kernel_inv kok kc" "machine_cells prots"
    "\<lambda>_ _. True" fbyte "\<lambda>x. 0 < x" "\<lambda>n p. page_bytes kc dvd n \<and> p \<le> 7"
proof (unfold_locales, unfold uk_vm_ops, goal_cases)
  case (2 s len a p src got s')
  then show ?case using map_exact_kernel [of s len a p src "Ok got" s'] by simp
next
  case (3 s len a p src e s')
  then show ?case using map_exact_kernel [of s len a p src "Err e" s'] by simp
next
  case (4 s len p at h src got s')
  then show ?case using map_free_kernel [of s at h len p src "Ok got" s'] by simp
next
  case (5 s at h len p src e s')
  then show ?case using map_free_kernel [of s at h len p src "Err e" s'] by simp
next
  case (6 s len a u s')
  then show ?case using unmap_kernel by blast
next
  case (7 s len p a u s')
  then show ?case using protect_kernel [of s len p a "Ok u" s'] by simp
next
  case (8 s len p a e s')
  then show ?case using protect_kernel [of s len p a "Err e" s'] by simp
next
  case (9 s a len u s')
  then show ?case by (auto simp: uk_zero_def machine_cells_zero kernel_inv_def)
next
  case (11 s a len u s')
  then show ?case using icache by (auto simp: shim_icache_sync_def c_shim_def call_def split: if_splits prod.splits)
qed (auto simp: uk_zero_def call_def split: prod.splits)

section \<open>The files\<close>

context posix_kernel
begin

definition keeps :: "('k Machine, 'a, error) action \<Rightarrow> bool" where
  "keeps f \<longleftrightarrow> (\<forall>m r m'. kinv m \<longrightarrow> f m = (r, m') \<longrightarrow> kinv m' \<and> kcells m' = kcells m)"

lemma keeps_basic: "keeps (slift r)" "keeps (sret x)"
  by (simp_all add: keeps_def slift_def sret_def)

lemma keepsD: "keeps f \<Longrightarrow> kinv m \<Longrightarrow> f m = (r, m') \<Longrightarrow> kinv m' \<and> kcells m' = kcells m"
  by (simp add: keeps_def)

lemma keeps_bind:
  assumes "keeps f" and g: "\<And>x. keeps (g x)"
  shows "keeps (sbind f g)"
  unfolding keeps_def
proof (intro allI impI)
  fix m r m' assume "kinv m" and run: "sbind f g m = (r, m')"
  obtain r1 m1 where f: "f m = (r1, m1)" by (metis prod.exhaust)
  note m1 = keepsD [OF assms(1) \<open>kinv m\<close> f]
  show "kinv m' \<and> kcells m' = kcells m"
  proof (cases r1)
    case (Ok x)
    with run f have "g x m1 = (r, m')" by (simp add: sbind_def)
    from keepsD [OF g _ this] m1 show ?thesis by simp
  qed (use run f m1 in \<open>auto simp: sbind_def\<close>)
qed

lemma keeps_discard: "keeps f \<Longrightarrow> keeps (sdiscard f)"
  unfolding keeps_def sdiscard_def by (fastforce split: prod.splits result.splits)

lemma keeps_on_err:
  assumes "keeps f" and "keeps g"
  shows "keeps (son_err f g)"
  unfolding keeps_def
proof (intro allI impI)
  fix m r m' assume "kinv m" and run: "son_err f g m = (r, m')"
  obtain r1 m1 where f: "f m = (r1, m1)" by (metis prod.exhaust)
  note m1 = keepsD [OF assms(1) \<open>kinv m\<close> f]
  show "kinv m' \<and> kcells m' = kcells m"
  proof (cases r1)
    case (Err e)
    with run f have "sbind (sdiscard g) (\<lambda>_. slift (Err e)) m1 = (r, m')" by (simp add: son_err_def)
    from keepsD [OF keeps_bind [OF keeps_discard [OF assms(2)] keeps_basic(1)] _ this] m1 show ?thesis by simp
  qed (use run f m1 in \<open>auto simp: son_err_def\<close>)
qed

lemma keeps_call: "(\<And>m r m'. kinv m \<Longrightarrow> f m = (r, m') \<Longrightarrow> kinv m' \<and> kcells m' = kcells m) \<Longrightarrow> keeps (call f)"
  unfolding keeps_def call_def by (auto split: prod.splits)

lemma keeps_cfg: "keeps (cfg sh)"
  by (auto simp: keeps_def cfg_def kernel_inv_def)

lemma keeps_file_calls:
  "keeps (call (elfrs_open_ro sh path))" "keeps (call (elfrs_close sh fd))"
  "keeps (call (elfrs_fsize sh fd))" "keeps (call (elfrs_fd_is_exec sh fd))"
  by (rule keeps_call, auto simp: c_shim_def shim_open_ro_def shim_close_def shim_fsize_def shim_fd_is_exec_def has_vfs
      split: prod.splits if_splits dest: opens closes stats)+

lemmas keeps_intros = keeps_bind keeps_on_err keeps_cfg keeps_basic keeps_file_calls

lemma keeps_open: "keeps (VfsOpener_open sh heap path)"
proof -
  have "keeps (File_open sh heap path)" unfolding File_open_def by (auto intro!: keeps_intros)
  moreover have "keeps (check_exec_bit sh f)" for f unfolding check_exec_bit_def by (auto intro!: keeps_intros)
  moreover have "keeps (File_drop sh f)" for f unfolding File_drop_def by (rule keeps_file_calls)
  moreover have "keeps (\<lambda>m. (Ok (h m), m))" for h :: "'k Machine \<Rightarrow> Opened" by (simp add: keeps_def)
  ultimately show ?thesis unfolding VfsOpener_open_def by (intro keeps_bind keeps_on_err keeps_cfg)
qed

text \<open>The descriptor an opened file offers for mapping shows the file that was asked for.\<close>

lemma vfs_open_content:
  assumes "kinv m" and "VfsOpener_open sh heap path m = (Ok op, m')" and "op_fd op = Some fd"
  shows "fbyte fd = content (path @ [0])"
proof -
  from assms(2,3) obtain c fd' m1 where c: "CString_new heap path = Ok c" "elfrs_open_ro sh c m = (fd', m1)"
      "\<not> sint fd' < 0" "fd = fd'"
    by (auto simp: VfsOpener_open_def File_open_def outcome_simps split: if_splits)
  from c(1) have "c = path @ [0]" by (simp add: CString_new_def split: if_splits)
  moreover obtain r en where o: "c_open uk c m = ((r, en), m1)" "fd' = (if sint r < 0 then - en else r)"
    using c(2) by (auto simp: c_shim_def shim_open_ro_def has_vfs split: prod.splits)
  moreover have "\<not> sint r < 0" using opens [OF assms(1) o(1)] o(2) c(3) sint_neg [of en] by (auto split: if_splits)
  ultimately show ?thesis using opens [OF assms(1) o(1)] c(4) by simp
qed

lemma vfs_maps_files: "maps_files kinv vm (VfsOpener sh heap)"
  unfolding maps_files_def
proof (intro conjI allI impI)
  show "vm_can_map_files vm" by (simp add: UkVm_def shim_cfg_def elfrs_on_def has_mmap)
  fix path m op m' assume "kinv m" and "op_open (VfsOpener sh heap) path m = (Ok op, m')"
  then obtain f m1 c m2 m3 where st: "File_open sh heap path m = (Ok f, m1)" "check_exec_bit sh f m1 = (Ok (), m2)"
      "cfg sh m2 = (Ok c, m3)" "op_fd op = (if have_mmap c \<noteq> 0 then Some (sf_fd f) else None)"
    by (auto simp: VfsOpener_def VfsOpener_open_def outcome_simps)
  have "keeps (File_open sh heap path)" "keeps (check_exec_bit sh f)"
    unfolding File_open_def check_exec_bit_def by (auto intro!: keeps_intros)
  from keepsD [OF this(1) \<open>kinv m\<close> st(1)] keepsD [OF this(2) _ st(2)] have "mc_cfg m2 = Some (shim_cfg kc)"
    by (simp add: kernel_inv_def)
  with st(3,4) show "op_fd op \<noteq> None" by (auto simp: cfg_def shim_cfg_def elfrs_on_def has_mmap)
qed

end

sublocale posix_kernel \<subseteq> vfs: program_space "UkVm (c_shim kc pl uk) (shim_cfg kc)" "kernel_inv kok kc" "machine_cells prots"
    "\<lambda>_ _. True" fbyte "\<lambda>x. 0 < x" "\<lambda>n p. page_bytes kc dvd n \<and> p \<le> 7" "VfsOpener (c_shim kc pl uk) heap" for heap
proof (unfold_locales, goal_cases)
  case (1 s path r s')
  then show ?case using keepsD [OF keeps_open] by (simp add: VfsOpener_def)
next
  case (2 s op u s')
  have "keeps (Opened_drop (c_shim kc pl uk) op)"
    unfolding Opened_drop_def by (cases "op_owned op") (auto intro: keeps_intros)
  from keepsD [OF this 2(1)] 2(2) show ?case by (simp add: VfsOpener_def)
qed

context posix_kernel
begin

lemma program_on_kernel:
  assumes "kinv m" and "kc_page_shift kc < 32" and "serves_solid kinv arch heap (kc_page kc) (VfsOpener sh heap)"
    and "load_program arch heap (VfsOpener sh heap) vm path m = (Ok p, m')"
  shows "shows_segments (kc_page kc) (kcells m') (content (path @ [0])) (lp_image p) (bias (ld_plan (lp_main p)))"
    and "case lp_interp p of
         None \<Rightarrow> \<not> needs_interp (lp_image p)
       | Some (iimg, il) \<Rightarrow>
           needs_interp (lp_image p) \<and> e_type (ehdr iimg) = ET_DYN \<and> \<not> needs_interp iimg
           \<and> (\<exists>ip. lp_interp_path p = Some ip
                \<and> shows_segments (kc_page kc) (kcells m') (content (ip @ [0])) iimg (bias (ld_plan il)))
           \<and> (\<forall>x. \<not> (in_reservation (lp_main p) x \<and> in_reservation il x))"
    and "kcells m x \<noteq> None \<Longrightarrow> kcells m' x = kcells m x"
proof -
  note placed = vfs.program_in_place [OF vfs_maps_files _ _ assms(1,4), unfolded uk_vm_ops(1), OF assms(3) kc_page_pow [OF assms(2)]]
  have named: "fbyte fd = content (q @ [0])"
    if "kinv s1" "op_open (VfsOpener sh heap) q s1 = (Ok op, s2)" "op_fd op = Some fd" for q s1 op s2 fd
    using vfs_open_content [OF that(1) _ that(3)] that(2) by (simp add: VfsOpener_def)
  from placed(3) named [OF assms(1)]
  show "shows_segments (kc_page kc) (kcells m') (content (path @ [0])) (lp_image p) (bias (ld_plan (lp_main p)))" by metis
  from placed(4) named
  show "case lp_interp p of
         None \<Rightarrow> \<not> needs_interp (lp_image p)
       | Some (iimg, il) \<Rightarrow>
           needs_interp (lp_image p) \<and> e_type (ehdr iimg) = ET_DYN \<and> \<not> needs_interp iimg
           \<and> (\<exists>ip. lp_interp_path p = Some ip
                \<and> shows_segments (kc_page kc) (kcells m') (content (ip @ [0])) iimg (bias (ld_plan il)))
           \<and> (\<forall>x. \<not> (in_reservation (lp_main p) x \<and> in_reservation il x))"
    by (fastforce split: option.splits)
  show "kcells m x \<noteq> None \<Longrightarrow> kcells m' x = kcells m x" by (rule placed(2))
qed

end

end
