(* ===== verification/Kernel_Run.thy ===== *)
theory Kernel_Run
  imports Kernel Boot
begin

text \<open>
  A program loaded by the real address space and opener on any kernel that behaves as documented,
  and a small kernel that does: it has pages of 64 bytes, puts a mapping it may place at \<open>0x10000\<close>
  or nowhere, and serves one position-independent image under every name.
\<close>

section \<open>A kernel\<close>

definition small_kc :: Kconfig where
  "small_kc = \<lparr> kc_stack_nbpages = 128, kc_page_shift = 6, kc_posix_user = False, kc_uid = 0, kc_gid = 0,
     kc_have_vfs = True, kc_posix_mmap = True, kc_ukvmem = False, kc_posix_environ = False, kc_ukrandom = False,
     kc_multithreading = False, kc_vfsexec = True, kc_customappname = True, kc_envpath = False, kc_envpwd = False,
     kc_execbit = False, kc_debug = False, kc_vdso = False, kc_arm64 = False, kc_fpsimd = False,
     kc_vfsexec_path = 0, kc_vdso_image_addr = 0, kc_platform_name = 0, kc_eintr = 0 \<rparr>"

definition small_pl :: Platform where
  "small_pl = \<lparr> pl_prot_none = 0, pl_prot_read = 1, pl_prot_write = 2, pl_prot_exec = 4, pl_map_private = 2,
     pl_map_anonymous = 0x20, pl_map_fixed = 0x10, pl_attr_read = 1, pl_attr_write = 2, pl_attr_exec = 4 \<rparr>"

type_synonym small = "u64 \<Rightarrow> u32 option"

definition ld_byte :: "nat \<Rightarrow> u8" where
  "ld_byte k = (if k < 250 then ld_elf ! k else 0)"

definition within :: "u64 \<Rightarrow> u64 \<Rightarrow> u64 \<Rightarrow> bool" where
  "within a len x \<longleftrightarrow> unat a \<le> unat x \<and> unat x < unat a + unat len"

definition small_place :: "u64 \<Rightarrow> u64 \<Rightarrow> u32 option \<Rightarrow> (nat \<Rightarrow> u8) \<Rightarrow> small Machine \<Rightarrow> small Machine" where
  "small_place a len p f m = m\<lparr> mc_kernel := (\<lambda>x. if within a len x then p else mc_kernel m x),
     mc_mem := (\<lambda>x. if within a len x then f (unat x - unat a) else mc_mem m x) \<rparr>"

definition small_mmap :: "u64 \<Rightarrow> u64 \<Rightarrow> i32 \<Rightarrow> i32 \<Rightarrow> i32 \<Rightarrow> i64 \<Rightarrow> (small, u64 \<times> i32) ccall" where
  "small_mmap addr len pr flags fd off m =
    (let fixed = (flags AND 0x10 \<noteq> 0);
         a = (if fixed then addr else 0x10000);
         f = (\<lambda>k. if flags AND 0x20 \<noteq> 0 then 0 else ld_byte (unat off + k))
     in if 0 < len \<and> a \<noteq> 0 \<and> unat a mod 64 = 0 \<and> unat a + unat len \<le> 2 ^ 64
          \<and> (fixed \<or> (\<forall>x. within a len x \<longrightarrow> mc_kernel m x = None))
        then ((a, 0), small_place a len (Some pr) f m) else ((MAP_FAILED, 22), m))"

definition small_munmap :: "u64 \<Rightarrow> u64 \<Rightarrow> (small, i32 \<times> i32) ccall" where
  "small_munmap a len m =
    (if unat a + unat len \<le> 2 ^ 64
     then ((0, 0), m\<lparr> mc_kernel := (\<lambda>x. if within a len x then None else mc_kernel m x) \<rparr>)
     else ((- 1, 22), m))"

definition small_mprotect :: "u64 \<Rightarrow> u64 \<Rightarrow> i32 \<Rightarrow> (small, i32 \<times> i32) ccall" where
  "small_mprotect a len pr m =
    (if unat a + unat len \<le> 2 ^ 64
     then ((0, 0), m\<lparr> mc_kernel := (\<lambda>x. if within a len x then map_option (\<lambda>_. pr) (mc_kernel m x) else mc_kernel m x) \<rparr>)
     else ((- 1, 22), m))"

definition small_uk :: "small Unikraft" where
  "small_uk =
    \<lparr> uk_memalign = (\<lambda>_ _ m. (0, m)), uk_free = (\<lambda>_ m. ((), m)),
      c_mmap = small_mmap, c_munmap = small_munmap, c_mprotect = small_mprotect,
      uk_vas_get_active = (\<lambda>m. (None, m)), uk_vma_set_attr = (\<lambda>_ _ _ _ m. (0, m)),
      c_open = (\<lambda>_ m. ((3, 0), m)), c_close = (\<lambda>_ m. ((), m)),
      c_pread = (\<lambda>_ len off m.
        let n = min (unat len) (250 - unat off) in ((of_nat n, take n (drop (unat off) ld_elf), 0), m)),
      c_fstat = (\<lambda>_ m. ((0, \<lparr> st_size = 250, st_is_reg = True, st_ixusr = True \<rparr>, 0), m)),
      c_stat = (\<lambda>_ m. ((0, \<lparr> st_size = 250, st_is_reg = True, st_ixusr = True \<rparr>, 0), m)),
      c_environ = (\<lambda>m. (0, m)), c_getenv = (\<lambda>_ m. (0, m)), c_chdir = (\<lambda>_ m. ((0, 0), m)),
      uk_random_fill_buffer = (\<lambda>_ m. ((- 1, []), m)), ukplat_memregion_find_initrd0 = (\<lambda>m. ((- 1, 0, 0), m)),
      uk_thread_create_container = (\<lambda>_ _ m. (0, m)), uk_thread_release = (\<lambda>_ m. ((), m)),
      uk_thread_ctx = (\<lambda>_ m. (0, m)), uk_thread_stack = (\<lambda>_ m. (0, m)), uk_thread_set_runnable = (\<lambda>_ m. ((), m)),
      uk_posix_process_create_pthread = (\<lambda>_ m. (0, m)), uk_sched_thread_add = (\<lambda>_ m. ((), m)),
      ukarch_ctx_sp = (\<lambda>_ m. (0, m)), ukarch_ctx_init = (\<lambda>_ _ _ _ m. ((), m)),
      invalidate_icache_range = (\<lambda>_ _ m. ((), m)), read_id_aa64isar0 = (\<lambda>m. (0, m)) \<rparr>"

definition small_machine :: "small Machine" where
  "small_machine = \<lparr> mc_mem = (\<lambda>_. 0), mc_cfg = Some (shim_cfg small_kc), mc_boxes = (\<lambda>_. None), mc_kernel = (\<lambda>_. None) \<rparr>"

section \<open>It behaves as documented\<close>

abbreviation small_cells :: "small Machine \<Rightarrow> cells" where
  "small_cells \<equiv> machine_cells (\<lambda>k. k)"

abbreviation small_inv :: "small Machine \<Rightarrow> bool" where
  "small_inv \<equiv> kernel_inv (\<lambda>_. True) small_kc"

lemma small_prot: "p \<le> 7 \<Longrightarrow> shim_to_prot small_pl p = p"
proof -
  assume "p \<le> 7"
  then have "unat p \<le> 7" by (simp add: word_le_nat_alt)
  then have "unat p \<in> {0, 1, 2, 3, 4, 5, 6, 7}" by auto
  then have "p \<in> of_nat ` {0, 1, 2, 3, 4, 5, 6, 7}" by (rule rev_image_eqI) simp
  then show ?thesis by (auto simp: shim_to_prot_def small_pl_def Let_def)
qed

lemma small_flags:
  "map_flags small_pl anon fixed AND 0x10 \<noteq> 0 \<longleftrightarrow> fixed" "map_flags small_pl anon fixed AND 0x20 \<noteq> 0 \<longleftrightarrow> anon"
  by (simp_all add: map_flags_def small_pl_def Let_def)

lemma small_page: "kc_page small_kc = 64"
  by (simp add: kc_page_def kc_page_size_def small_kc_def)

lemma within_of_nat: "x < 2 ^ 64 \<Longrightarrow> within a len (of_nat x) \<longleftrightarrow> unat a \<le> x \<and> x < unat a + unat len"
  by (simp add: within_def unat_of_nat take_bit_nat_eq_self_iff)

lemma small_cells_place:
  assumes "unat a + unat len \<le> 2 ^ 64"
  shows "small_cells (small_place a len (Some p) f m) =
    overlay (small_cells m) (unat a) (unat a + unat len) (\<lambda>x. Some (p, f (x - unat a)))"
  using assms by (auto simp: machine_cells_def small_place_def overlay_def within_of_nat fun_eq_iff
      unat_of_nat take_bit_nat_eq_self_iff)

lemma small_place_cfg: "mc_cfg (small_place a len p f m) = mc_cfg m"
  by (simp add: small_place_def)

lemma failed_not_aligned: "\<not> 64 dvd unat MAP_FAILED"
proof -
  have "unat MAP_FAILED = 18446744073709551615" by (simp add: MAP_FAILED_def unsigned_minus_1_eq_mask mask_eq_exp_minus_1)
  then show ?thesis by simp
qed

lemmas small_eval = small_uk_def small_mmap_def small_munmap_def small_mprotect_def small_flags small_prot small_page
  Let_def small_cells_place small_place_cfg kernel_inv_def failed_not_aligned

interpretation small: posix_kernel small_kc small_pl small_uk "\<lambda>_. True" "\<lambda>k. k" "\<lambda>_. ld_byte" "\<lambda>_. ld_byte"
proof (unfold_locales, goal_cases)
  case (3 m a len p anon fd off got en m')
  then show ?case by (auto simp: small_eval split: if_splits)
next
  case (4 m a len pr anon fd off en m')
  then show ?case by (auto simp: small_eval MAP_FAILED_def split: if_splits)
next
  case (5 m a len pr anon fd off got en m')
  then show ?case by (auto simp: small_eval MAP_FAILED_def split: if_splits)
next
  case (6 m len p a anon fd off got en m')
  then show ?case by (auto simp: small_eval machine_cells_def within_of_nat split: if_splits)
next
  case (7 m len a rc en m')
  then show ?case
    by (auto simp: small_eval machine_cells_def overlay_def within_of_nat fun_eq_iff split: if_splits)
next
  case (8 m len p a rc en m')
  then show ?case
    by (auto simp: small_eval machine_cells_def overlay_def within_of_nat fun_eq_iff set_prot_def option.map_comp o_def
        split: if_splits)
qed (auto simp: small_kc_def small_uk_def)

section \<open>A run\<close>

abbreviation small_shim :: "small Shim" where "small_shim \<equiv> c_shim small_kc small_pl small_uk"

abbreviation small_vm :: "small Machine Vm" where "small_vm \<equiv> UkVm small_shim (shim_cfg small_kc)"

lemma small_serves: "serves small_shim fd ld_elf"
proof (rule serves_whole)
  fix len off :: u64 and m :: "small Machine"
  have "min (unat len) (250 - unat off) < 2 ^ 63" by simp
  then have "sint (of_nat (min (unat len) (250 - unat off)) :: i64) = int (min (unat len) (250 - unat off))"
    by (simp only: signed_of_nat) (simp add: signed_take_bit_int_eq_self_iff)
  then have "\<not> sint (of_nat (min (unat len) (250 - unat off)) :: i64) < 0" by simp
  then show "elfrs_pread small_shim fd len off m = ((of_nat (min (unat len) (length ld_elf - unat off)),
      take (min (unat len) (length ld_elf - unat off)) (drop (unat off) ld_elf)), m)"
    by (subst c_shim_def) (simp add: shim_pread_def small_kc_def pread_again.simps small_uk_def Let_def del: of_nat_min)
qed simp

lemma small_open:
  assumes "small_inv m"
  shows "op_open (VfsOpener small_shim any_heap) path m =
    (if 0 \<in> set path then Err EINVAL
     else Ok \<lparr> op_src = file_source small_shim \<lparr> sf_fd = 3, sf_size = Some 250 \<rparr> m, op_fd = Some 3, op_owned = Some 3 \<rparr>, m)"
  using assms
  by (simp add: VfsOpener_def VfsOpener_open_def File_open_def check_exec_bit_def CString_new_def any_heap_def sbind_def call_def
      slift_def sret_def son_err_def cfg_def kernel_inv_def c_shim_def shim_open_ro_def shim_fsize_def small_uk_def small_kc_def
      shim_cfg_def elfrs_on_def)

lemma small_source_reads: "reads_like (file_source small_shim \<lparr> sf_fd = 3, sf_size = Some 250 \<rparr> m) ld_elf"
  by (rule serves_reads_like) (simp_all add: small_serves)

lemma small_calls:
  "vm_can_map_files small_vm" "vm_page_size small_vm = 64" "vm_zero small_vm = uk_zero"
  "vm_icache_sync small_vm a len m = (Ok (), m)" "elfrs_close small_shim 3 m = ((), m)"
  "a \<noteq> 0 \<Longrightarrow> 0 < len \<Longrightarrow> unat a mod 64 = 0 \<Longrightarrow> unat a + unat len \<le> 2 ^ 64 \<Longrightarrow>
     vm_map small_vm (Exact a) len p src m = (Ok a, small_place a len (Some (shim_to_prot small_pl p))
       (\<lambda>k. case src of Anon \<Rightarrow> 0 | File fd off \<Rightarrow> ld_byte (unat off + k)) m)"
  "unat a + unat len \<le> 2 ^ 64 \<Longrightarrow>
     vm_protect small_vm a len p m = (Ok (), snd (small_mprotect a len (shim_to_prot small_pl p) m))"
proof -
  show "vm_can_map_files small_vm" by (simp add: UkVm_def shim_cfg_def elfrs_on_def small_kc_def)
  show "vm_icache_sync small_vm a len m = (Ok (), m)" "elfrs_close small_shim 3 m = ((), m)"
    by (simp_all add: UkVm_def call_def c_shim_def shim_icache_sync_def small_kc_def shim_close_def small_uk_def)
  show "vm_protect small_vm a len p m = (Ok (), snd (small_mprotect a len (shim_to_prot small_pl p) m))"
    if "unat a + unat len \<le> 2 ^ 64"
    using that by (simp add: uk_vm_ops uk_protect_def c_shim_def shim_protect_def small_kc_def neg_errno_def small_uk_def
        small_mprotect_def sbind_def call_def slift_def c_status_zero)
  show "vm_map small_vm (Exact a) len p src m = (Ok a, small_place a len (Some (shim_to_prot small_pl p))
       (\<lambda>k. case src of Anon \<Rightarrow> 0 | File fd off \<Rightarrow> ld_byte (unat off + k)) m)"
    if "a \<noteq> 0" "0 < len" "unat a mod 64 = 0" "unat a + unat len \<le> 2 ^ 64"
  proof -
    have "a \<noteq> MAP_FAILED" using that(3) failed_not_aligned by auto
    with that show ?thesis
      by (cases src) (simp_all add: uk_vm_ops uk_map_def c_shim_def shim_map_def small_kc_def MAP_ANON_def MAP_FILE_def
          sbind_def call_def sret_def small_uk_def small_mmap_def small_flags Let_def)
  qed
qed (simp_all add: uk_vm_ops small_page)

definition small_program :: LoadedProgram where
  "small_program = \<lparr> lp_image = ld_image, lp_main = \<lparr> ld_plan = copied_plan, allocated = False \<rparr>,
     lp_interp = None, lp_interp_path = None \<rparr>"

lemma small_reserve:
  "vm_map small_vm Anywhere 576 PROT_NONE Anon small_machine = (Ok 65536, small_place 65536 576 (Some 0) (\<lambda>_. 0) small_machine)"
proof -
  have "shim_to_prot small_pl 0 = 0" by (simp add: small_prot)
  moreover have "(65536 :: u64) \<noteq> MAP_FAILED" by (simp add: MAP_FAILED_def)
  ultimately show ?thesis
    by (simp add: uk_vm_ops uk_map_def c_shim_def shim_map_def small_kc_def MAP_ANON_def MAP_FILE_def sbind_def call_def
        sret_def small_uk_def small_mmap_def small_flags Let_def PROT_NONE_def small_machine_def)
qed

lemma small_fill: "fst (fill_mapped small_vm ld_image 3 copied_plan m) = Ok ()"
  by (simp add: fill_mapped_def fill_mapped_segment_def sync_zeroed_def index_at_def ld_facts seg_range_def word_eval
      copied_plan_def sbind_def small_calls uk_zero_def Let_def del: One_nat_def)

lemma small_program_run:
  obtains m' where "load_program OtherArch any_heap (VfsOpener small_shim any_heap) small_vm [0x2f, 0x70] small_machine
      = (Ok small_program, m')"
proof -
  let ?m1 = "small_place 65536 576 (Some 0) (\<lambda>_. 0) small_machine"
  obtain m2 where fill: "fill_mapped small_vm ld_image 3 copied_plan ?m1 = (Ok (), m2)"
    using small_fill by (metis prod.collapse)
  have load: "load_image small_vm any_heap ld_image src (Some 3) small_machine
      = (Ok \<lparr> ld_plan = copied_plan, allocated = False \<rparr>, m2)" for src
    by (simp add: load_image_def load_mapped_def small_calls ld_facts sbind_def small_reserve ld_plan_copied son_err_def fill Let_def)
  have inv: "small_inv small_machine" by (simp add: kernel_inv_def small_machine_def)
  have drop: "op_drop (VfsOpener small_shim any_heap) \<lparr> op_src = src, op_fd = Some 3, op_owned = Some 3 \<rparr> m = (Ok (), m)"
    for src m by (simp add: VfsOpener_def Opened_drop_def call_def small_calls)
  show thesis
    by (rule that [of m2]) (simp add: load_program_def Let_def with_opened_def sbind_def sfinally_def small_open [OF inv]
        small_calls ld_parse_from [OF small_source_reads] ld_checks load drop small_program_def)
qed

lemma small_solid: "serves_solid small_inv OtherArch any_heap 64 (VfsOpener small_shim any_heap)"
proof -
  have "img_lo 64 ld_image < img_hi 64 ld_image"
    using va_span_wf(1) [OF ld_wf, of 0 512] by (simp add: ld_facts)
  then show ?thesis
    by (auto simp: serves_solid_def small_open ld_parse_from [OF small_source_reads] split: if_splits)
qed

section \<open>Properties\<close>





end
