(* ===== verification/Spec2Isabelle.thy ===== *)
theory Spec2Isabelle
  imports Programs Startup Layout_Tests Auxv_Tests Vm_Refinement Live_Loads Kernel_Run
begin

text \<open>
  A verification development for the Rust ELF loader of this repository (\<open>src/rust/src\<close>), the
  program a Unikraft unikernel boots into to run an unmodified Linux binary.

  \<^bold>\<open>The program.\<close> An executable is opened (\<open>program.rs\<close>, through an \<open>Opener\<close>), its headers are parsed
  and checked (\<open>elf.rs\<close>), a layout is planned that says for every segment what to map, zero and
  protect (\<open>layout.rs\<close>), and the plan is carried out against an address space, either by mapping the
  file or by copying it (\<open>loader.rs\<close>). When the executable names a program interpreter it is loaded
  the same way. The start-up stack with arguments, environment and auxiliary vector is laid out
  (\<open>auxv.rs\<close>), and control is handed over, by the boot program (\<open>app.rs\<close>) or by the handler of an
  \<open>execve\<close> (\<open>binfmt.rs\<close>). The kernel is reached through C functions (\<open>sys.rs\<close>, \<open>log.rs\<close>, \<open>rt.rs\<close>) of a
  shim (\<open>src/glue/shim.c\<close>). The test suite has an address space, a stack, a file system and an ELF writer of its own (\<open>testutil.rs\<close>).

  \<^bold>\<open>Conventions.\<close> A Rust function returns a value of the type \<open>result\<close>: \<open>Ok\<close>, \<open>Err\<close> or \<open>Panic\<close>. The crate
  is built with overflow checks and aborts on a panic, so an arithmetic operation that is not
  checked by the code may be a \<open>Panic\<close>, as are an index or a slice out of range and a failed
  assertion. A function with effects is an \<open>action\<close>, from a state to an outcome and a state; \<open>sbind\<close>
  is the sequence with \<open>?\<close>, \<open>son_err\<close> and \<open>sfinally\<close> are clean-up on an error path and a destructor.
  Machine integers are words of their width. Requests to the heap that the code lets fail are
  answered by a parameter \<open>heap\<close>. Log messages are left out of the other components, except for
  computations in their arguments that can panic.

  \<^bold>\<open>The theories.\<close>
  \<^item> \<open>Prelude\<close>: the types above, checked arithmetic, little-endian coding, rounding, the rules of the
    two program logics used below (\<open>ends\<close>, partial, and \<open>yields\<close>, total), and their simp sets.
  \<^item> \<open>Errno\<close>, \<open>Util\<close>, \<open>Log\<close>: \<open>err.rs\<close>, \<open>util.rs\<close>, and \<open>log.rs\<close> with the panic handler of \<open>rt.rs\<close>. The
    message buffers cannot overrun and always end in a NUL.
  \<^item> \<open>Elf\<close>, \<open>Elf_Codec\<close>, \<open>Elf_Facts\<close>: \<open>elf.rs\<close>. \<open>Image_parse\<close> follows \<open>Image::parse\<close> check by check, split
    into \<open>check_ident\<close>, \<open>check_phtab\<close>, \<open>read_phdrs\<close>, \<open>classify\<close> and \<open>check_overlaps\<close>. The header parsers are
    exact inverses of the encoding; parsing never panics; what it accepts satisfies \<open>wf_image\<close>. The
    locale \<open>image_reader\<close> is the contract of an image source.
  \<^item> \<open>Elf_Builder\<close>: the ELF writer of \<open>testutil.rs\<close>, and that what it writes is read back.
  \<^item> \<open>Built_Images\<close>, \<open>Elf_Tests\<close>, \<open>Layout_Tests\<close>, \<open>Util_Tests\<close>, \<open>Auxv_Tests\<close>: the fixtures of the tests as
    images, and the unit tests of \<open>elf.rs\<close>, \<open>layout.rs\<close>, \<open>util.rs\<close>, \<open>log.rs\<close> and \<open>auxv.rs\<close> as programs of the
    model that pass, which ties the model to the behaviour the authors recorded. \<open>Stack_Use\<close> counts
    what a layout of the stack takes.
  \<^item> \<open>Layout\<close>, \<open>Layout_Facts\<close>: \<open>layout.rs\<close>. Plans of well-formed images stay inside the reservation,
    segments do not overlap, file bytes land where the headers say, and failures are \<open>ENOMEM\<close>.
  \<^item> \<open>Loader\<close>, \<open>Loader_Facts\<close>: \<open>loader.rs\<close> over an arbitrary \<open>Vm\<close>. The locale \<open>mapping_space\<close> states what
    a load through file mappings relies on, in terms of a partial function from addresses to protected
    bytes; \<open>address_space\<close> extends it to the rest of \<open>Vm\<close> and \<open>copying\<close> adds an image reader.
  \<^item> \<open>Fake_Vm\<close>, \<open>Fake_Vm_Facts\<close>: the address space of \<open>testutil.rs\<close>, a sorted list of regions with
    first-fit placement, and the interpretation \<open>fake\<close> of \<open>address_space\<close> on it.
  \<^item> \<open>Serving\<close>, \<open>Fake_Serving\<close>, \<open>Live_Loads\<close>: the locale \<open>serving_space\<close> extends \<open>mapping_space\<close> with what an
    address space grants, under which a load succeeds; the test suite's address space is one while its
    regions are page-aligned and clear of the end of the address space.
  \<^item> \<open>Vm_Refinement\<close>: the methods of \<open>Vm\<close> as the transitions of an abstract memory, and the simulation
    that every implementation of \<open>address_space\<close>, \<open>fake\<close> in particular, refines it run by run.
  \<^item> \<open>Sample\<close>, \<open>Loading\<close>, \<open>Copied_Loads\<close>: concrete images, and the properties of both ways of loading:
    the loaded bytes and protections, isolation, unloading, and what failures leave.
  \<^item> \<open>Auxv\<close>, \<open>Stack_Facts\<close>, \<open>Fake_Stack\<close>, \<open>Initial_Stack\<close>: \<open>auxv.rs\<close> over an arbitrary \<open>StackWriter\<close>, its
    contract \<open>stack_writer\<close> with the predicate \<open>startup_at\<close> for a finished stack, the stack of
    \<open>testutil.rs\<close> with the readers of the test suite, and the round trip between them.
  \<^item> \<open>Program\<close>, \<open>Program_Facts\<close>, \<open>Fake_Fs\<close>, \<open>Programs\<close>: \<open>program.rs\<close>, the locales \<open>program_space\<close> and
    \<open>program_host\<close> (a mapping space with an opener), the file system of its tests, and the properties
    of loading a program with its interpreter.
  \<^item> \<open>Sys\<close>, \<open>Sys_Facts\<close>: \<open>sys.rs\<close> and the allocator of \<open>rt.rs\<close>. The C functions are the fields of the
    record \<open>Shim\<close>, functions on a \<open>Machine\<close> with raw memory. The initrd is an \<open>image_reader\<close> and the
    application stack a \<open>stack_writer\<close>; the read loop of \<open>File\<close> is exact for all short reads.
  \<^item> \<open>Shim\<close>, \<open>Shim_Facts\<close>: \<open>glue/shim.c\<close> as an instance \<open>c_shim\<close> of the record \<open>Shim\<close>, on every branch of the
    build configuration (\<open>Kconfig\<close>), over the functions of Unikraft (\<open>Unikraft\<close>) and the constants of its
    headers (\<open>Platform\<close>); how errors cross the boundary.
  \<^item> \<open>Kernel\<close>, \<open>Kernel_Run\<close>: the locale \<open>posix_kernel\<close> has the documented behaviour of \<open>mmap\<close>, \<open>munmap\<close>,
    \<open>mprotect\<close> and the file calls as its assumptions. It is a sublocale of \<open>mapping_space\<close> for \<open>UkVm\<close> and of
    \<open>program_space\<close> for \<open>VfsOpener\<close>, both through the shim, so the theorem on loaded programs holds of the
    code that ships and not only of the test suite's address space. A small kernel interprets it.
  \<^item> \<open>App\<close>, \<open>Binfmt\<close>, \<open>App_Facts\<close>, \<open>Boot\<close>, \<open>Startup\<close>: \<open>app.rs\<close> and \<open>binfmt.rs\<close>, a machine on which both can
    be run, and their properties for every kernel.

  \<^bold>\<open>Loops.\<close> All loops are total functions. The copy loop, the read loop and the scans of the stack
  and of memory decrease a measure (what is left to copy, to read, or of the address space), without
  fuel. The one exception is in C: \<open>elfrs_pread\<close> reads again for as long as a signal interrupts it, and
  the model waits out \<open>kc_eintr\<close> interruptions in a row, a number every property leaves arbitrary. A C string without a NUL in the whole of memory overflows the counter of \<open>cstr\<close>,
  which is a panic.

  \<^bold>\<open>Assumptions.\<close> The allocator and the C functions are parameters. Where a property needs more of
  them it says so: \<open>serves\<close> for \<open>pread\<close> on a file that does not change, a slot that keeps its pointer
  for the binary format handler. A source of image data is read in the state in which it was
  opened; on a kernel, a descriptor stands for the file it was opened for. Properties of loading ask for images that occupy a nonempty range.

  \<^bold>\<open>Not modelled.\<close> \<open>lib.rs\<close> has no behaviour. Of the C side, the log, the crash, the endless sleep and the
  assertions of \<open>glue/shim.c\<close> and the accessors of Unikraft's structure for binary formats are left out,
  and so are generated files, the vDSO stub and the build. The tests of \<open>loader.rs\<close> and \<open>program.rs\<close> are
  instances of the general properties; only their fixtures are translated.
  Concurrency does not arise: the loader runs before the application's thread is scheduled.
\<close>


end
